theory Spec2Isabelle
  imports Main
begin

section \<open>Vocabulary: \<^verbatim>\<open>types/enum.ts\<close>\<close>

text \<open>
  The TypeScript enums \<^verbatim>\<open>USER_ROLE\<close> and \<^verbatim>\<open>PERMISSION\<close> are string enums, and the
  service compares role names and permission tokens as plain strings
  (\<^verbatim>\<open>userRole: string\<close>, \<^verbatim>\<open>permission: string\<close>). They are therefore modelled as
  named string constants; \<^verbatim>\<open>Object.values(USER_ROLE)\<close> is the list of the three values
  in declaration order.
\<close>

definition STUDENT :: string where "STUDENT = ''student''"
definition TEACHER :: string where "TEACHER = ''teacher''"
definition ADMIN :: string where "ADMIN = ''admin''"

definition USER_ROLE_values :: "string list" where
  "USER_ROLE_values = [STUDENT, TEACHER, ADMIN]"

definition CREATE_USER :: string where "CREATE_USER = ''create_user''"
definition READ_USER :: string where "READ_USER = ''read_user''"
definition UPDATE_USER :: string where "UPDATE_USER = ''update_user''"
definition DELETE_USER :: string where "DELETE_USER = ''delete_user''"
definition MANAGE_ROLES :: string where "MANAGE_ROLES = ''manage_roles''"
definition ASSIGN_ROLES :: string where "ASSIGN_ROLES = ''assign_roles''"
definition MANAGE_HOTELS :: string where "MANAGE_HOTELS = ''manage_hotels''"
definition VIEW_HOTELS :: string where "VIEW_HOTELS = ''view_hotels''"
definition MANAGE_BOOKINGS :: string where "MANAGE_BOOKINGS = ''manage_bookings''"
definition VIEW_BOOKINGS :: string where "VIEW_BOOKINGS = ''view_bookings''"
definition CREATE_BOOKING :: string where "CREATE_BOOKING = ''create_booking''"
definition MANAGE_ROOMS :: string where "MANAGE_ROOMS = ''manage_rooms''"
definition VIEW_ROOMS :: string where "VIEW_ROOMS = ''view_rooms''"
definition MANAGE_PAYMENTS :: string where "MANAGE_PAYMENTS = ''manage_payments''"
definition VIEW_PAYMENTS :: string where "VIEW_PAYMENTS = ''view_payments''"
definition VIEW_REPORTS :: string where "VIEW_REPORTS = ''view_reports''"
definition EXPORT_DATA :: string where "EXPORT_DATA = ''export_data''"
definition MANAGE_SETTINGS :: string where "MANAGE_SETTINGS = ''manage_settings''"
definition VIEW_LOGS :: string where "VIEW_LOGS = ''view_logs''"

text \<open>\<^verbatim>\<open>Object.values(PERMISSION)\<close>, the tokens a role may carry.\<close>

definition PERMISSION_values :: "string list" where
  "PERMISSION_values =
     [CREATE_USER, READ_USER, UPDATE_USER, DELETE_USER,
      MANAGE_ROLES, ASSIGN_ROLES,
      MANAGE_HOTELS, VIEW_HOTELS,
      MANAGE_BOOKINGS, VIEW_BOOKINGS, CREATE_BOOKING,
      MANAGE_ROOMS, VIEW_ROOMS,
      MANAGE_PAYMENTS, VIEW_PAYMENTS,
      VIEW_REPORTS, EXPORT_DATA,
      MANAGE_SETTINGS, VIEW_LOGS]"

text \<open>
  \<^verbatim>\<open>ROLE_HIERARCHY\<close> and \<^verbatim>\<open>ROLE_PERMISSIONS\<close> are object literals keyed by the three
  role names; indexing them with any other key is \<^verbatim>\<open>undefined\<close>, here \<open>None\<close>.
\<close>

definition ROLE_HIERARCHY :: "string \<Rightarrow> string list option" where
  "ROLE_HIERARCHY r =
     (if r = ADMIN then Some [TEACHER, STUDENT]
      else if r = TEACHER then Some [STUDENT]
      else if r = STUDENT then Some []
      else None)"

definition ROLE_PERMISSIONS :: "string \<Rightarrow> string list option" where
  "ROLE_PERMISSIONS r =
     (if r = ADMIN then Some
        [CREATE_USER, READ_USER, UPDATE_USER, DELETE_USER,
         MANAGE_ROLES, ASSIGN_ROLES,
         MANAGE_HOTELS, VIEW_HOTELS,
         MANAGE_BOOKINGS, VIEW_BOOKINGS, CREATE_BOOKING,
         MANAGE_ROOMS, VIEW_ROOMS,
         MANAGE_PAYMENTS, VIEW_PAYMENTS,
         VIEW_REPORTS, EXPORT_DATA,
         MANAGE_SETTINGS, VIEW_LOGS]
      else if r = TEACHER then Some
        [READ_USER,
         VIEW_HOTELS,
         MANAGE_BOOKINGS, VIEW_BOOKINGS, CREATE_BOOKING,
         MANAGE_ROOMS, VIEW_ROOMS,
         VIEW_PAYMENTS,
         VIEW_REPORTS]
      else if r = STUDENT then Some
        [VIEW_HOTELS,
         VIEW_BOOKINGS, CREATE_BOOKING,
         VIEW_ROOMS,
         VIEW_PAYMENTS]
      else None)"

text \<open>The JavaScript idiom \<^verbatim>\<open>x || []\<close> on a possibly undefined array.\<close>

definition orEmpty :: "'a list option \<Rightarrow> 'a list" where
  "orEmpty x = (case x of None \<Rightarrow> [] | Some xs \<Rightarrow> xs)"


section \<open>Strings as the store writes and matches them\<close>

text \<open>
  The role schema (\<^verbatim>\<open>models/Role.ts\<close>) declares \<^verbatim>\<open>trim: true, lowercase: true\<close> on
  \<^verbatim>\<open>name\<close> and \<^verbatim>\<open>trim: true\<close> on \<^verbatim>\<open>displayName\<close> and \<^verbatim>\<open>description\<close>. The store
  applies these setters to a value of the field wherever it meets one: when a document is
  created, when an update sets the field, and when a query filters on it. The setters
  are \<^verbatim>\<open>String.prototype.trim\<close> and \<^verbatim>\<open>String.prototype.toLowerCase\<close>.

  A character is a code point below 256. Of these, \<^verbatim>\<open>trim\<close> removes at both ends the
  white space and line terminators of the language: tab, line feed, vertical tab, form
  feed, carriage return, space and the no-break space. \<^verbatim>\<open>toLowerCase\<close> maps the letters
  A to Z, and the letters from 0xC0 to 0xDE other than the multiplication sign 0xD7, to
  the code point 32 above, and leaves every other character as it is. The two setters
  commute, so the order in which the store applies them does not matter.
\<close>

definition isWhiteSpace :: "char \<Rightarrow> bool" where
  "isWhiteSpace c =
     (c \<in> set [CHR 0x09, CHR 0x0A, CHR 0x0B, CHR 0x0C, CHR 0x0D, CHR '' '', CHR 0xA0])"

definition trim :: "string \<Rightarrow> string" where
  "trim s = rev (dropWhile isWhiteSpace (rev (dropWhile isWhiteSpace s)))"

definition upperCaseLetters :: string where
  "upperCaseLetters =
     ''ABCDEFGHIJKLMNOPQRSTUVWXYZ'' @
     [CHR 0xC0, CHR 0xC1, CHR 0xC2, CHR 0xC3, CHR 0xC4, CHR 0xC5, CHR 0xC6, CHR 0xC7,
      CHR 0xC8, CHR 0xC9, CHR 0xCA, CHR 0xCB, CHR 0xCC, CHR 0xCD, CHR 0xCE, CHR 0xCF,
      CHR 0xD0, CHR 0xD1, CHR 0xD2, CHR 0xD3, CHR 0xD4, CHR 0xD5, CHR 0xD6, CHR 0xD8,
      CHR 0xD9, CHR 0xDA, CHR 0xDB, CHR 0xDC, CHR 0xDD, CHR 0xDE]"

definition lowerCaseLetters :: string where
  "lowerCaseLetters =
     ''abcdefghijklmnopqrstuvwxyz'' @
     [CHR 0xE0, CHR 0xE1, CHR 0xE2, CHR 0xE3, CHR 0xE4, CHR 0xE5, CHR 0xE6, CHR 0xE7,
      CHR 0xE8, CHR 0xE9, CHR 0xEA, CHR 0xEB, CHR 0xEC, CHR 0xED, CHR 0xEE, CHR 0xEF,
      CHR 0xF0, CHR 0xF1, CHR 0xF2, CHR 0xF3, CHR 0xF4, CHR 0xF5, CHR 0xF6, CHR 0xF8,
      CHR 0xF9, CHR 0xFA, CHR 0xFB, CHR 0xFC, CHR 0xFD, CHR 0xFE]"

definition toLowerCase :: "string \<Rightarrow> string" where
  "toLowerCase s =
     map (\<lambda>c. case map_of (zip upperCaseLetters lowerCaseLetters) c of
                 None \<Rightarrow> c
               | Some l \<Rightarrow> l) s"

definition name_setter :: "string \<Rightarrow> string" where
  "name_setter n = trim (toLowerCase n)"

text \<open>\<^verbatim>\<open>String.prototype.includes\<close>: \<open>p\<close> occurs in \<open>s\<close> as a contiguous run.\<close>

fun string_includes :: "string \<Rightarrow> string \<Rightarrow> bool" where
  "string_includes [] p = (p = [])"
| "string_includes (c # cs) p = (take (length p) (c # cs) = p \<or> string_includes cs p)"


section \<open>Errors of the service and their HTTP status\<close>

text \<open>
  The service throws \<^verbatim>\<open>Error(message)\<close>; one constructor stands for each message:
  \<^item> \<open>RoleAlreadyExists\<close>: \<^verbatim>\<open>Role with this name already exists\<close>
  \<^item> \<open>RoleNotFound\<close>: \<^verbatim>\<open>Role not found\<close>
  \<^item> \<open>SystemRoleNotModifiable\<close>: \<^verbatim>\<open>System roles cannot be modified\<close>
  \<^item> \<open>SystemRoleNotDeletable\<close>: \<^verbatim>\<open>System roles cannot be deleted\<close>
  \<^item> \<open>RoleInUse n\<close>: \<^verbatim>\<open>Cannot delete role. n user(s) are currently assigned this role.\<close>
  \<^item> \<open>UserNotFound\<close>: \<^verbatim>\<open>User not found\<close>
  \<^item> \<open>RoleNotFoundOrInactive\<close>: \<^verbatim>\<open>Role not found or inactive\<close>
  \<^item> \<open>AssigningUserNotFound\<close>: \<^verbatim>\<open>Assigning user not found\<close>
  \<^item> \<open>NoPermissionToAssign\<close>: \<^verbatim>\<open>You do not have permission to assign this role\<close>

  The service catches nothing, so an error thrown by the store inside a service function
  leaves it as it is:
  \<^item> \<open>CastError msg\<close>: the store cannot read a string as an ObjectId; \<open>msg\<close> is the
    message of the error, which quotes the string;
  \<^item> \<open>ValidationError\<close>: a document to be created fails the validators of its schema.
\<close>

datatype service_error =
    RoleAlreadyExists
  | RoleNotFound
  | SystemRoleNotModifiable
  | SystemRoleNotDeletable
  | RoleInUse nat
  | UserNotFound
  | RoleNotFoundOrInactive
  | AssigningUserNotFound
  | NoPermissionToAssign
  | CastError string
  | ValidationError

text \<open>
  The controllers choose the status by testing the message for a phrase, in a fixed
  order (\<^verbatim>\<open>message.includes('not found')\<close> first). The functions below give, for each
  message the service can throw, the branch those tests select: 404 NotFound,
  403 Forbidden, 409 Conflict, and 500 for a message no test recognises. The message of a
  cast error quotes the caller's string, so its branch depends on that string.
\<close>

fun updateRole_status :: "service_error \<Rightarrow> nat" where
  "updateRole_status RoleNotFound = 404"
| "updateRole_status UserNotFound = 404"
| "updateRole_status RoleNotFoundOrInactive = 404"
| "updateRole_status AssigningUserNotFound = 404"
| "updateRole_status SystemRoleNotModifiable = 403"
| "updateRole_status (CastError msg) =
     (if string_includes msg ''not found'' then 404
      else if string_includes msg ''cannot be modified'' then 403 else 500)"
| "updateRole_status _ = 500"

fun deleteRole_status :: "service_error \<Rightarrow> nat" where
  "deleteRole_status RoleNotFound = 404"
| "deleteRole_status UserNotFound = 404"
| "deleteRole_status RoleNotFoundOrInactive = 404"
| "deleteRole_status AssigningUserNotFound = 404"
| "deleteRole_status SystemRoleNotDeletable = 403"
| "deleteRole_status (RoleInUse n) = 409"
| "deleteRole_status (CastError msg) =
     (if string_includes msg ''not found'' then 404
      else if string_includes msg ''cannot be deleted'' then 403
      else if string_includes msg ''user(s) are currently assigned'' then 409 else 500)"
| "deleteRole_status _ = 500"

fun assignRole_status :: "service_error \<Rightarrow> nat" where
  "assignRole_status RoleNotFound = 404"
| "assignRole_status UserNotFound = 404"
| "assignRole_status RoleNotFoundOrInactive = 404"
| "assignRole_status AssigningUserNotFound = 404"
| "assignRole_status NoPermissionToAssign = 403"
| "assignRole_status (CastError msg) =
     (if string_includes msg ''not found'' then 404
      else if string_includes msg ''do not have permission'' then 403 else 500)"
| "assignRole_status _ = 500"


section \<open>Documents and collections: \<^verbatim>\<open>models/Role.ts\<close> and the user model\<close>

text \<open>
  An ObjectId is written as the string that \<^verbatim>\<open>toString()\<close> gives for it. A collection is
  the list of its documents in insertion order. The \<^verbatim>\<open>timestamps\<close> fields play no part in
  any decision of the service and are left out. Of the user document only the fields the
  role service reads or writes are kept; the user schema declares no setter on \<^verbatim>\<open>role\<close>.
\<close>

type_synonym objectId = string

record role_doc =
  role_id :: objectId
  name :: string
  displayName :: string
  description :: "string option"
  permissions :: "string list"
  isSystem :: bool
  isActive :: bool
  createdBy :: "objectId option"
  updatedBy :: "objectId option"

record user_doc =
  user_id :: objectId
  email :: string
  role :: string
  password :: "string option"

text \<open>
  The queries of the service. \<^verbatim>\<open>findOne\<close> and \<^verbatim>\<open>findById\<close> return the first document
  that satisfies the filter, or \<^verbatim>\<open>null\<close>; \<^verbatim>\<open>countDocuments\<close> counts the documents that
  satisfy it. A filter on the role \<^verbatim>\<open>name\<close> passes through the setters of that field
  before it is compared with the stored names.
\<close>

definition Role_findOne_name :: "role_doc list \<Rightarrow> string \<Rightarrow> role_doc option" where
  "Role_findOne_name roles n = find (\<lambda>r. name r = name_setter n) roles"

definition Role_findOne_active :: "role_doc list \<Rightarrow> string \<Rightarrow> role_doc option" where
  "Role_findOne_active roles n = find (\<lambda>r. name r = name_setter n \<and> isActive r) roles"

definition Role_findById :: "role_doc list \<Rightarrow> objectId \<Rightarrow> role_doc option" where
  "Role_findById roles i = find (\<lambda>r. role_id r = i) roles"

definition User_countDocuments_role :: "user_doc list \<Rightarrow> string \<Rightarrow> nat" where
  "User_countDocuments_role users n = length (filter (\<lambda>u. role u = n) users)"

text \<open>
  The identity ids that reach the service (\<^verbatim>\<open>userId\<close>, \<^verbatim>\<open>assignedBy\<close>, the members of
  \<^verbatim>\<open>userIds\<close>) are strings of the caller, which the validation schemas only require to
  be non-empty. \<^verbatim>\<open>User.findById\<close> first casts the string to an ObjectId and throws a cast
  error when it cannot. Which strings the driver can cast, and the wording of its error,
  are the driver's; they are the parameter \<open>castObjectId\<close>, which gives either the
  message of the cast error (\<open>Inl\<close>) or the ObjectId (\<open>Inr\<close>). A store operation
  returns \<open>Inl\<close> of the message of the error it throws.
\<close>

definition User_findById ::
  "(string \<Rightarrow> string + objectId) \<Rightarrow> user_doc list \<Rightarrow> string
     \<Rightarrow> string + user_doc option" where
  "User_findById castObjectId users userId =
     (case castObjectId userId of
        Inl msg \<Rightarrow> Inl msg
      | Inr i \<Rightarrow> Inr (find (\<lambda>u. user_id u = i) users))"

text \<open>
  A cast for concrete runs: a string of 24 hexadecimal digits is the ObjectId with those
  digits in lower case, and every other string is refused with the message of the
  store's cast error for the user model, which quotes the string. The runs below use it
  on strings of 24 hexadecimal digits and on strings shorter than 12 characters only.
\<close>

definition isHexDigit :: "char \<Rightarrow> bool" where
  "isHexDigit c = (c \<in> set ''0123456789abcdefABCDEF'')"

definition quoted :: "string \<Rightarrow> string" where
  "quoted s = CHR 0x22 # s @ [CHR 0x22]"

definition cast24 :: "string \<Rightarrow> string + objectId" where
  "cast24 s =
     (if length s = 24 \<and> list_all isHexDigit s then Inr (toLowerCase s)
      else Inl (''Cast to ObjectId failed for value '' @ quoted s @ '' (type string) at path ''
                  @ quoted ''_id'' @ '' for model '' @ quoted ''User''))"


section \<open>Permission resolution: \<^verbatim>\<open>RoleService.getRolePermissions\<close>, \<^verbatim>\<open>hasPermission\<close>\<close>

text \<open>
  The store is taken to answer the queries of these functions. A failure of the store
  itself is modelled where a caller reacts to it, in the permission gate.
\<close>

definition getRolePermissions :: "role_doc list \<Rightarrow> string \<Rightarrow> string list" where
  "getRolePermissions roles roleName =
     (case Role_findOne_active roles roleName of
        Some r \<Rightarrow> permissions r
      | None \<Rightarrow>
          if roleName \<in> set USER_ROLE_values
          then orEmpty (ROLE_PERMISSIONS roleName)
          else [])"

definition hasPermission ::
  "(string \<Rightarrow> string + objectId) \<Rightarrow> role_doc list \<Rightarrow> user_doc list \<Rightarrow> string \<Rightarrow> string
     \<Rightarrow> service_error + bool" where
  "hasPermission castObjectId roles users userId permission =
     (case User_findById castObjectId users userId of
        Inl msg \<Rightarrow> Inl (CastError msg)
      | Inr None \<Rightarrow> Inr False
      | Inr (Some user) \<Rightarrow> Inr (permission \<in> set (getRolePermissions roles (role user))))"



section \<open>Writes to the collections\<close>

text \<open>
  \<^verbatim>\<open>findByIdAndUpdate\<close> changes one document, the first with the given id;
  \<^verbatim>\<open>findByIdAndDelete\<close> removes that one document. Both are no-ops when no document
  has the id.
\<close>

fun update_first :: "('a \<Rightarrow> bool) \<Rightarrow> ('a \<Rightarrow> 'a) \<Rightarrow> 'a list \<Rightarrow> 'a list" where
  "update_first P f [] = []"
| "update_first P f (x # xs) = (if P x then f x # xs else x # update_first P f xs)"

fun delete_first :: "('a \<Rightarrow> bool) \<Rightarrow> 'a list \<Rightarrow> 'a list" where
  "delete_first P [] = []"
| "delete_first P (x # xs) = (if P x then xs else x # delete_first P xs)"

text \<open>
  What \<^verbatim>\<open>Role.create\<close> is given: the fields the caller spreads into the document. The
  schema fills in the defaults \<^verbatim>\<open>isSystem: false\<close> and \<^verbatim>\<open>isActive: true\<close> and runs the
  setters of \<^verbatim>\<open>name\<close>, \<^verbatim>\<open>displayName\<close> and \<^verbatim>\<open>description\<close>. The id of the new
  document is chosen by the driver and is an argument here.
\<close>

record role_data =
  d_name :: string
  d_displayName :: string
  d_description :: "string option"
  d_permissions :: "string list"
  d_isSystem :: "bool option"
  d_createdBy :: "objectId option"

definition new_role_doc :: "objectId \<Rightarrow> role_data \<Rightarrow> role_doc" where
  "new_role_doc newId d =
     \<lparr> role_id = newId,
       name = name_setter (d_name d),
       displayName = trim (d_displayName d),
       description = map_option trim (d_description d),
       permissions = d_permissions d,
       isSystem = (case d_isSystem d of None \<Rightarrow> False | Some b \<Rightarrow> b),
       isActive = True,
       createdBy = d_createdBy d,
       updatedBy = None \<rparr>"

definition Role_create :: "role_doc list \<Rightarrow> objectId \<Rightarrow> role_data \<Rightarrow> role_doc list" where
  "Role_create roles newId d = roles @ [new_role_doc newId d]"

text \<open>
  The validators that \<^verbatim>\<open>Role.create\<close> runs on the document it has built: \<^verbatim>\<open>name\<close> and
  \<^verbatim>\<open>displayName\<close> are required (a required string must not be empty), and every
  member of \<^verbatim>\<open>permissions\<close> must be a value of the \<^verbatim>\<open>PERMISSION\<close> enum.
\<close>

definition Role_validate :: "role_doc \<Rightarrow> bool" where
  "Role_validate r =
     (name r \<noteq> [] \<and> displayName r \<noteq> [] \<and> list_all (\<lambda>p. p \<in> set PERMISSION_values) (permissions r))"

definition Role_findByIdAndUpdate ::
  "role_doc list \<Rightarrow> objectId \<Rightarrow> (role_doc \<Rightarrow> role_doc) \<Rightarrow> role_doc list" where
  "Role_findByIdAndUpdate roles i f = update_first (\<lambda>r. role_id r = i) f roles"

definition Role_findByIdAndDelete :: "role_doc list \<Rightarrow> objectId \<Rightarrow> role_doc list" where
  "Role_findByIdAndDelete roles i = delete_first (\<lambda>r. role_id r = i) roles"

text \<open>
  \<^verbatim>\<open>User.findByIdAndUpdate(userId, { role: roleName })\<close> casts the id as \<^verbatim>\<open>findById\<close>
  does, sets the role of the first document with that id (validators do not run on an
  update, and the field has no setter), and yields the document as updated.
\<close>

definition User_findByIdAndUpdate_role ::
  "(string \<Rightarrow> string + objectId) \<Rightarrow> user_doc list \<Rightarrow> string \<Rightarrow> string
     \<Rightarrow> string + (user_doc option \<times> user_doc list)" where
  "User_findByIdAndUpdate_role castObjectId users userId roleName =
     (case castObjectId userId of
        Inl msg \<Rightarrow> Inl msg
      | Inr i \<Rightarrow>
          Inr (map_option (\<lambda>u. u\<lparr>role := roleName\<rparr>) (find (\<lambda>u. user_id u = i) users),
               update_first (\<lambda>u. user_id u = i) (\<lambda>u. u\<lparr>role := roleName\<rparr>) users))"

text \<open>The projection \<^verbatim>\<open>.select('-password')\<close>.\<close>

definition select_without_password :: "user_doc \<Rightarrow> user_doc" where
  "select_without_password u = u\<lparr>password := None\<rparr>"


section \<open>Role management: \<^verbatim>\<open>services/roleService.ts\<close>\<close>

subsection \<open>\<^verbatim>\<open>initializeSystemRoles\<close>\<close>

definition systemRoles :: "role_data list" where
  "systemRoles =
     [\<lparr> d_name = ADMIN,
        d_displayName = ''Administrator'',
        d_description = Some ''Full system administrator with all permissions'',
        d_permissions = the (ROLE_PERMISSIONS ADMIN),
        d_isSystem = Some True,
        d_createdBy = None \<rparr>,
      \<lparr> d_name = TEACHER,
        d_displayName = ''Teacher'',
        d_description = Some ''Teacher with limited administrative permissions'',
        d_permissions = the (ROLE_PERMISSIONS TEACHER),
        d_isSystem = Some True,
        d_createdBy = None \<rparr>,
      \<lparr> d_name = STUDENT,
        d_displayName = ''Student'',
        d_description = Some ''Student with basic permissions'',
        d_permissions = the (ROLE_PERMISSIONS STUDENT),
        d_isSystem = Some True,
        d_createdBy = None \<rparr>]"

text \<open>
  One turn of the loop: look the name up (active or not) and create the record only when
  the lookup finds nothing. \<open>newId\<close> gives the id the driver assigns to the record of
  each name. The three constant documents pass the validators of the schema, so the
  creation does not throw.
\<close>

definition initializeSystemRole ::
  "(string \<Rightarrow> objectId) \<Rightarrow> role_data \<Rightarrow> role_doc list \<Rightarrow> role_doc list" where
  "initializeSystemRole newId roleData roles =
     (case Role_findOne_name roles (d_name roleData) of
        None \<Rightarrow> Role_create roles (newId (d_name roleData)) roleData
      | Some existingRole \<Rightarrow> roles)"

definition initializeSystemRoles ::
  "(string \<Rightarrow> objectId) \<Rightarrow> role_doc list \<Rightarrow> role_doc list" where
  "initializeSystemRoles newId roles = fold (initializeSystemRole newId) systemRoles roles"

subsection \<open>\<^verbatim>\<open>createRole\<close>, \<^verbatim>\<open>updateRole\<close>, \<^verbatim>\<open>deleteRole\<close>\<close>

record CreateRoleInput =
  cr_name :: string
  cr_displayName :: string
  cr_description :: "string option"
  cr_permissions :: "string list"

definition createRole ::
  "role_doc list \<Rightarrow> objectId \<Rightarrow> CreateRoleInput \<Rightarrow> objectId
     \<Rightarrow> service_error + (role_doc \<times> role_doc list)" where
  "createRole roles newId roleData creator =
     (case Role_findOne_name roles (cr_name roleData) of
        Some existingRole \<Rightarrow> Inl RoleAlreadyExists
      | None \<Rightarrow>
          (let d = \<lparr> d_name = cr_name roleData,
                     d_displayName = cr_displayName roleData,
                     d_description = cr_description roleData,
                     d_permissions = cr_permissions roleData,
                     d_isSystem = None,
                     d_createdBy = Some creator \<rparr>
           in if \<not> Role_validate (new_role_doc newId d) then Inl ValidationError
              else Inr (new_role_doc newId d, Role_create roles newId d)))"

text \<open>
  The role id that \<open>updateRole\<close> and \<open>deleteRole\<close> are given is an ObjectId, as are the
  ids of the acting identity (\<^verbatim>\<open>createdBy\<close>, \<^verbatim>\<open>updatedBy\<close>), which the controllers take
  from the stored identity of the token. The two functions are not modelled on a role id
  that the store cannot read: \<^verbatim>\<open>Role.findById\<close> throws its cast error there, before
  anything is written.

  \<^verbatim>\<open>UpdateRoleInput\<close> is the output type of \<^verbatim>\<open>updateRoleSchema\<close>: four optional fields.
  The update document is \<^verbatim>\<open>{...updateData, updatedBy}\<close>; a field that is absent from it
  is left as stored, and a \<^verbatim>\<open>displayName\<close> or \<^verbatim>\<open>description\<close> that is present is stored
  as its setter leaves it, trimmed.
\<close>

record UpdateRoleInput =
  up_displayName :: "string option"
  up_description :: "string option"
  up_permissions :: "string list option"
  up_isActive :: "bool option"

definition apply_update :: "UpdateRoleInput \<Rightarrow> objectId \<Rightarrow> role_doc \<Rightarrow> role_doc" where
  "apply_update updateData updater r =
     r\<lparr> displayName :=
          (case up_displayName updateData of None \<Rightarrow> displayName r | Some v \<Rightarrow> trim v),
        description :=
          (case up_description updateData of None \<Rightarrow> description r | Some v \<Rightarrow> Some (trim v)),
        permissions := (case up_permissions updateData of None \<Rightarrow> permissions r | Some v \<Rightarrow> v),
        isActive := (case up_isActive updateData of None \<Rightarrow> isActive r | Some v \<Rightarrow> v),
        updatedBy := Some updater \<rparr>"

definition updateRole ::
  "role_doc list \<Rightarrow> objectId \<Rightarrow> UpdateRoleInput \<Rightarrow> objectId
     \<Rightarrow> service_error + (role_doc option \<times> role_doc list)" where
  "updateRole roles roleId updateData updater =
     (case Role_findById roles roleId of
        None \<Rightarrow> Inl RoleNotFound
      | Some r \<Rightarrow>
          if isSystem r then Inl SystemRoleNotModifiable
          else
            (let roles' = Role_findByIdAndUpdate roles roleId (apply_update updateData updater)
             in Inr (Role_findById roles' roleId, roles')))"

definition deleteRole ::
  "role_doc list \<Rightarrow> user_doc list \<Rightarrow> objectId \<Rightarrow> service_error + role_doc list" where
  "deleteRole roles users roleId =
     (case Role_findById roles roleId of
        None \<Rightarrow> Inl RoleNotFound
      | Some r \<Rightarrow>
          if isSystem r then Inl SystemRoleNotDeletable
          else
            (let usersWithRole = User_countDocuments_role users (name r)
             in if usersWithRole > 0 then Inl (RoleInUse usersWithRole)
                else Inr (Role_findByIdAndDelete roles roleId)))"

subsection \<open>\<^verbatim>\<open>canAssignRole\<close>, \<^verbatim>\<open>assignRoleToUser\<close>, \<^verbatim>\<open>bulkAssignRole\<close>\<close>

definition canAssignRole :: "string \<Rightarrow> string \<Rightarrow> bool" where
  "canAssignRole userRole targetRole =
     (if userRole \<in> set USER_ROLE_values
      then (let manageableRoles = orEmpty (ROLE_HIERARCHY userRole)
            in targetRole \<in> set manageableRoles \<or> userRole = targetRole)
      else userRole = ADMIN)"

definition assignRoleToUser ::
  "(string \<Rightarrow> string + objectId) \<Rightarrow> role_doc list \<Rightarrow> user_doc list \<Rightarrow> string \<Rightarrow> string
     \<Rightarrow> string \<Rightarrow> service_error + (user_doc option \<times> user_doc list)" where
  "assignRoleToUser castObjectId roles users userId roleName assignedBy =
     (case User_findById castObjectId users userId of
        Inl msg \<Rightarrow> Inl (CastError msg)
      | Inr None \<Rightarrow> Inl UserNotFound
      | Inr (Some user) \<Rightarrow>
     (case Role_findOne_active roles roleName of
        None \<Rightarrow> Inl RoleNotFoundOrInactive
      | Some r \<Rightarrow>
     (case User_findById castObjectId users assignedBy of
        Inl msg \<Rightarrow> Inl (CastError msg)
      | Inr None \<Rightarrow> Inl AssigningUserNotFound
      | Inr (Some assigningUser) \<Rightarrow>
          if \<not> canAssignRole (role assigningUser) roleName then Inl NoPermissionToAssign
          else
            (case User_findByIdAndUpdate_role castObjectId users userId roleName of
               Inl msg \<Rightarrow> Inl (CastError msg)
             | Inr (updatedUser, users') \<Rightarrow>
                 Inr (map_option select_without_password updatedUser, users')))))"

text \<open>
  The loop of \<^verbatim>\<open>bulkAssignRole\<close> walks the ids in order, threading the user collection
  and the two result arrays. A failure entry is the pair of the id and the message. The
  body of the loop is inside \<^verbatim>\<open>try\<close>: an error thrown by the store for an id (the cast
  error of an id that is no ObjectId) is caught, and its own message is recorded for that
  id.
\<close>

fun bulkAssign_loop ::
  "(string \<Rightarrow> string + objectId) \<Rightarrow> string \<Rightarrow> string list \<Rightarrow> user_doc list
     \<Rightarrow> string list \<Rightarrow> (string \<times> string) list
     \<Rightarrow> (string list \<times> (string \<times> string) list) \<times> user_doc list" where
  "bulkAssign_loop castObjectId roleName [] users success failed = ((success, failed), users)"
| "bulkAssign_loop castObjectId roleName (userId # rest) users success failed =
     (case User_findById castObjectId users userId of
        Inl msg \<Rightarrow>
          bulkAssign_loop castObjectId roleName rest users success (failed @ [(userId, msg)])
      | Inr None \<Rightarrow>
          bulkAssign_loop castObjectId roleName rest users success
            (failed @ [(userId, ''User not found'')])
      | Inr (Some user) \<Rightarrow>
          (case User_findByIdAndUpdate_role castObjectId users userId roleName of
             Inl msg \<Rightarrow>
               bulkAssign_loop castObjectId roleName rest users success
                 (failed @ [(userId, msg)])
           | Inr (updatedUser, users') \<Rightarrow>
               bulkAssign_loop castObjectId roleName rest users' (success @ [userId]) failed))"

definition bulkAssignRole ::
  "(string \<Rightarrow> string + objectId) \<Rightarrow> role_doc list \<Rightarrow> user_doc list \<Rightarrow> string list
     \<Rightarrow> string \<Rightarrow> string
     \<Rightarrow> service_error + ((string list \<times> (string \<times> string) list) \<times> user_doc list)" where
  "bulkAssignRole castObjectId roles users userIds roleName assignedBy =
     (case Role_findOne_active roles roleName of
        None \<Rightarrow> Inl RoleNotFoundOrInactive
      | Some r \<Rightarrow>
     (case User_findById castObjectId users assignedBy of
        Inl msg \<Rightarrow> Inl (CastError msg)
      | Inr None \<Rightarrow> Inl AssigningUserNotFound
      | Inr (Some assigningUser) \<Rightarrow>
          if \<not> canAssignRole (role assigningUser) roleName then Inl NoPermissionToAssign
          else Inr (bulkAssign_loop castObjectId roleName userIds users [] [])))"


section \<open>Authorization middleware: \<^verbatim>\<open>AuthMiddleware.requirePermission\<close>\<close>

text \<open>
  \<open>auth_user\<close> is \<^verbatim>\<open>req.user\<close>, attached by the authentication gate. A middleware either
  calls \<^verbatim>\<open>next()\<close> or answers with a status and a message.
\<close>

record auth_user =
  au_userId :: objectId
  au_email :: string
  au_role :: string

datatype http_result = Next | Respond nat string

text \<open>
  The middleware awaits
  \<^verbatim>\<open>Promise.race([Promise.all(permissions.map(p => hasPermission(userId, p))), timer])\<close>
  where the timer resolves to \<^verbatim>\<open>false\<close> after 5000 ms. JavaScript runs settlements one
  at a time, so what the race yields is decided by the order in which the
  \<^verbatim>\<open>hasPermission\<close> promises settle before the timer fires. That order is the input
  \<open>evs\<close>: the settlements that happen before the timer, oldest first, each naming the
  index of its call in the \<^verbatim>\<open>permissions\<close> array. \<open>Resolves i\<close> is call \<open>i\<close> running to
  its end on a store that answers: the call then returns the boolean of \<open>hasPermission\<close>,
  or throws the error \<open>hasPermission\<close> throws. \<open>Rejects i\<close> is the store failing under
  call \<open>i\<close>, which makes the call throw. A promise settles once: a later event for an
  index already settled is ignored, as is an index outside the array.

  \<^item> \<^verbatim>\<open>Promise.all\<close> of an empty array is already fulfilled (with \<^verbatim>\<open>[]\<close>).
  \<^item> \<^verbatim>\<open>Promise.all\<close> rejects with the first call that throws, and then so does the race.
  \<^item> \<^verbatim>\<open>Promise.all\<close> fulfils, with the array of all results, when the last call has
    returned; every call has returned a boolean then.
  \<^item> When the events run out, the timer fires and the race yields \<^verbatim>\<open>false\<close>.

  Each call is evaluated on the collections as they are when the request arrives. The
  dynamic import of the service module, which precedes the race, is taken to succeed.
\<close>

datatype settle = Resolves nat | Rejects nat

datatype race_value = Results "bool list" | TimeoutFalse

datatype 'a awaited = Fulfilled 'a | Thrown

definition all_settled :: "nat \<Rightarrow> nat list \<Rightarrow> bool" where
  "all_settled n settled = list_all (\<lambda>j. j \<in> set settled) [0..<n]"

definition returned :: "service_error + bool \<Rightarrow> bool" where
  "returned r = (case r of Inl e \<Rightarrow> False | Inr b \<Rightarrow> b)"

fun race :: "(service_error + bool) list \<Rightarrow> nat list \<Rightarrow> settle list \<Rightarrow> race_value awaited" where
  "race results settled [] = Fulfilled TimeoutFalse"
| "race results settled (Rejects i # evs) =
     (if i < length results \<and> i \<notin> set settled then Thrown
      else race results settled evs)"
| "race results settled (Resolves i # evs) =
     (if i < length results \<and> i \<notin> set settled \<and> isl (results ! i) then Thrown
      else if all_settled (length results) (i # settled)
      then Fulfilled (Results (map returned results))
      else race results (i # settled) evs)"

definition promise_race :: "(service_error + bool) list \<Rightarrow> settle list \<Rightarrow> race_value awaited" where
  "promise_race results evs =
     (if all_settled (length results) [] then Fulfilled (Results (map returned results))
      else race results [] evs)"

definition requirePermission ::
  "(string \<Rightarrow> string + objectId) \<Rightarrow> role_doc list \<Rightarrow> user_doc list \<Rightarrow> string list
     \<Rightarrow> auth_user option \<Rightarrow> settle list \<Rightarrow> http_result" where
  "requirePermission castObjectId roles users perms req_user evs =
     (case req_user of
        None \<Rightarrow> Respond 401 ''Authentication required''
      | Some user \<Rightarrow>
          (case promise_race
                  (map (\<lambda>permission.
                          hasPermission castObjectId roles users (au_userId user) permission) perms)
                  evs of
             Thrown \<Rightarrow> Respond 500 ''Error checking permissions''
           | Fulfilled hasPermission_value \<Rightarrow>
               (let hasAnyPermission =
                      (case hasPermission_value of
                         Results bs \<Rightarrow> list_ex (\<lambda>b. b) bs
                       | TimeoutFalse \<Rightarrow> False)
                in if \<not> hasAnyPermission then Respond 403 ''Insufficient permissions''
                   else Next)))"


section \<open>Rate limiting: \<^verbatim>\<open>AuthMiddleware.rateLimitAuth\<close>\<close>

text \<open>
  The repository holds two bodies of \<^verbatim>\<open>AuthMiddleware.rateLimitAuth\<close>. The one modelled
  first keys its counters by address and email and computes a hint; the other, in
  \<^verbatim>\<open>middlewares/authMiddleware.ts\<close>, keys them by address alone and answers with a fixed
  message (\<open>rateLimitAuth_byAddress\<close> below).

  The limiter keeps a \<^verbatim>\<open>Map\<close> from key to \<^verbatim>\<open>{count, resetTime}\<close>. Times are
  \<^verbatim>\<open>Date.now()\<close> values, integers in milliseconds; JavaScript computes with them as
  doubles, which is exact arithmetic as long as the values stay within the safe integers
  (up to \<open>MAX_SAFE_INTEGER\<close>). The key is the template string
  \<^verbatim>\<open>${ip}:${email}\<close> with \<^verbatim>\<open>ip = req.ip || req.connection.remoteAddress || 'unknown'\<close>
  and \<^verbatim>\<open>email = req.body?.email || 'unknown'\<close>; a missing value and the empty string
  are the falsy cases of \<^verbatim>\<open>||\<close>. The submitted email is taken to be a string.
\<close>

definition MAX_SAFE_INTEGER :: int where
  "MAX_SAFE_INTEGER = 2 ^ 53 - 1"

record attempt =
  count :: nat
  resetTime :: int

record auth_request =
  req_ip :: "string option"
  req_remoteAddress :: "string option"
  req_email :: "string option"

definition js_or :: "string option \<Rightarrow> string \<Rightarrow> string" where
  "js_or v d = (case v of None \<Rightarrow> d | Some s \<Rightarrow> if s = [] then d else s)"

definition request_ip :: "auth_request \<Rightarrow> string" where
  "request_ip req = js_or (req_ip req) (js_or (req_remoteAddress req) ''unknown'')"

definition rate_key :: "auth_request \<Rightarrow> string" where
  "rate_key req =
     (let ip = request_ip req;
          email = js_or (req_email req) ''unknown''
      in ip @ '':'' @ email)"

text \<open>
  The hint is \<^verbatim>\<open>Math.ceil((resetTime - now) / (1000 * 60))\<close>; on integers the ceiling of
  \<open>d / 60000\<close> is \<open>- ((- d) div 60000)\<close>, as \<open>div\<close> rounds down.
\<close>

definition remainingTime :: "int \<Rightarrow> int \<Rightarrow> int" where
  "remainingTime reset now = - ((- (reset - now)) div (1000 * 60))"

text \<open>The limiter calls \<^verbatim>\<open>next()\<close> or answers 429 with the minutes hint in its message.\<close>

datatype rate_result = Allowed | TooManyRequests int

text \<open>The default arguments of \<^verbatim>\<open>rateLimitAuth\<close>: 5 attempts in 15 minutes.\<close>

definition default_maxAttempts :: nat where
  "default_maxAttempts = 5"

definition default_windowMs :: int where
  "default_windowMs = 15 * 60 * 1000"

definition rateLimitAuth ::
  "nat \<Rightarrow> int \<Rightarrow> (string \<rightharpoonup> attempt) \<Rightarrow> auth_request \<Rightarrow> int
     \<Rightarrow> rate_result \<times> (string \<rightharpoonup> attempt)" where
  "rateLimitAuth maxAttempts windowMs attempts req now =
     (let key = rate_key req in
      case attempts key of
        None \<Rightarrow> (Allowed, attempts(key \<mapsto> \<lparr>count = 1, resetTime = now + windowMs\<rparr>))
      | Some userAttempts \<Rightarrow>
          if now > resetTime userAttempts
          then (Allowed, attempts(key \<mapsto> \<lparr>count = 1, resetTime = now + windowMs\<rparr>))
          else if count userAttempts \<ge> maxAttempts
          then (TooManyRequests (remainingTime (resetTime userAttempts) now), attempts)
          else (Allowed, attempts(key \<mapsto> userAttempts\<lparr>count := count userAttempts + 1\<rparr>)))"

text \<open>
  The body in \<^verbatim>\<open>middlewares/authMiddleware.ts\<close>: the key is the address, the answer to a
  request over the limit is 429 with a fixed message, and there is no sweep.
\<close>

definition rateLimitAuth_byAddress ::
  "nat \<Rightarrow> int \<Rightarrow> (string \<rightharpoonup> attempt) \<Rightarrow> auth_request \<Rightarrow> int
     \<Rightarrow> http_result \<times> (string \<rightharpoonup> attempt)" where
  "rateLimitAuth_byAddress maxAttempts windowMs attempts req now =
     (let ip = request_ip req in
      case attempts ip of
        None \<Rightarrow> (Next, attempts(ip \<mapsto> \<lparr>count = 1, resetTime = now + windowMs\<rparr>))
      | Some userAttempts \<Rightarrow>
          if now > resetTime userAttempts
          then (Next, attempts(ip \<mapsto> \<lparr>count = 1, resetTime = now + windowMs\<rparr>))
          else if count userAttempts \<ge> maxAttempts
          then (Respond 429 ''Too many authentication attempts. Please try again later.'',
                attempts)
          else (Next, attempts(ip \<mapsto> userAttempts\<lparr>count := count userAttempts + 1\<rparr>)))"

text \<open>
  A run of that body: the requests in the order they arrive, each with the clock reading
  at that moment. The run returns, for every request, its address, its time and the
  limiter's answer.
\<close>

fun limiter_run_byAddress ::
  "nat \<Rightarrow> int \<Rightarrow> (string \<rightharpoonup> attempt) \<Rightarrow> (auth_request \<times> int) list
     \<Rightarrow> (string \<times> int \<times> http_result) list \<times> (string \<rightharpoonup> attempt)" where
  "limiter_run_byAddress maxAttempts windowMs attempts [] = ([], attempts)"
| "limiter_run_byAddress maxAttempts windowMs attempts ((req, now) # evs) =
     (case rateLimitAuth_byAddress maxAttempts windowMs attempts req now of
        (res, attempts') \<Rightarrow>
          (case limiter_run_byAddress maxAttempts windowMs attempts' evs of
             (out, attempts'') \<Rightarrow> ((request_ip req, now, res) # out, attempts'')))"

text \<open>The periodic sweep of the first body deletes the entries whose window has elapsed.\<close>

definition cleanup :: "int \<Rightarrow> (string \<rightharpoonup> attempt) \<Rightarrow> (string \<rightharpoonup> attempt)" where
  "cleanup now attempts =
     (\<lambda>key. case attempts key of
               None \<Rightarrow> None
             | Some v \<Rightarrow> if now > resetTime v then None else Some v)"

text \<open>
  A run of the limiter: requests and sweeps in the order they happen, each with the clock
  reading at that moment. The run returns, for every request, its key, its time and the
  limiter's answer.
\<close>

datatype limiter_event = Request auth_request int | Sweep int

fun limiter_run ::
  "nat \<Rightarrow> int \<Rightarrow> (string \<rightharpoonup> attempt) \<Rightarrow> limiter_event list
     \<Rightarrow> (string \<times> int \<times> rate_result) list \<times> (string \<rightharpoonup> attempt)" where
  "limiter_run maxAttempts windowMs attempts [] = ([], attempts)"
| "limiter_run maxAttempts windowMs attempts (Request req now # evs) =
     (case rateLimitAuth maxAttempts windowMs attempts req now of
        (res, attempts') \<Rightarrow>
          (case limiter_run maxAttempts windowMs attempts' evs of
             (out, attempts'') \<Rightarrow> ((rate_key req, now, res) # out, attempts'')))"
| "limiter_run maxAttempts windowMs attempts (Sweep now # evs) =
     limiter_run maxAttempts windowMs (cleanup now attempts) evs"


section \<open>The update endpoint: \<^verbatim>\<open>updateRoleSchema\<close> and \<^verbatim>\<open>RoleController.updateRole\<close>\<close>

text \<open>
  A request body is a JSON value. In a JSON object a repeated key keeps its last value.
\<close>

datatype json =
    JNull
  | JBool bool
  | JNum int
  | JStr string
  | JArr "json list"
  | JObj "(string \<times> json) list"

definition field :: "(string \<times> 'v) list \<Rightarrow> string \<Rightarrow> 'v option" where
  "field kvs k = map_of (rev kvs) k"

text \<open>
  The zod validators used by the schema; \<open>None\<close> is a validation error. An
  \<^verbatim>\<open>.optional()\<close> field may be absent, and is validated when present.
\<close>

definition zod_string :: "nat \<Rightarrow> nat \<Rightarrow> json \<Rightarrow> string option" where
  "zod_string lo hi v =
     (case v of JStr s \<Rightarrow> if lo \<le> length s \<and> length s \<le> hi then Some s else None
              | _ \<Rightarrow> None)"

definition zod_nativeEnum :: "string list \<Rightarrow> json \<Rightarrow> string option" where
  "zod_nativeEnum vals v =
     (case v of JStr s \<Rightarrow> if s \<in> set vals then Some s else None | _ \<Rightarrow> None)"

fun zod_all :: "(json \<Rightarrow> 'a option) \<Rightarrow> json list \<Rightarrow> 'a list option" where
  "zod_all p [] = Some []"
| "zod_all p (x # xs) =
     (case p x of
        None \<Rightarrow> None
      | Some y \<Rightarrow> (case zod_all p xs of None \<Rightarrow> None | Some ys \<Rightarrow> Some (y # ys)))"

definition zod_array_min1 :: "(json \<Rightarrow> 'a option) \<Rightarrow> json \<Rightarrow> 'a list option" where
  "zod_array_min1 p v =
     (case v of JArr xs \<Rightarrow> if length xs \<ge> 1 then zod_all p xs else None | _ \<Rightarrow> None)"

definition zod_boolean :: "json \<Rightarrow> bool option" where
  "zod_boolean v = (case v of JBool b \<Rightarrow> Some b | _ \<Rightarrow> None)"

definition zod_optional :: "(json \<Rightarrow> 'a option) \<Rightarrow> json option \<Rightarrow> 'a option option" where
  "zod_optional p v = (case v of None \<Rightarrow> Some None | Some x \<Rightarrow> map_option Some (p x))"

text \<open>
  \<^verbatim>\<open>updateRoleSchema.parse\<close>: the body must be an object; the four declared keys are
  validated; the result holds those four and nothing else.
\<close>

definition updateRoleSchema_parse :: "json \<Rightarrow> UpdateRoleInput option" where
  "updateRoleSchema_parse body =
     (case body of
        JObj kvs \<Rightarrow>
          (case zod_optional (zod_string 2 100) (field kvs ''displayName'') of
             None \<Rightarrow> None
           | Some dn \<Rightarrow>
          (case zod_optional (zod_string 0 500) (field kvs ''description'') of
             None \<Rightarrow> None
           | Some de \<Rightarrow>
          (case zod_optional (zod_array_min1 (zod_nativeEnum PERMISSION_values))
                  (field kvs ''permissions'') of
             None \<Rightarrow> None
           | Some pe \<Rightarrow>
          (case zod_optional zod_boolean (field kvs ''isActive'') of
             None \<Rightarrow> None
           | Some ia \<Rightarrow>
               Some \<lparr> up_displayName = dn, up_description = de,
                      up_permissions = pe, up_isActive = ia \<rparr>))))
      | _ \<Rightarrow> None)"

text \<open>\<^verbatim>\<open>roleIdSchema.parse(req.params)\<close>: the route parameters must hold a non-empty \<^verbatim>\<open>roleId\<close>.\<close>

definition roleIdSchema_parse :: "(string \<times> string) list \<Rightarrow> objectId option" where
  "roleIdSchema_parse params =
     (case field params ''roleId'' of
        None \<Rightarrow> None
      | Some s \<Rightarrow> if length s \<ge> 1 then Some s else None)"

text \<open>
  The controller. A validation error and a service error both end in the \<^verbatim>\<open>catch\<close>
  block, which answers with an error status and writes nothing; for a service error the
  status is the one \<open>updateRole_status\<close> gives.
\<close>

datatype controller_result =
    ValidationFailed
  | NotAuthenticated
  | ServiceFailed service_error nat
  | Updated "role_doc option"

definition RoleController_updateRole ::
  "role_doc list \<Rightarrow> (string \<times> string) list \<Rightarrow> json \<Rightarrow> auth_user option
     \<Rightarrow> controller_result \<times> role_doc list" where
  "RoleController_updateRole roles params body req_user =
     (case roleIdSchema_parse params of
        None \<Rightarrow> (ValidationFailed, roles)
      | Some roleId \<Rightarrow>
     (case updateRoleSchema_parse body of
        None \<Rightarrow> (ValidationFailed, roles)
      | Some validatedData \<Rightarrow>
     (case req_user of
        None \<Rightarrow> (NotAuthenticated, roles)
      | Some user \<Rightarrow>
          if au_userId user = [] then (NotAuthenticated, roles)
          else
            (case updateRole roles roleId validatedData (au_userId user) of
               Inl e \<Rightarrow> (ServiceFailed e (updateRole_status e), roles)
             | Inr (r, roles') \<Rightarrow> (Updated r, roles')))))"

lemmas role_names = STUDENT_def TEACHER_def ADMIN_def USER_ROLE_values_def

lemmas permission_names =
  CREATE_USER_def READ_USER_def UPDATE_USER_def DELETE_USER_def MANAGE_ROLES_def
  ASSIGN_ROLES_def MANAGE_HOTELS_def VIEW_HOTELS_def MANAGE_BOOKINGS_def
  VIEW_BOOKINGS_def CREATE_BOOKING_def MANAGE_ROOMS_def VIEW_ROOMS_def
  MANAGE_PAYMENTS_def VIEW_PAYMENTS_def VIEW_REPORTS_def EXPORT_DATA_def
  MANAGE_SETTINGS_def VIEW_LOGS_def

text \<open>The cast \<open>cast24\<close> on the ids of the runs below.\<close>

lemma cast24_nobody:
  "cast24 ''nobody'' =
     Inl (''Cast to ObjectId failed for value '' @ quoted ''nobody''
            @ '' (type string) at path '' @ quoted ''_id'' @ '' for model '' @ quoted ''User'')"
  by (simp add: cast24_def)

lemma cast24_d1: "cast24 ''64b7f0c2a1d3e4f5a6b7c8d1'' = Inr ''64b7f0c2a1d3e4f5a6b7c8d1''"
  by code_simp

lemma cast24_d2: "cast24 ''64b7f0c2a1d3e4f5a6b7c8d2'' = Inr ''64b7f0c2a1d3e4f5a6b7c8d2''"
  by code_simp

lemma cast24_d3: "cast24 ''64b7f0c2a1d3e4f5a6b7c8d3'' = Inr ''64b7f0c2a1d3e4f5a6b7c8d3''"
  by code_simp

lemma cast24_d9: "cast24 ''64b7f0c2a1d3e4f5a6b7c8d9'' = Inr ''64b7f0c2a1d3e4f5a6b7c8d9''"
  by code_simp

text \<open>Names that the setters of the role schema leave as they are, and some they change.\<close>

lemma name_setter_admin: "name_setter ''admin'' = ''admin''"
  by code_simp

lemma name_setter_teacher: "name_setter ''teacher'' = ''teacher''"
  by code_simp

lemma name_setter_student: "name_setter ''student'' = ''student''"
  by code_simp

lemma name_setter_moderator: "name_setter ''moderator'' = ''moderator''"
  by code_simp

lemma name_setter_padded_Moderator: "name_setter '' Moderator '' = ''moderator''"
  by code_simp


section \<open>Properties of permission resolution\<close>


lemma find_None_iff_no_match: "find P xs = None \<longleftrightarrow> (\<forall>x\<in>set xs. \<not> P x)"
  by (induction xs) auto

lemma find_Some_first:
  "find P xs = Some x \<Longrightarrow> \<exists>ys zs. xs = ys @ x # zs \<and> P x \<and> (\<forall>y\<in>set ys. \<not> P y)"
proof (induction xs)
  case Nil
  then show ?case by simp
next
  case (Cons a xs)
  show ?case
  proof (cases "P a")
    case True
    with Cons.prems have "x = a" by simp
    with True have "a # xs = [] @ x # xs \<and> P x \<and> (\<forall>y\<in>set []. \<not> P y)" by simp
    then show ?thesis by blast
  next
    case False
    with Cons.prems have "find P xs = Some x" by simp
    from Cons.IH[OF this] obtain ys zs
      where "xs = ys @ x # zs" "P x" "\<forall>y\<in>set ys. \<not> P y" by blast
    with False have "a # xs = (a # ys) @ x # zs \<and> P x \<and> (\<forall>y\<in>set (a # ys). \<not> P y)"
      by simp
    then show ?thesis by blast
  qed
qed

text \<open>
  Claim C2. For every role name, \<open>getRolePermissions\<close> returns the permissions array of
  the matching active role record when one exists; otherwise the static table entry when
  the name is one of admin, teacher and student; otherwise the empty list. A record
  matches when its stored name is the given name as the setters of the schema leave it,
  trimmed and in lower case, and of several matching records \<^verbatim>\<open>findOne\<close> yields the first
  in the collection. The test for a system role takes the name as given. The static
  entries are spelled out token by token.
\<close>

theorem getRolePermissions_resolution:
  "((\<exists>r\<in>set roles. name r = name_setter n \<and> isActive r) \<longrightarrow>
      (\<exists>before r after. roles = before @ r # after \<and> name r = name_setter n \<and> isActive r \<and>
         (\<forall>q\<in>set before. \<not> (name q = name_setter n \<and> isActive q)) \<and>
         getRolePermissions roles n = permissions r))
   \<and> (\<not> (\<exists>r\<in>set roles. name r = name_setter n \<and> isActive r) \<longrightarrow>
        (n = ''admin'' \<longrightarrow> getRolePermissions roles n =
           [''create_user'', ''read_user'', ''update_user'', ''delete_user'',
            ''manage_roles'', ''assign_roles'', ''manage_hotels'', ''view_hotels'',
            ''manage_bookings'', ''view_bookings'', ''create_booking'',
            ''manage_rooms'', ''view_rooms'', ''manage_payments'', ''view_payments'',
            ''view_reports'', ''export_data'', ''manage_settings'', ''view_logs''])
      \<and> (n = ''teacher'' \<longrightarrow> getRolePermissions roles n =
           [''read_user'', ''view_hotels'', ''manage_bookings'', ''view_bookings'',
            ''create_booking'', ''manage_rooms'', ''view_rooms'', ''view_payments'',
            ''view_reports''])
      \<and> (n = ''student'' \<longrightarrow> getRolePermissions roles n =
           [''view_hotels'', ''view_bookings'', ''create_booking'', ''view_rooms'',
            ''view_payments''])
      \<and> (n \<notin> {''admin'', ''teacher'', ''student''} \<longrightarrow> getRolePermissions roles n = []))"
proof (intro conjI impI)
  assume "\<exists>r\<in>set roles. name r = name_setter n \<and> isActive r"
  then obtain r where r: "Role_findOne_active roles n = Some r"
    unfolding Role_findOne_active_def
    by (cases "find (\<lambda>r. name r = name_setter n \<and> isActive r) roles")
       (auto simp: find_None_iff_no_match)
  from find_Some_first[OF r[unfolded Role_findOne_active_def]]
  obtain before after where
    "roles = before @ r # after" "name r = name_setter n \<and> isActive r"
    "\<forall>q\<in>set before. \<not> (name q = name_setter n \<and> isActive q)" by blast
  moreover have "getRolePermissions roles n = permissions r"
    by (simp add: getRolePermissions_def r)
  ultimately show "\<exists>before r after. roles = before @ r # after \<and> name r = name_setter n \<and> isActive r \<and>
         (\<forall>q\<in>set before. \<not> (name q = name_setter n \<and> isActive q)) \<and>
         getRolePermissions roles n = permissions r"
    by blast
next
  assume no: "\<not> (\<exists>r\<in>set roles. name r = name_setter n \<and> isActive r)"
  then have none: "Role_findOne_active roles n = None"
    by (simp add: Role_findOne_active_def find_None_iff_no_match)
  {
    assume "n = ''admin''"
    with none show "getRolePermissions roles n =
           [''create_user'', ''read_user'', ''update_user'', ''delete_user'',
            ''manage_roles'', ''assign_roles'', ''manage_hotels'', ''view_hotels'',
            ''manage_bookings'', ''view_bookings'', ''create_booking'',
            ''manage_rooms'', ''view_rooms'', ''manage_payments'', ''view_payments'',
            ''view_reports'', ''export_data'', ''manage_settings'', ''view_logs'']"
      by (simp add: getRolePermissions_def ROLE_PERMISSIONS_def orEmpty_def
          role_names permission_names)
  }
  {
    assume "n = ''teacher''"
    with none show "getRolePermissions roles n =
           [''read_user'', ''view_hotels'', ''manage_bookings'', ''view_bookings'',
            ''create_booking'', ''manage_rooms'', ''view_rooms'', ''view_payments'',
            ''view_reports'']"
      by (simp add: getRolePermissions_def ROLE_PERMISSIONS_def orEmpty_def
          role_names permission_names)
  }
  {
    assume "n = ''student''"
    with none show "getRolePermissions roles n =
           [''view_hotels'', ''view_bookings'', ''create_booking'', ''view_rooms'',
            ''view_payments'']"
      by (simp add: getRolePermissions_def ROLE_PERMISSIONS_def orEmpty_def
          role_names permission_names)
  }
  {
    assume "n \<notin> {''admin'', ''teacher'', ''student''}"
    then show "getRolePermissions roles n = []"
      by (simp add: getRolePermissions_def none role_names)
  }
qed


theorem getRolePermissions_resolution_witness:
  "getRolePermissions
     [\<lparr>role_id = ''64b7f0c2a1d3e4f5a6b7c8e1'', name = ''admin'', displayName = ''Administrator'',
       description = None, permissions = [''view_hotels'', ''view_logs''],
       isSystem = True, isActive = True, createdBy = None, updatedBy = None\<rparr>]
     '' ADMIN '' = [''view_hotels'', ''view_logs'']
   \<and> getRolePermissions [] ''student'' =
       [''view_hotels'', ''view_bookings'', ''create_booking'', ''view_rooms'',
        ''view_payments'']
   \<and> getRolePermissions [] ''STUDENT'' = []
   \<and> getRolePermissions [] ''ghost'' = []"
proof (intro conjI)
  let ?m = "\<lparr>role_id = ''64b7f0c2a1d3e4f5a6b7c8e1'', name = ''admin'',
       displayName = ''Administrator'',
       description = None, permissions = [''view_hotels'', ''view_logs''],
       isSystem = True, isActive = True, createdBy = None, updatedBy = None\<rparr>"
  have ns: "name_setter '' ADMIN '' = ''admin''" by code_simp
  have ex: "\<exists>r\<in>set [?m]. name r = name_setter '' ADMIN '' \<and> isActive r"
    by (simp add: ns)
  from getRolePermissions_resolution[of "[?m]" "'' ADMIN ''", THEN conjunct1, THEN mp, OF ex]
  obtain before r after where
    split: "[?m] = before @ r # after" and
    perms: "getRolePermissions [?m] '' ADMIN '' = permissions r"
    by (elim exE conjE)
  from split have "r = ?m" by (cases before) simp_all
  with perms show "getRolePermissions [?m] '' ADMIN '' = [''view_hotels'', ''view_logs'']"
    by simp
next
  have no: "\<not> (\<exists>r\<in>set ([]::role_doc list). name r = name_setter ''student'' \<and> isActive r)"
    by simp
  from getRolePermissions_resolution[of "[]" "''student''", THEN conjunct2, THEN mp, OF no]
  have "''student'' = ''student'' \<longrightarrow> getRolePermissions [] ''student'' =
       [''view_hotels'', ''view_bookings'', ''create_booking'', ''view_rooms'',
        ''view_payments'']"
    by (elim conjE)
  then show "getRolePermissions [] ''student'' =
       [''view_hotels'', ''view_bookings'', ''create_booking'', ''view_rooms'',
        ''view_payments'']"
    by simp
next
  have no: "\<not> (\<exists>r\<in>set ([]::role_doc list). name r = name_setter ''STUDENT'' \<and> isActive r)"
    by simp
  from getRolePermissions_resolution[of "[]" "''STUDENT''", THEN conjunct2, THEN mp, OF no]
  have "''STUDENT'' \<notin> {''admin'', ''teacher'', ''student''}
          \<longrightarrow> getRolePermissions [] ''STUDENT'' = []"
    by (elim conjE)
  then show "getRolePermissions [] ''STUDENT'' = []"
    by simp
next
  have no: "\<not> (\<exists>r\<in>set ([]::role_doc list). name r = name_setter ''ghost'' \<and> isActive r)"
    by simp
  from getRolePermissions_resolution[of "[]" "''ghost''", THEN conjunct2, THEN mp, OF no]
  have "''ghost'' \<notin> {''admin'', ''teacher'', ''student''} \<longrightarrow> getRolePermissions [] ''ghost'' = []"
    by (elim conjE)
  then show "getRolePermissions [] ''ghost'' = []"
    by simp
qed

text \<open>
  Claim C7, as the code has it. \<open>hasPermission\<close> looks the identity up with
  \<^verbatim>\<open>User.findById\<close> and nothing in it validates the id or catches an error. On a store
  that answers, for an id that it can read as an ObjectId the call returns a boolean, and
  the boolean is \<open>False\<close> when no identity has the id, and when the identity's stored
  role name has no active role record and is not one of admin, teacher and student. For
  an id that the store cannot read as an ObjectId the call raises the cast error of the
  store; it does not return \<open>False\<close>.
\<close>

theorem hasPermission_false_when_unresolved:
  "(\<forall>msg. castObjectId userId = Inl msg \<longrightarrow>
        hasPermission castObjectId roles users userId p = Inl (CastError msg))
   \<and> (\<forall>i. castObjectId userId = Inr i \<longrightarrow>
          (\<exists>b. hasPermission castObjectId roles users userId p = Inr b)
        \<and> ((\<forall>u\<in>set users. user_id u \<noteq> i) \<longrightarrow>
             hasPermission castObjectId roles users userId p = Inr False)
        \<and> (\<forall>u. find (\<lambda>u. user_id u = i) users = Some u
               \<and> (\<forall>r\<in>set roles. \<not> (name r = name_setter (role u) \<and> isActive r))
               \<and> role u \<notin> {''admin'', ''teacher'', ''student''}
             \<longrightarrow> hasPermission castObjectId roles users userId p = Inr False))"
proof (intro conjI allI impI)
  fix msg
  assume "castObjectId userId = Inl msg"
  then show "hasPermission castObjectId roles users userId p = Inl (CastError msg)"
    by (simp add: hasPermission_def User_findById_def)
next
  fix i
  assume "castObjectId userId = Inr i"
  then show "\<exists>b. hasPermission castObjectId roles users userId p = Inr b"
    by (cases "find (\<lambda>u. user_id u = i) users")
       (auto simp: hasPermission_def User_findById_def)
next
  fix i
  assume c: "castObjectId userId = Inr i" and "\<forall>u\<in>set users. user_id u \<noteq> i"
  then have "find (\<lambda>u. user_id u = i) users = None"
    by (simp add: find_None_iff_no_match)
  with c show "hasPermission castObjectId roles users userId p = Inr False"
    by (simp add: hasPermission_def User_findById_def)
next
  fix i u
  assume c: "castObjectId userId = Inr i"
    and a: "find (\<lambda>u. user_id u = i) users = Some u
               \<and> (\<forall>r\<in>set roles. \<not> (name r = name_setter (role u) \<and> isActive r))
               \<and> role u \<notin> {''admin'', ''teacher'', ''student''}"
  then have "Role_findOne_active roles (role u) = None"
    by (simp add: Role_findOne_active_def find_None_iff_no_match)
  moreover from a have "role u \<notin> set USER_ROLE_values"
    by (simp add: role_names)
  ultimately have "getRolePermissions roles (role u) = []"
    by (simp add: getRolePermissions_def)
  with a c show "hasPermission castObjectId roles users userId p = Inr False"
    by (simp add: hasPermission_def User_findById_def)
qed

text \<open>
  A run of the theorem on the cast \<open>cast24\<close>: an id that no identity has, an identity
  whose role name resolves to nothing, and an id that is no ObjectId.
\<close>

theorem hasPermission_false_when_unresolved_witness:
  "hasPermission cast24 [] [] ''64b7f0c2a1d3e4f5a6b7c8d9'' ''view_hotels'' = Inr False
   \<and> hasPermission cast24 []
        [\<lparr>user_id = ''64b7f0c2a1d3e4f5a6b7c8d1'', email = ''a@b.c'', role = ''ghost'',
          password = None\<rparr>]
        ''64b7f0c2a1d3e4f5a6b7c8d1'' ''view_hotels'' = Inr False
   \<and> (\<exists>msg. hasPermission cast24 [] [] ''nobody'' ''view_hotels'' = Inl (CastError msg))"
proof (intro conjI)
  note t1 = hasPermission_false_when_unresolved[of cast24 "''64b7f0c2a1d3e4f5a6b7c8d9''"
      "[]" "[]" "''view_hotels''", THEN conjunct2, THEN spec, THEN mp, OF cast24_d9]
  have "\<forall>u\<in>set ([]::user_doc list). user_id u \<noteq> ''64b7f0c2a1d3e4f5a6b7c8d9''" by simp
  with t1 show "hasPermission cast24 [] [] ''64b7f0c2a1d3e4f5a6b7c8d9'' ''view_hotels'' = Inr False"
    by (elim conjE) (erule mp)
next
  let ?u = "\<lparr>user_id = ''64b7f0c2a1d3e4f5a6b7c8d1'', email = ''a@b.c'', role = ''ghost'',
          password = None\<rparr>"
  note t2 = hasPermission_false_when_unresolved[of cast24 "''64b7f0c2a1d3e4f5a6b7c8d1''"
      "[]" "[?u]" "''view_hotels''", THEN conjunct2, THEN spec, THEN mp, OF cast24_d1]
  have some: "find (\<lambda>u. user_id u = ''64b7f0c2a1d3e4f5a6b7c8d1'') [?u] = Some ?u
          \<and> (\<forall>r\<in>set ([]::role_doc list). \<not> (name r = name_setter (role ?u) \<and> isActive r))
          \<and> role ?u \<notin> {''admin'', ''teacher'', ''student''}"
    by simp
  from t2 have "\<forall>u. find (\<lambda>u. user_id u = ''64b7f0c2a1d3e4f5a6b7c8d1'') [?u] = Some u
               \<and> (\<forall>r\<in>set ([]::role_doc list). \<not> (name r = name_setter (role u) \<and> isActive r))
               \<and> role u \<notin> {''admin'', ''teacher'', ''student''}
             \<longrightarrow> hasPermission cast24 [] [?u] ''64b7f0c2a1d3e4f5a6b7c8d1'' ''view_hotels''
                   = Inr False"
    by (elim conjE)
  from this[THEN spec, THEN mp, OF some]
  show "hasPermission cast24 [] [?u] ''64b7f0c2a1d3e4f5a6b7c8d1'' ''view_hotels'' = Inr False" .
next
  from hasPermission_false_when_unresolved[of cast24 "''nobody''" "[]" "[]" "''view_hotels''",
      THEN conjunct1, THEN spec, THEN mp, OF cast24_nobody]
  show "\<exists>msg. hasPermission cast24 [] [] ''nobody'' ''view_hotels'' = Inl (CastError msg)"
    by (rule exI)
qed

text \<open>
  Claim C7 as stated, refuted: for the id \<^verbatim>\<open>nobody\<close>, which the validation schemas of the
  role routes admit and which is no ObjectId, \<open>hasPermission\<close> raises.
\<close>

theorem hasPermission_raises_for_malformed_id:
  "hasPermission cast24 [] [] ''nobody'' ''view_hotels'' =
     Inl (CastError (''Cast to ObjectId failed for value '' @ quoted ''nobody''
            @ '' (type string) at path '' @ quoted ''_id'' @ '' for model '' @ quoted ''User''))"
  by (simp add: hasPermission_def User_findById_def cast24_def)


section \<open>Role assignment\<close>

text \<open>
  The decision of \<open>canAssignRole\<close> for each kind of assigner. The first test of the
  function is on the \<^emph>\<open>assigner's\<close> role: an assigner holding admin, teacher or student
  is answered from the hierarchy table and its own name, whatever the target is, and the
  final comparison with admin is reached only by an assigner whose role is none of the
  three, for whom it is false.
\<close>

lemma canAssignRole_admin:
  "canAssignRole ''admin'' t \<longleftrightarrow> t = ''teacher'' \<or> t = ''student'' \<or> t = ''admin''"
  by (auto simp: canAssignRole_def ROLE_HIERARCHY_def orEmpty_def role_names)

lemma canAssignRole_teacher:
  "canAssignRole ''teacher'' t \<longleftrightarrow> t = ''student'' \<or> t = ''teacher''"
  by (auto simp: canAssignRole_def ROLE_HIERARCHY_def orEmpty_def role_names)

lemma canAssignRole_student:
  "canAssignRole ''student'' t \<longleftrightarrow> t = ''student''"
  by (auto simp: canAssignRole_def ROLE_HIERARCHY_def orEmpty_def role_names)

lemma canAssignRole_custom_assigner:
  "u \<noteq> ''admin'' \<Longrightarrow> u \<noteq> ''teacher'' \<Longrightarrow> u \<noteq> ''student'' \<Longrightarrow> \<not> canAssignRole u t"
  by (simp add: canAssignRole_def role_names)

text \<open>
  Claim C1 (the code departs from it). The claim has an admin assigner allowed to
  assign every active custom role. Evaluated on a store with an active custom role
  \<open>moderator\<close>, an admin (id ending in \<open>d1\<close>) and a student (id ending in \<open>d2\<close>):
  \<open>canAssignRole\<close> answers false for the admin, \<open>assignRoleToUser\<close> fails with the
  message the controller maps to 403, and the same admin is allowed to assign the three
  system roles.
\<close>

theorem assignRoleToUser_admin_custom_role_refused:
  "canAssignRole ''admin'' ''moderator'' = False
   \<and> assignRoleToUser cast24
        [\<lparr>role_id = ''64b7f0c2a1d3e4f5a6b7c8e1'', name = ''moderator'',
          displayName = ''Moderator'',
          description = None, permissions = [''view_hotels'', ''view_bookings''],
          isSystem = False, isActive = True, createdBy = Some ''64b7f0c2a1d3e4f5a6b7c8d1'',
          updatedBy = None\<rparr>]
        [\<lparr>user_id = ''64b7f0c2a1d3e4f5a6b7c8d1'', email = ''admin@example.com'',
          role = ''admin'', password = None\<rparr>,
         \<lparr>user_id = ''64b7f0c2a1d3e4f5a6b7c8d2'', email = ''u1@example.com'',
          role = ''student'', password = None\<rparr>]
        ''64b7f0c2a1d3e4f5a6b7c8d2'' ''moderator'' ''64b7f0c2a1d3e4f5a6b7c8d1''
       = Inl NoPermissionToAssign
   \<and> assignRole_status NoPermissionToAssign = 403
   \<and> canAssignRole ''admin'' ''teacher'' = True
   \<and> canAssignRole ''admin'' ''student'' = True
   \<and> canAssignRole ''admin'' ''admin'' = True"
  by (simp add: canAssignRole_admin assignRoleToUser_def User_findById_def
      Role_findOne_active_def cast24_d1 cast24_d2 name_setter_moderator)


section \<open>Seeding the system roles\<close>

lemma system_role_names_distinct:
  "ADMIN \<noteq> TEACHER" "ADMIN \<noteq> STUDENT" "TEACHER \<noteq> STUDENT"
  "TEACHER \<noteq> ADMIN" "STUDENT \<noteq> ADMIN" "STUDENT \<noteq> TEACHER"
  by (simp_all add: role_names)

lemma name_new_role_doc [simp]: "name (new_role_doc i d) = name_setter (d_name d)"
  by (simp add: new_role_doc_def)

lemma Role_findOne_name_None:
  "Role_findOne_name roles n = None \<longleftrightarrow> (\<forall>r\<in>set roles. name r \<noteq> name_setter n)"
  by (simp add: Role_findOne_name_def find_None_iff_no_match)

lemma initializeSystemRole_cases:
  "initializeSystemRole newId d roles =
     (if \<exists>r\<in>set roles. name r = name_setter (d_name d) then roles
      else roles @ [new_role_doc (newId (d_name d)) d])"
proof (cases "Role_findOne_name roles (d_name d)")
  case None
  then have "\<forall>r\<in>set roles. name r \<noteq> name_setter (d_name d)"
    by (simp add: Role_findOne_name_None)
  with None show ?thesis
    by (simp add: initializeSystemRole_def Role_create_def)
next
  case (Some a)
  then have "\<not> (\<forall>r\<in>set roles. name r \<noteq> name_setter (d_name d))"
    by (simp flip: Role_findOne_name_None)
  with Some show ?thesis
    by (simp add: initializeSystemRole_def)
qed

text \<open>
  The loop over any list of role data: it only appends, and what it appends are the new
  documents of data whose name was absent from the store it started from.
\<close>

lemma seed_loop_appends:
  "\<exists>added. fold (initializeSystemRole newId) ds roles = roles @ added
     \<and> (\<forall>r\<in>set added. \<exists>d\<in>set ds. r = new_role_doc (newId (d_name d)) d
            \<and> (\<forall>q\<in>set roles. name q \<noteq> name_setter (d_name d)))"
proof (induction ds arbitrary: roles)
  case Nil
  then show ?case by simp
next
  case (Cons d ds)
  let ?roles1 = "initializeSystemRole newId d roles"
  from Cons.IH[of ?roles1] obtain added where
    a: "fold (initializeSystemRole newId) ds ?roles1 = ?roles1 @ added" and
    b: "\<forall>r\<in>set added. \<exists>d'\<in>set ds. r = new_role_doc (newId (d_name d')) d'
            \<and> (\<forall>q\<in>set ?roles1. name q \<noteq> name_setter (d_name d'))"
    by blast
  show ?case
  proof (cases "\<exists>r\<in>set roles. name r = name_setter (d_name d)")
    case True
    then have "?roles1 = roles" by (simp add: initializeSystemRole_cases)
    with a b have "fold (initializeSystemRole newId) (d # ds) roles = roles @ added
      \<and> (\<forall>r\<in>set added. \<exists>d'\<in>set (d # ds). r = new_role_doc (newId (d_name d')) d'
            \<and> (\<forall>q\<in>set roles. name q \<noteq> name_setter (d_name d')))"
      by simp
    then show ?thesis by blast
  next
    case False
    then have r1: "?roles1 = roles @ [new_role_doc (newId (d_name d)) d]"
      by (simp add: initializeSystemRole_cases)
    from b r1 have b': "\<forall>r\<in>set added. \<exists>d'\<in>set ds. r = new_role_doc (newId (d_name d')) d'
            \<and> (\<forall>q\<in>set roles. name q \<noteq> name_setter (d_name d'))"
      by fastforce
    from a r1 have
      "fold (initializeSystemRole newId) (d # ds) roles
         = roles @ (new_role_doc (newId (d_name d)) d # added)"
      by simp
    moreover from False b' have
      "\<forall>r\<in>set (new_role_doc (newId (d_name d)) d # added).
          \<exists>d'\<in>set (d # ds). r = new_role_doc (newId (d_name d')) d'
            \<and> (\<forall>q\<in>set roles. name q \<noteq> name_setter (d_name d'))"
      by auto
    ultimately show ?thesis by blast
  qed
qed

lemma seed_loop_keeps_names:
  "\<exists>r\<in>set roles. name r = n \<Longrightarrow>
   \<exists>r\<in>set (fold (initializeSystemRole newId) ds roles). name r = n"
proof -
  assume "\<exists>r\<in>set roles. name r = n"
  moreover from seed_loop_appends[of newId ds roles] obtain added where
    "fold (initializeSystemRole newId) ds roles = roles @ added" by blast
  ultimately show ?thesis by auto
qed

lemma seed_loop_covers:
  "d \<in> set ds \<Longrightarrow> \<exists>r\<in>set (fold (initializeSystemRole newId) ds roles). name r = name_setter (d_name d)"
proof (induction ds arbitrary: roles)
  case Nil
  then show ?case by simp
next
  case (Cons a ds)
  show ?case
  proof (cases "d = a")
    case True
    have "\<exists>r\<in>set (initializeSystemRole newId a roles). name r = name_setter (d_name a)"
      by (auto simp: initializeSystemRole_cases)
    from seed_loop_keeps_names[OF this] True show ?thesis by simp
  next
    case False
    with Cons.prems have "d \<in> set ds" by simp
    from Cons.IH[OF this] show ?thesis by simp
  qed
qed

lemma seed_loop_fixpoint:
  "\<forall>d\<in>set ds. \<exists>r\<in>set roles. name r = name_setter (d_name d) \<Longrightarrow>
   fold (initializeSystemRole newId) ds roles = roles"
  by (induction ds) (simp_all add: initializeSystemRole_cases)

lemma name_setter_system_roles:
  "name_setter ADMIN = ADMIN" "name_setter TEACHER = TEACHER" "name_setter STUDENT = STUDENT"
  by (simp_all add: role_names name_setter_admin name_setter_teacher name_setter_student)

lemma systemRoles_names:
  "map (\<lambda>d. name_setter (d_name d)) systemRoles = [ADMIN, TEACHER, STUDENT]"
  by (simp add: systemRoles_def name_setter_system_roles)

lemma initializeSystemRoles_fixpoint:
  assumes "\<exists>r\<in>set roles. name r = ADMIN" "\<exists>r\<in>set roles. name r = TEACHER"
    "\<exists>r\<in>set roles. name r = STUDENT"
  shows "initializeSystemRoles newId roles = roles"
proof -
  have "set (map (\<lambda>d. name_setter (d_name d)) systemRoles) = {ADMIN, TEACHER, STUDENT}"
    by (simp add: systemRoles_names)
  then have "\<forall>d\<in>set systemRoles. name_setter (d_name d) \<in> {ADMIN, TEACHER, STUDENT}"
    by auto
  with assms have "\<forall>d\<in>set systemRoles. \<exists>r\<in>set roles. name r = name_setter (d_name d)"
    by (metis insertE singletonD)
  then show ?thesis
    unfolding initializeSystemRoles_def by (rule seed_loop_fixpoint)
qed

lemma initializeSystemRoles_covers:
  "n \<in> {ADMIN, TEACHER, STUDENT} \<Longrightarrow>
   \<exists>r\<in>set (initializeSystemRoles newId roles). name r = n"
proof -
  assume "n \<in> {ADMIN, TEACHER, STUDENT}"
  then have "n \<in> set (map (\<lambda>d. name_setter (d_name d)) systemRoles)"
    by (simp add: systemRoles_names)
  then obtain d where "d \<in> set systemRoles" "name_setter (d_name d) = n" by auto
  with seed_loop_covers[of d systemRoles newId roles] show ?thesis
    by (simp add: initializeSystemRoles_def)
qed

lemma initializeSystemRoles_fresh:
  assumes "\<forall>r\<in>set roles. name r \<notin> {ADMIN, TEACHER, STUDENT}"
  shows "initializeSystemRoles newId roles =
           roles @ map (\<lambda>d. new_role_doc (newId (d_name d)) d) systemRoles"
  using assms
  by (auto simp: initializeSystemRoles_def systemRoles_def initializeSystemRole_cases
      system_role_names_distinct name_setter_system_roles)


lemma systemRoles_docs:
  "d \<in> set systemRoles \<Longrightarrow>
     d_name d \<in> {ADMIN, TEACHER, STUDENT}
     \<and> name_setter (d_name d) = d_name d
     \<and> isSystem (new_role_doc i d)
     \<and> permissions (new_role_doc i d) = the (ROLE_PERMISSIONS (d_name d))"
  by (auto simp: systemRoles_def new_role_doc_def name_setter_system_roles)

lemma filter_isSystem_none: "\<forall>r\<in>set roles. \<not> isSystem r \<Longrightarrow> filter isSystem roles = []"
  by (induction roles) auto

text \<open>
  Claim C4. \<open>initializeSystemRoles\<close> is idempotent, whatever ids the driver hands out
  in either run. A run only appends records; each appended record bears one of the three
  system names, a name that no record of the store bore before the run, is flagged
  \<open>isSystem\<close> and carries the static permission bundle of its name; and each of the three
  names borne by no record is given one. On a store that holds no system-role record and
  no record with one of the three names, two runs leave exactly three system-role
  records: admin, teacher, student. A second run after any edit that keeps the names of
  the records (such as a hand edit of a record's permissions) changes nothing.
\<close>

theorem initializeSystemRoles_idempotent:
  "initializeSystemRoles newId2 (initializeSystemRoles newId1 roles)
     = initializeSystemRoles newId1 roles
   \<and> (\<exists>added. initializeSystemRoles newId1 roles = roles @ added
        \<and> (\<forall>r\<in>set added.
              name r \<in> {''admin'', ''teacher'', ''student''}
              \<and> (\<forall>q\<in>set roles. name q \<noteq> name r)
              \<and> isSystem r
              \<and> permissions r = the (ROLE_PERMISSIONS (name r))))
   \<and> (\<forall>n\<in>{''admin'', ''teacher'', ''student''}.
        (\<forall>q\<in>set roles. name q \<noteq> n) \<longrightarrow>
        (\<exists>r\<in>set (initializeSystemRoles newId1 roles).
            name r = n \<and> isSystem r \<and> permissions r = the (ROLE_PERMISSIONS n)))
   \<and> ((\<forall>r\<in>set roles. \<not> isSystem r \<and> name r \<notin> {''admin'', ''teacher'', ''student''}) \<longrightarrow>
        map name (filter isSystem
          (initializeSystemRoles newId2 (initializeSystemRoles newId1 roles)))
        = [''admin'', ''teacher'', ''student''])
   \<and> (\<forall>edit. (\<forall>r. name (edit r) = name r) \<longrightarrow>
        initializeSystemRoles newId2 (map edit (initializeSystemRoles newId1 roles))
        = map edit (initializeSystemRoles newId1 roles))"
proof -
  let ?once = "initializeSystemRoles newId1 roles"
  have names: "{''admin'', ''teacher'', ''student''} = {ADMIN, TEACHER, STUDENT}"
    by (simp add: role_names)
  have present: "\<exists>r\<in>set ?once. name r = n" if "n \<in> {ADMIN, TEACHER, STUDENT}" for n
    using that by (rule initializeSystemRoles_covers)
  have idem: "initializeSystemRoles newId2 ?once = ?once"
    by (rule initializeSystemRoles_fixpoint) (simp_all add: present)
  from seed_loop_appends[of newId1 systemRoles roles] obtain added where
    app: "?once = roles @ added" and
    new: "\<forall>r\<in>set added. \<exists>d\<in>set systemRoles. r = new_role_doc (newId1 (d_name d)) d
            \<and> (\<forall>q\<in>set roles. name q \<noteq> name_setter (d_name d))"
    unfolding initializeSystemRoles_def by blast
  have added_ok: "name r \<in> {ADMIN, TEACHER, STUDENT}
              \<and> (\<forall>q\<in>set roles. name q \<noteq> name r)
              \<and> isSystem r
              \<and> permissions r = the (ROLE_PERMISSIONS (name r))" if "r \<in> set added" for r
  proof -
    from new that obtain d where d: "d \<in> set systemRoles"
      "r = new_role_doc (newId1 (d_name d)) d"
      "\<forall>q\<in>set roles. name q \<noteq> name_setter (d_name d)"
      by blast
    from systemRoles_docs[OF d(1), of "newId1 (d_name d)"] d(2,3)
    show ?thesis by simp
  qed
  have appends: "\<exists>added. ?once = roles @ added
        \<and> (\<forall>r\<in>set added.
              name r \<in> {''admin'', ''teacher'', ''student''}
              \<and> (\<forall>q\<in>set roles. name q \<noteq> name r)
              \<and> isSystem r
              \<and> permissions r = the (ROLE_PERMISSIONS (name r)))"
    unfolding names using app added_ok by blast
  have created: "\<exists>r\<in>set ?once. name r = n \<and> isSystem r
          \<and> permissions r = the (ROLE_PERMISSIONS n)"
    if n: "n \<in> {ADMIN, TEACHER, STUDENT}" and absent: "\<forall>q\<in>set roles. name q \<noteq> n" for n
  proof -
    from present[OF n] obtain r where r: "r \<in> set ?once" "name r = n" by blast
    with absent app have "r \<in> set added" by auto
    from added_ok[OF this] r show ?thesis by blast
  qed
  have three: "map name (filter isSystem (initializeSystemRoles newId2 ?once))
        = [''admin'', ''teacher'', ''student'']"
    if fresh: "\<forall>r\<in>set roles. \<not> isSystem r \<and> name r \<notin> {''admin'', ''teacher'', ''student''}"
  proof -
    from fresh have "\<forall>r\<in>set roles. name r \<notin> {ADMIN, TEACHER, STUDENT}"
      unfolding names by blast
    then have once: "?once = roles @ map (\<lambda>d. new_role_doc (newId1 (d_name d)) d) systemRoles"
      by (rule initializeSystemRoles_fresh)
    from fresh have none: "filter isSystem roles = []"
      by (simp add: filter_isSystem_none)
    have "map name (filter isSystem ?once) = [ADMIN, TEACHER, STUDENT]"
      unfolding once
      by (simp add: none systemRoles_def new_role_doc_def name_setter_system_roles)
    then show ?thesis by (simp add: idem role_names)
  qed
  have edited: "initializeSystemRoles newId2 (map edit ?once) = map edit ?once"
    if keep: "\<forall>r. name (edit r) = name r" for edit
  proof (rule initializeSystemRoles_fixpoint)
    show "\<exists>r\<in>set (map edit ?once). name r = ADMIN"
      using present[of ADMIN] keep by auto
    show "\<exists>r\<in>set (map edit ?once). name r = TEACHER"
      using present[of TEACHER] keep by auto
    show "\<exists>r\<in>set (map edit ?once). name r = STUDENT"
      using present[of STUDENT] keep by auto
  qed
  from created have created':
    "\<forall>n\<in>{''admin'', ''teacher'', ''student''}.
        (\<forall>q\<in>set roles. name q \<noteq> n) \<longrightarrow>
        (\<exists>r\<in>set ?once. name r = n \<and> isSystem r \<and> permissions r = the (ROLE_PERMISSIONS n))"
    unfolding names by blast
  from idem appends created' three edited show ?thesis
    by (intro conjI allI impI) blast+
qed

theorem initializeSystemRoles_idempotent_witness:
  "map name (filter isSystem
      (initializeSystemRoles (\<lambda>n. ''2'' @ n) (initializeSystemRoles (\<lambda>n. ''1'' @ n) [])))
     = [''admin'', ''teacher'', ''student'']
   \<and> initializeSystemRoles (\<lambda>n. ''2'' @ n)
        (map (\<lambda>r. if name r = ''student'' then r\<lparr>permissions := [''view_hotels'']\<rparr> else r)
           (initializeSystemRoles (\<lambda>n. ''1'' @ n) []))
     = map (\<lambda>r. if name r = ''student'' then r\<lparr>permissions := [''view_hotels'']\<rparr> else r)
           (initializeSystemRoles (\<lambda>n. ''1'' @ n) [])"
proof -
  note T = initializeSystemRoles_idempotent[of "\<lambda>n. ''2'' @ n" "\<lambda>n. ''1'' @ n" "[]"]
  have fresh: "\<forall>r\<in>set ([]::role_doc list).
      \<not> isSystem r \<and> name r \<notin> {''admin'', ''teacher'', ''student''}"
    by simp
  have keep: "\<forall>r. name (if name r = ''student'' then r\<lparr>permissions := [''view_hotels'']\<rparr> else r)
      = name r"
    by simp
  from T fresh have one: "map name (filter isSystem
      (initializeSystemRoles (\<lambda>n. ''2'' @ n) (initializeSystemRoles (\<lambda>n. ''1'' @ n) [])))
     = [''admin'', ''teacher'', ''student'']"
    by (elim conjE) (erule mp)
  from T have "\<forall>edit. (\<forall>r. name (edit r) = name r) \<longrightarrow>
        initializeSystemRoles (\<lambda>n. ''2'' @ n) (map edit (initializeSystemRoles (\<lambda>n. ''1'' @ n) []))
        = map edit (initializeSystemRoles (\<lambda>n. ''1'' @ n) [])"
    by (elim conjE)
  from this[THEN spec, THEN mp, OF keep] one show ?thesis
    by (intro conjI)
qed


section \<open>Updating and deleting roles\<close>

lemma find_append_no_match:
  "\<forall>x\<in>set xs. \<not> P x \<Longrightarrow> find P (xs @ ys) = find P ys"
  by (induction xs) auto

lemma update_first_append_no_match:
  "\<forall>x\<in>set xs. \<not> P x \<Longrightarrow> update_first P f (xs @ ys) = xs @ update_first P f ys"
  by (induction xs) auto

lemma delete_first_append_no_match:
  "\<forall>x\<in>set xs. \<not> P x \<Longrightarrow> delete_first P (xs @ ys) = xs @ delete_first P ys"
  by (induction xs) auto

lemma find_Some_member: "find P xs = Some x \<Longrightarrow> x \<in> set xs \<and> P x"
  by (induction xs) (auto split: if_splits)

lemma find_by_key_distinct:
  "distinct (map f xs) \<Longrightarrow> x \<in> set xs \<Longrightarrow> find (\<lambda>y. f y = f x) xs = Some x"
  by (induction xs) (auto simp: image_iff)

lemma delete_first_by_key_set:
  "distinct (map f xs) \<Longrightarrow> x \<in> set xs \<Longrightarrow>
   set (delete_first (\<lambda>y. f y = f x) xs) = set xs - {x}"
  by (induction xs) (auto simp: image_iff)

lemma delete_first_by_key_gone:
  "distinct (map f xs) \<Longrightarrow> \<forall>y\<in>set (delete_first (\<lambda>y. f y = k) xs). f y \<noteq> k"
  by (induction xs) (auto simp: image_iff)

lemma update_first_keeps_key:
  "\<forall>x. f (g x) = f x \<Longrightarrow> map f (update_first P g xs) = map f xs"
  by (induction xs) auto

text \<open>
  A call of the service that throws has written nothing: in \<open>updateRole\<close>,
  \<open>deleteRole\<close> and \<open>assignRoleToUser\<close> every \<^verbatim>\<open>throw\<close> comes before the one write of
  the function. An \<open>Inl\<close> result therefore leaves the collections as they were passed in.
\<close>

text \<open>
  Claim C5. Let \<open>deleteRole\<close> be called on the id of a role record \<open>r\<close> that is not a
  system role, and let \<open>n\<close> be the number of identities whose stored role name is the
  name of \<open>r\<close>. If \<open>n \<ge> 1\<close> the call fails with the error carrying exactly \<open>n\<close>, which the
  controller answers with 409 Conflict, and nothing is written. With any user collection
  in which no identity holds the name any more, the same call succeeds and removes the
  record: the new collection is the old one without its first record of that id, and
  when ids are unique it is the old one without \<open>r\<close> and no longer has a record of that
  id.
\<close>

theorem deleteRole_blocked_by_assignments:
  assumes "Role_findById roles roleId = Some r" and "\<not> isSystem r"
  shows "(length (filter (\<lambda>u. role u = name r) users) \<ge> 1 \<longrightarrow>
            deleteRole roles users roleId
              = Inl (RoleInUse (length (filter (\<lambda>u. role u = name r) users)))
            \<and> deleteRole_status (RoleInUse (length (filter (\<lambda>u. role u = name r) users))) = 409)
       \<and> (\<forall>users2. (\<forall>u\<in>set users2. role u \<noteq> name r) \<longrightarrow>
            deleteRole roles users2 roleId = Inr (delete_first (\<lambda>q. role_id q = roleId) roles)
            \<and> (distinct (map role_id roles) \<longrightarrow>
                 set (delete_first (\<lambda>q. role_id q = roleId) roles) = set roles - {r}
                 \<and> Role_findById (delete_first (\<lambda>q. role_id q = roleId) roles) roleId = None))"
proof (intro conjI allI impI)
  let ?n = "length (filter (\<lambda>u. role u = name r) users)"
  assume "?n \<ge> 1"
  then have "filter (\<lambda>u. role u = name r) users \<noteq> []" by auto
  with assms show "deleteRole roles users roleId = Inl (RoleInUse ?n)"
    by (simp add: deleteRole_def User_countDocuments_role_def)
  show "deleteRole_status (RoleInUse ?n) = 409" by simp
next
  fix users2 :: "user_doc list"
  assume "\<forall>u\<in>set users2. role u \<noteq> name r"
  then have "filter (\<lambda>u. role u = name r) users2 = []"
    by (induction users2) auto
  with assms show "deleteRole roles users2 roleId
      = Inr (delete_first (\<lambda>q. role_id q = roleId) roles)"
    by (simp add: deleteRole_def User_countDocuments_role_def Role_findByIdAndDelete_def)
next
  fix users2 :: "user_doc list"
  assume d: "distinct (map role_id roles)"
  from assms(1) have r: "r \<in> set roles" "role_id r = roleId"
    using find_Some_member[of "\<lambda>q. role_id q = roleId" roles r]
    by (simp_all add: Role_findById_def)
  from delete_first_by_key_set[OF d r(1)] r(2)
  show "set (delete_first (\<lambda>q. role_id q = roleId) roles) = set roles - {r}"
    by simp
  from delete_first_by_key_gone[OF d, of roleId]
  show "Role_findById (delete_first (\<lambda>q. role_id q = roleId) roles) roleId = None"
    by (simp add: Role_findById_def find_None_iff_no_match)
qed

theorem deleteRole_blocked_by_assignments_witness:
  "deleteRole
     [\<lparr>role_id = ''r1'', name = ''moderator'', displayName = ''Moderator'',
       description = None, permissions = [''view_hotels''],
       isSystem = False, isActive = True, createdBy = Some ''a1'', updatedBy = None\<rparr>]
     [\<lparr>user_id = ''u1'', email = ''u1@example.com'', role = ''moderator'', password = None\<rparr>,
      \<lparr>user_id = ''u2'', email = ''u2@example.com'', role = ''moderator'', password = None\<rparr>,
      \<lparr>user_id = ''u3'', email = ''u3@example.com'', role = ''student'', password = None\<rparr>]
     ''r1'' = Inl (RoleInUse 2)
   \<and> deleteRole
     [\<lparr>role_id = ''r1'', name = ''moderator'', displayName = ''Moderator'',
       description = None, permissions = [''view_hotels''],
       isSystem = False, isActive = True, createdBy = Some ''a1'', updatedBy = None\<rparr>]
     [\<lparr>user_id = ''u1'', email = ''u1@example.com'', role = ''student'', password = None\<rparr>,
      \<lparr>user_id = ''u2'', email = ''u2@example.com'', role = ''student'', password = None\<rparr>,
      \<lparr>user_id = ''u3'', email = ''u3@example.com'', role = ''student'', password = None\<rparr>]
     ''r1'' = Inr []"
proof -
  let ?r = "\<lparr>role_id = ''r1'', name = ''moderator'', displayName = ''Moderator'',
       description = None, permissions = [''view_hotels''],
       isSystem = False, isActive = True, createdBy = Some ''a1'', updatedBy = None\<rparr>"
  let ?users = "[\<lparr>user_id = ''u1'', email = ''u1@example.com'', role = ''moderator'', password = None\<rparr>,
      \<lparr>user_id = ''u2'', email = ''u2@example.com'', role = ''moderator'', password = None\<rparr>,
      \<lparr>user_id = ''u3'', email = ''u3@example.com'', role = ''student'', password = None\<rparr>]"
  let ?users2 = "[\<lparr>user_id = ''u1'', email = ''u1@example.com'', role = ''student'', password = None\<rparr>,
      \<lparr>user_id = ''u2'', email = ''u2@example.com'', role = ''student'', password = None\<rparr>,
      \<lparr>user_id = ''u3'', email = ''u3@example.com'', role = ''student'', password = None\<rparr>]"
  have found: "Role_findById [?r] ''r1'' = Some ?r" by (simp add: Role_findById_def)
  have custom: "\<not> isSystem ?r" by simp
  note T = deleteRole_blocked_by_assignments[OF found custom, of ?users]
  have n: "length (filter (\<lambda>u. role u = name ?r) ?users) = 2" by simp
  have free: "\<forall>u\<in>set ?users2. role u \<noteq> name ?r" by simp
  from T[THEN conjunct1] have "deleteRole [?r] ?users ''r1'' = Inl (RoleInUse 2)"
    unfolding n by simp
  moreover
  from T[THEN conjunct2, THEN spec, THEN mp, OF free, THEN conjunct1]
  have "deleteRole [?r] ?users2 ''r1'' = Inr []" by simp
  ultimately show ?thesis by (intro conjI)
qed

lemma createRole_Inr:
  assumes "createRole roles newId input creator = Inr (r, roles1)"
  shows "r = \<lparr> role_id = newId, name = name_setter (cr_name input),
               displayName = trim (cr_displayName input),
               description = map_option trim (cr_description input),
               permissions = cr_permissions input,
               isSystem = False, isActive = True,
               createdBy = Some creator, updatedBy = None \<rparr>
         \<and> roles1 = roles @ [r]"
  using assms
  by (auto simp: createRole_def Role_create_def new_role_doc_def Let_def
      split: option.splits if_splits)

lemma system_role_rejected:
  assumes "Role_findById roles roleId = Some r" and "isSystem r"
  shows "updateRole roles roleId patch updater = Inl SystemRoleNotModifiable"
    and "deleteRole roles users roleId = Inl SystemRoleNotDeletable"
  using assms by (simp_all add: updateRole_def deleteRole_def)

lemma seeded_system_names_are_system:
  assumes fresh: "\<forall>q\<in>set roles0. name q \<notin> {ADMIN, TEACHER, STUDENT}"
    and r: "r \<in> set (initializeSystemRoles ids roles0)" "name r \<in> {ADMIN, TEACHER, STUDENT}"
  shows "isSystem r"
proof -
  from initializeSystemRoles_fresh[OF fresh, of ids] r(1)
  have "r \<in> set roles0 \<or> r \<in> set (map (\<lambda>d. new_role_doc (ids (d_name d)) d) systemRoles)"
    by simp
  with fresh r(2) obtain d where "d \<in> set systemRoles" "r = new_role_doc (ids (d_name d)) d"
    by auto
  with systemRoles_docs[of d "ids (d_name d)"] show ?thesis by simp
qed

text \<open>
  Claim C8. When the record that \<open>updateRole\<close> or \<open>deleteRole\<close> finds has its
  \<open>isSystem\<close> flag set, the call fails with the message the controller answers with
  403 Forbidden, and nothing is written. This covers the three built-in roles: in a store
  seeded by \<open>initializeSystemRoles\<close> from one with no record of those names, and with
  unique ids, every record named admin, teacher or student is refused. On a role just
  created by \<open>createRole\<close> (under a fresh id) both calls succeed. The created record
  holds the input as the setters of the schema store it: the name trimmed and in lower
  case, the display name and the description trimmed. \<open>updateRole\<close> replaces exactly the
  fields present in the patch (a display name or description again trimmed), stamps
  \<open>updatedBy\<close>, keeps the rest, and returns the new record; \<open>deleteRole\<close>, when no
  identity holds the role's stored name, gives back the store as it was before the
  creation.
\<close>

theorem system_roles_protected_custom_roles_editable:
  "(\<forall>r. Role_findById roles roleId = Some r \<and> isSystem r \<longrightarrow>
        updateRole roles roleId patch updater = Inl SystemRoleNotModifiable
        \<and> updateRole_status SystemRoleNotModifiable = 403
        \<and> deleteRole roles users roleId = Inl SystemRoleNotDeletable
        \<and> deleteRole_status SystemRoleNotDeletable = 403)
   \<and> (\<forall>roles0 ids. \<forall>r\<in>set (initializeSystemRoles ids roles0).
        (\<forall>q\<in>set roles0. name q \<notin> {''admin'', ''teacher'', ''student''})
        \<and> distinct (map role_id (initializeSystemRoles ids roles0))
        \<and> name r \<in> {''admin'', ''teacher'', ''student''} \<longrightarrow>
        updateRole (initializeSystemRoles ids roles0) (role_id r) patch updater
          = Inl SystemRoleNotModifiable
        \<and> deleteRole (initializeSystemRoles ids roles0) users (role_id r)
          = Inl SystemRoleNotDeletable)
   \<and> (\<forall>r roles1. createRole roles newId input creator = Inr (r, roles1)
          \<and> newId \<notin> role_id ` set roles \<longrightarrow>
        roles1 = roles @ [r] \<and> role_id r = newId \<and> name r = name_setter (cr_name input)
        \<and> displayName r = trim (cr_displayName input)
        \<and> description r = map_option trim (cr_description input)
        \<and> permissions r = cr_permissions input \<and> \<not> isSystem r \<and> isActive r
        \<and> (\<exists>r'. updateRole roles1 newId patch updater = Inr (Some r', roles @ [r'])
              \<and> displayName r' = (case up_displayName patch of None \<Rightarrow> displayName r | Some v \<Rightarrow> trim v)
              \<and> description r' = (case up_description patch of None \<Rightarrow> description r | Some v \<Rightarrow> Some (trim v))
              \<and> permissions r' = (case up_permissions patch of None \<Rightarrow> permissions r | Some v \<Rightarrow> v)
              \<and> isActive r' = (case up_isActive patch of None \<Rightarrow> isActive r | Some v \<Rightarrow> v)
              \<and> updatedBy r' = Some updater
              \<and> role_id r' = role_id r \<and> name r' = name r \<and> isSystem r' = isSystem r
              \<and> createdBy r' = createdBy r)
        \<and> ((\<forall>u\<in>set users. role u \<noteq> name_setter (cr_name input)) \<longrightarrow>
              deleteRole roles1 users newId = Inr roles))"
proof (intro conjI allI ballI impI; (elim conjE)?)
  fix r
  assume "Role_findById roles roleId = Some r" "isSystem r"
  then show "updateRole roles roleId patch updater = Inl SystemRoleNotModifiable"
    "deleteRole roles users roleId = Inl SystemRoleNotDeletable"
    by (rule system_role_rejected)+
next
  show "updateRole_status SystemRoleNotModifiable = 403"
    "deleteRole_status SystemRoleNotDeletable = 403"
    by simp_all
next
  fix roles0 :: "role_doc list" and ids r
  let ?seeded = "initializeSystemRoles ids roles0"
  assume r: "r \<in> set ?seeded"
    and fresh: "\<forall>q\<in>set roles0. name q \<notin> {''admin'', ''teacher'', ''student''}"
    and d: "distinct (map role_id ?seeded)"
    and n: "name r \<in> {''admin'', ''teacher'', ''student''}"
  have names: "{''admin'', ''teacher'', ''student''} = {ADMIN, TEACHER, STUDENT}"
    by (simp add: role_names)
  from fresh r n have sys: "isSystem r"
    unfolding names by (rule seeded_system_names_are_system)
  from find_by_key_distinct[OF d r] have found: "Role_findById ?seeded (role_id r) = Some r"
    by (simp add: Role_findById_def)
  from found sys show "updateRole ?seeded (role_id r) patch updater = Inl SystemRoleNotModifiable"
    "deleteRole ?seeded users (role_id r) = Inl SystemRoleNotDeletable"
    by (rule system_role_rejected)+
next
  fix r roles1
  assume c: "createRole roles newId input creator = Inr (r, roles1)"
    and f: "newId \<notin> role_id ` set roles"
  from createRole_Inr[OF c] have
    r: "r = \<lparr> role_id = newId, name = name_setter (cr_name input),
               displayName = trim (cr_displayName input),
               description = map_option trim (cr_description input),
               permissions = cr_permissions input,
               isSystem = False, isActive = True,
               createdBy = Some creator, updatedBy = None \<rparr>"
    and roles1: "roles1 = roles @ [r]"
    by simp_all
  from r have basic: "role_id r = newId" "name r = name_setter (cr_name input)" "\<not> isSystem r"
    by simp_all
  from r have stored: "displayName r = trim (cr_displayName input)"
    "description r = map_option trim (cr_description input)"
    "permissions r = cr_permissions input" "isActive r"
    by simp_all
  from f have nomatch: "\<forall>q\<in>set roles. \<not> role_id q = newId" by auto
  have found: "Role_findById roles1 newId = Some r"
    unfolding roles1 Role_findById_def
    by (simp add: find_append_no_match[OF nomatch] basic)
  show "roles1 = roles @ [r]" "role_id r = newId" "name r = name_setter (cr_name input)"
    "\<not> isSystem r"
    using roles1 basic by simp_all
  show "displayName r = trim (cr_displayName input)"
    "description r = map_option trim (cr_description input)"
    "permissions r = cr_permissions input" "isActive r"
    by (rule stored)+
  let ?r' = "apply_update patch updater r"
  have upd: "Role_findByIdAndUpdate roles1 newId (apply_update patch updater) = roles @ [?r']"
    unfolding roles1 Role_findByIdAndUpdate_def
    by (simp add: update_first_append_no_match[OF nomatch] basic)
  have id': "role_id ?r' = newId" by (simp add: apply_update_def basic)
  have found': "Role_findById (roles @ [?r']) newId = Some ?r'"
    unfolding Role_findById_def
    by (simp add: find_append_no_match[OF nomatch] id')
  have "updateRole roles1 newId patch updater = Inr (Some ?r', roles @ [?r'])"
    by (simp add: updateRole_def found basic upd found')
  moreover have
    "displayName ?r' = (case up_displayName patch of None \<Rightarrow> displayName r | Some v \<Rightarrow> trim v)"
    "description ?r' = (case up_description patch of None \<Rightarrow> description r | Some v \<Rightarrow> Some (trim v))"
    "permissions ?r' = (case up_permissions patch of None \<Rightarrow> permissions r | Some v \<Rightarrow> v)"
    "isActive ?r' = (case up_isActive patch of None \<Rightarrow> isActive r | Some v \<Rightarrow> v)"
    "updatedBy ?r' = Some updater"
    "role_id ?r' = role_id r" "name ?r' = name r" "isSystem ?r' = isSystem r"
    "createdBy ?r' = createdBy r"
    by (simp_all add: apply_update_def)
  ultimately show "\<exists>r'. updateRole roles1 newId patch updater = Inr (Some r', roles @ [r'])
              \<and> displayName r' = (case up_displayName patch of None \<Rightarrow> displayName r | Some v \<Rightarrow> trim v)
              \<and> description r' = (case up_description patch of None \<Rightarrow> description r | Some v \<Rightarrow> Some (trim v))
              \<and> permissions r' = (case up_permissions patch of None \<Rightarrow> permissions r | Some v \<Rightarrow> v)
              \<and> isActive r' = (case up_isActive patch of None \<Rightarrow> isActive r | Some v \<Rightarrow> v)
              \<and> updatedBy r' = Some updater
              \<and> role_id r' = role_id r \<and> name r' = name r \<and> isSystem r' = isSystem r
              \<and> createdBy r' = createdBy r"
    by blast
  {
    assume "\<forall>u\<in>set users. role u \<noteq> name_setter (cr_name input)"
    then have "filter (\<lambda>u. role u = name_setter (cr_name input)) users = []"
      by (induction users) auto
    moreover have "Role_findByIdAndDelete roles1 newId = roles"
      unfolding roles1 Role_findByIdAndDelete_def
      by (simp add: delete_first_append_no_match[OF nomatch] basic)
    ultimately show "deleteRole roles1 users newId = Inr roles"
      by (simp add: deleteRole_def found basic User_countDocuments_role_def)
  }
qed

text \<open>
  A run of the theorem: the seeded teacher role is refused; a role created from the name
  \<^verbatim>\<open>" Moderator "\<close> is stored as \<^verbatim>\<open>moderator\<close>, takes a patch and can be deleted.
\<close>

theorem system_roles_protected_custom_roles_editable_witness:
  "updateRole (initializeSystemRoles (\<lambda>n. ''64b7f0c2a1d3e4f5a6b7c8a'' @ [if n = ''admin'' then CHR ''1''
         else if n = ''teacher'' then CHR ''2'' else CHR ''3'']) [])
      ''64b7f0c2a1d3e4f5a6b7c8a2''
      \<lparr>up_displayName = Some '' Mod '', up_description = None, up_permissions = None,
       up_isActive = None\<rparr> ''64b7f0c2a1d3e4f5a6b7c8d1''
     = Inl SystemRoleNotModifiable
   \<and> deleteRole (initializeSystemRoles (\<lambda>n. ''64b7f0c2a1d3e4f5a6b7c8a'' @ [if n = ''admin'' then CHR ''1''
         else if n = ''teacher'' then CHR ''2'' else CHR ''3'']) []) []
        ''64b7f0c2a1d3e4f5a6b7c8a2''
     = Inl SystemRoleNotDeletable
   \<and> createRole [] ''64b7f0c2a1d3e4f5a6b7c8e1''
        \<lparr>cr_name = '' Moderator '', cr_displayName = ''Moderator '',
         cr_description = None, cr_permissions = [''view_hotels'']\<rparr>
        ''64b7f0c2a1d3e4f5a6b7c8d1''
     = Inr (\<lparr>role_id = ''64b7f0c2a1d3e4f5a6b7c8e1'', name = ''moderator'',
             displayName = ''Moderator'', description = None,
             permissions = [''view_hotels''], isSystem = False, isActive = True,
             createdBy = Some ''64b7f0c2a1d3e4f5a6b7c8d1'', updatedBy = None\<rparr>,
            [\<lparr>role_id = ''64b7f0c2a1d3e4f5a6b7c8e1'', name = ''moderator'',
             displayName = ''Moderator'', description = None,
             permissions = [''view_hotels''], isSystem = False, isActive = True,
             createdBy = Some ''64b7f0c2a1d3e4f5a6b7c8d1'', updatedBy = None\<rparr>])
   \<and> (\<exists>r'. updateRole
          [\<lparr>role_id = ''64b7f0c2a1d3e4f5a6b7c8e1'', name = ''moderator'',
            displayName = ''Moderator'', description = None,
            permissions = [''view_hotels''], isSystem = False, isActive = True,
            createdBy = Some ''64b7f0c2a1d3e4f5a6b7c8d1'', updatedBy = None\<rparr>]
          ''64b7f0c2a1d3e4f5a6b7c8e1''
          \<lparr>up_displayName = Some '' Mod '', up_description = None, up_permissions = None,
           up_isActive = None\<rparr> ''64b7f0c2a1d3e4f5a6b7c8d1''
        = Inr (Some r', [r'])
        \<and> displayName r' = ''Mod'' \<and> permissions r' = [''view_hotels'']
        \<and> updatedBy r' = Some ''64b7f0c2a1d3e4f5a6b7c8d1'' \<and> name r' = ''moderator'')
   \<and> deleteRole
          [\<lparr>role_id = ''64b7f0c2a1d3e4f5a6b7c8e1'', name = ''moderator'',
            displayName = ''Moderator'', description = None,
            permissions = [''view_hotels''], isSystem = False, isActive = True,
            createdBy = Some ''64b7f0c2a1d3e4f5a6b7c8d1'', updatedBy = None\<rparr>]
          [] ''64b7f0c2a1d3e4f5a6b7c8e1''
        = Inr []"
proof -
  let ?patch = "\<lparr>up_displayName = Some '' Mod '', up_description = None, up_permissions = None,
       up_isActive = None\<rparr>"
  let ?input = "\<lparr>cr_name = '' Moderator '', cr_displayName = ''Moderator '',
       cr_description = None, cr_permissions = [''view_hotels'']\<rparr>"
  let ?m = "\<lparr>role_id = ''64b7f0c2a1d3e4f5a6b7c8e1'', name = ''moderator'',
            displayName = ''Moderator'', description = None,
            permissions = [''view_hotels''], isSystem = False, isActive = True,
            createdBy = Some ''64b7f0c2a1d3e4f5a6b7c8d1'', updatedBy = None\<rparr>"
  let ?ids = "\<lambda>n. ''64b7f0c2a1d3e4f5a6b7c8a'' @ [if n = ''admin'' then CHR ''1''
         else if n = ''teacher'' then CHR ''2'' else CHR ''3'']"
  let ?seeded = "initializeSystemRoles ?ids []"
  let ?t = "new_role_doc ''64b7f0c2a1d3e4f5a6b7c8a2'' (systemRoles ! 1)"
  note T = system_roles_protected_custom_roles_editable[where roles = "[]" and patch = ?patch
      and updater = "''64b7f0c2a1d3e4f5a6b7c8d1''" and users = "[]"
      and newId = "''64b7f0c2a1d3e4f5a6b7c8e1''" and input = ?input
      and creator = "''64b7f0c2a1d3e4f5a6b7c8d1''"]
  have trims: "trim ''Moderator '' = ''Moderator''" "trim '' Mod '' = ''Mod''"
    by code_simp+
  have seeded: "?seeded = map (\<lambda>d. new_role_doc (?ids (d_name d)) d) systemRoles"
    using initializeSystemRoles_fresh[of "[]" ?ids] by simp
  have t_in: "?t \<in> set ?seeded"
    unfolding seeded by (simp add: systemRoles_def role_names)
  have t_id: "role_id ?t = ''64b7f0c2a1d3e4f5a6b7c8a2''" by (simp add: new_role_doc_def)
  have hyp2: "(\<forall>q\<in>set ([]::role_doc list). name q \<notin> {''admin'', ''teacher'', ''student''})
        \<and> distinct (map role_id ?seeded)
        \<and> name ?t \<in> {''admin'', ''teacher'', ''student''}"
    unfolding seeded
    by (simp add: systemRoles_def new_role_doc_def role_names name_setter_admin
        name_setter_teacher name_setter_student)
  from T[THEN conjunct2, THEN conjunct1, THEN spec, THEN spec, THEN bspec, OF t_in,
      THEN mp, OF hyp2]
  have one: "updateRole ?seeded ''64b7f0c2a1d3e4f5a6b7c8a2'' ?patch ''64b7f0c2a1d3e4f5a6b7c8d1''
       = Inl SystemRoleNotModifiable
     \<and> deleteRole ?seeded [] ''64b7f0c2a1d3e4f5a6b7c8a2'' = Inl SystemRoleNotDeletable"
    unfolding t_id .
  have created: "createRole [] ''64b7f0c2a1d3e4f5a6b7c8e1'' ?input ''64b7f0c2a1d3e4f5a6b7c8d1''
      = Inr (?m, [?m])"
    by (simp add: createRole_def Role_findOne_name_def Role_create_def new_role_doc_def
        Role_validate_def PERMISSION_values_def permission_names
        name_setter_padded_Moderator trims)
  then have hyp3: "createRole [] ''64b7f0c2a1d3e4f5a6b7c8e1'' ?input ''64b7f0c2a1d3e4f5a6b7c8d1''
      = Inr (?m, [?m])
          \<and> ''64b7f0c2a1d3e4f5a6b7c8e1'' \<notin> role_id ` set ([]::role_doc list)"
    by simp
  note X = T[THEN conjunct2, THEN conjunct2, THEN spec, THEN spec, THEN mp, OF hyp3]
  from X have three: "(\<exists>r'. updateRole [?m] ''64b7f0c2a1d3e4f5a6b7c8e1'' ?patch
                ''64b7f0c2a1d3e4f5a6b7c8d1'' = Inr (Some r', [] @ [r'])
              \<and> displayName r' = (case up_displayName ?patch of None \<Rightarrow> displayName ?m | Some v \<Rightarrow> trim v)
              \<and> description r' = (case up_description ?patch of None \<Rightarrow> description ?m | Some v \<Rightarrow> Some (trim v))
              \<and> permissions r' = (case up_permissions ?patch of None \<Rightarrow> permissions ?m | Some v \<Rightarrow> v)
              \<and> isActive r' = (case up_isActive ?patch of None \<Rightarrow> isActive ?m | Some v \<Rightarrow> v)
              \<and> updatedBy r' = Some ''64b7f0c2a1d3e4f5a6b7c8d1''
              \<and> role_id r' = role_id ?m \<and> name r' = name ?m \<and> isSystem r' = isSystem ?m
              \<and> createdBy r' = createdBy ?m)"
    by (elim conjE)
  from X have four: "(\<forall>u\<in>set ([]::user_doc list). role u \<noteq> name_setter (cr_name ?input)) \<longrightarrow>
              deleteRole [?m] [] ''64b7f0c2a1d3e4f5a6b7c8e1'' = Inr []"
    by (elim conjE)
  from three obtain r' where
    "updateRole [?m] ''64b7f0c2a1d3e4f5a6b7c8e1'' ?patch ''64b7f0c2a1d3e4f5a6b7c8d1''
       = Inr (Some r', [r'])"
    "displayName r' = ''Mod''" "permissions r' = [''view_hotels'']"
    "updatedBy r' = Some ''64b7f0c2a1d3e4f5a6b7c8d1''" "name r' = ''moderator''"
    by (elim exE conjE) (simp add: trims)
  then have three': "\<exists>r'. updateRole [?m] ''64b7f0c2a1d3e4f5a6b7c8e1'' ?patch
          ''64b7f0c2a1d3e4f5a6b7c8d1'' = Inr (Some r', [r'])
        \<and> displayName r' = ''Mod'' \<and> permissions r' = [''view_hotels'']
        \<and> updatedBy r' = Some ''64b7f0c2a1d3e4f5a6b7c8d1'' \<and> name r' = ''moderator''"
    by (intro exI[of _ r'] conjI)
  from four have four': "deleteRole [?m] [] ''64b7f0c2a1d3e4f5a6b7c8e1'' = Inr []" by simp
  from one created three' four' show ?thesis by (intro conjI) (elim conjE, assumption)+
qed
section \<open>Bulk assignment\<close>

lemma find_user_None:
  "find (\<lambda>u. user_id u = i) users = None \<longleftrightarrow> i \<notin> user_id ` set users"
  by (auto simp: find_None_iff_no_match)

lemma set_role_ids:
  "map user_id (update_first (\<lambda>u. user_id u = i) (\<lambda>u. u\<lparr>role := roleName\<rparr>) users)
     = map user_id users"
  by (rule update_first_keeps_key) simp

lemma set_role_id_set:
  "user_id ` set (update_first (\<lambda>u. user_id u = i) (\<lambda>u. u\<lparr>role := roleName\<rparr>) users)
     = user_id ` set users"
  using set_role_ids[of i roleName users] by (metis list.set_map)

lemma set_role_absent:
  "i \<notin> user_id ` set users \<Longrightarrow>
   update_first (\<lambda>u. user_id u = i) (\<lambda>u. u\<lparr>role := roleName\<rparr>) users = users"
  by (induction users) auto

lemma fold_assign_ids:
  "map user_id
     (fold (\<lambda>s us. case castObjectId s of
                      Inl msg \<Rightarrow> us
                    | Inr i \<Rightarrow> update_first (\<lambda>u. user_id u = i) (\<lambda>u. u\<lparr>role := roleName\<rparr>) us)
        ids users)
     = map user_id users"
proof (induction ids arbitrary: users)
  case Nil
  then show ?case by simp
next
  case (Cons s ids)
  then show ?case by (cases "castObjectId s") (simp_all add: set_role_ids)
qed

text \<open>
  The loop in closed form. An id succeeds when the store can read it as an ObjectId and
  an identity has that ObjectId; the successes keep the order of the ids. Every other id
  fails, with the message of the cast error when the store cannot read it and with
  \<^verbatim>\<open>User not found\<close> when no identity has it. The user collection is the result of the
  single-user write for each id in turn.
\<close>

lemma bulkAssign_loop_closed_form:
  "bulkAssign_loop castObjectId roleName ids users success failed =
     ((success @ filter (\<lambda>s. case castObjectId s of
                                Inl msg \<Rightarrow> False
                              | Inr i \<Rightarrow> i \<in> user_id ` set users) ids,
       failed @ map (\<lambda>s. (s, case castObjectId s of
                                 Inl msg \<Rightarrow> msg
                               | Inr i \<Rightarrow> ''User not found''))
                  (filter (\<lambda>s. \<not> (case castObjectId s of
                                      Inl msg \<Rightarrow> False
                                    | Inr i \<Rightarrow> i \<in> user_id ` set users)) ids)),
      fold (\<lambda>s us. case castObjectId s of
                      Inl msg \<Rightarrow> us
                    | Inr i \<Rightarrow> update_first (\<lambda>u. user_id u = i) (\<lambda>u. u\<lparr>role := roleName\<rparr>) us)
        ids users)"
proof (induction ids arbitrary: users success failed)
  case Nil
  then show ?case by simp
next
  case (Cons s ids)
  show ?case
  proof (cases "castObjectId s")
    case (Inl msg)
    then show ?thesis
      by (simp add: Cons.IH User_findById_def)
  next
    case (Inr i)
    show ?thesis
    proof (cases "find (\<lambda>u. user_id u = i) users")
      case None
      then have absent: "i \<notin> user_id ` set users" by (simp add: find_user_None)
      from Inr None absent show ?thesis
        by (simp add: Cons.IH User_findById_def set_role_absent)
    next
      case (Some u)
      then have present: "i \<in> user_id ` set users"
        using find_user_None[of i users] by auto
      from Inr Some present show ?thesis
        by (simp add: Cons.IH User_findById_def User_findByIdAndUpdate_role_def
            set_role_id_set cong: sum.case_cong)
    qed
  qed
qed

text \<open>
  What \<open>assignRoleToUser\<close> does for one id once the role has an active record, the
  assigner is found and \<open>canAssignRole\<close> holds.
\<close>

lemma assignRoleToUser_after_checks:
  assumes "Role_findOne_active roles roleName = Some r"
    and "castObjectId assignedBy = Inr a"
    and "find (\<lambda>u. user_id u = a) users = Some au"
    and "canAssignRole (role au) roleName"
  shows "case castObjectId s of
           Inl msg \<Rightarrow> assignRoleToUser castObjectId roles users s roleName assignedBy
                        = Inl (CastError msg)
         | Inr i \<Rightarrow>
             if i \<in> user_id ` set users
             then \<exists>res. assignRoleToUser castObjectId roles users s roleName assignedBy = Inr res
             else assignRoleToUser castObjectId roles users s roleName assignedBy
                    = Inl UserNotFound"
proof (cases "castObjectId s")
  case (Inl msg)
  then show ?thesis by (simp add: assignRoleToUser_def User_findById_def)
next
  case (Inr i)
  show ?thesis
  proof (cases "find (\<lambda>u. user_id u = i) users")
    case None
    then have "i \<notin> user_id ` set users" by (simp add: find_user_None)
    with Inr None show ?thesis by (simp add: assignRoleToUser_def User_findById_def)
  next
    case (Some u)
    then have "i \<in> user_id ` set users" using find_user_None[of i users] by auto
    with Inr Some assms show ?thesis
      by (simp add: assignRoleToUser_def User_findById_def User_findByIdAndUpdate_role_def)
  qed
qed

text \<open>
  Claim C6, as the claim states it, fails: \<open>bulkAssignRole\<close> checks the role, the
  assigner and \<open>canAssignRole\<close> once, before the loop, and throws for the whole batch when
  one of them fails. Here the role name has no active record (first call), or a teacher
  tries to assign admin (second call), and the call throws although the batch names an
  existing identity.
\<close>

theorem bulkAssignRole_throws_for_whole_batch:
  "bulkAssignRole cast24 []
     [\<lparr>user_id = ''64b7f0c2a1d3e4f5a6b7c8d1'', email = ''admin@example.com'',
       role = ''admin'', password = None\<rparr>,
      \<lparr>user_id = ''64b7f0c2a1d3e4f5a6b7c8d2'', email = ''u1@example.com'',
       role = ''student'', password = None\<rparr>]
     [''64b7f0c2a1d3e4f5a6b7c8d2''] ''ghost'' ''64b7f0c2a1d3e4f5a6b7c8d1''
     = Inl RoleNotFoundOrInactive
   \<and> bulkAssignRole cast24
     [\<lparr>role_id = ''64b7f0c2a1d3e4f5a6b7c8e1'', name = ''admin'',
       displayName = ''Administrator'',
       description = None, permissions = [''manage_roles''],
       isSystem = True, isActive = True, createdBy = None, updatedBy = None\<rparr>]
     [\<lparr>user_id = ''64b7f0c2a1d3e4f5a6b7c8d1'', email = ''t1@example.com'',
       role = ''teacher'', password = None\<rparr>,
      \<lparr>user_id = ''64b7f0c2a1d3e4f5a6b7c8d2'', email = ''u1@example.com'',
       role = ''student'', password = None\<rparr>]
     [''64b7f0c2a1d3e4f5a6b7c8d2''] ''admin'' ''64b7f0c2a1d3e4f5a6b7c8d1''
     = Inl NoPermissionToAssign"
  by (simp add: bulkAssignRole_def Role_findOne_active_def User_findById_def
      canAssignRole_teacher cast24_d1 name_setter_admin)

text \<open>
  Claim C6, amended. \<open>bulkAssignRole\<close> makes three checks once, before the loop, and
  when one fails the whole call throws with the error of that check: the role has no
  active record; the assigner's id cannot be read by the store, or names no identity;
  \<open>canAssignRole\<close> refuses. When the checks pass the call returns and never throws. The
  successes are the ids that the store can read and that name an identity, in the order
  given. The failures are the other ids in the order given, an id that the store cannot
  read attributed the message of its cast error and an id that names no identity
  attributed \<^verbatim>\<open>User not found\<close>. The users are written as by one single-user write per
  id in turn, with no identity added or removed. Every id lands in exactly one of the two
  lists, and its list is the one \<open>assignRoleToUser\<close> decides: an id is a success exactly
  when \<open>assignRoleToUser\<close> succeeds for it, and it fails with the message of the error
  that \<open>assignRoleToUser\<close> throws for it.
\<close>

theorem bulkAssignRole_collects_failures:
  "bulkAssignRole castObjectId roles users userIds roleName assignedBy =
     (if \<forall>r\<in>set roles. \<not> (name r = name_setter roleName \<and> isActive r)
      then Inl RoleNotFoundOrInactive
      else case castObjectId assignedBy of
             Inl msg \<Rightarrow> Inl (CastError msg)
           | Inr a \<Rightarrow>
               (case find (\<lambda>u. user_id u = a) users of
                  None \<Rightarrow> Inl AssigningUserNotFound
                | Some assigner \<Rightarrow>
                    if \<not> canAssignRole (role assigner) roleName then Inl NoPermissionToAssign
                    else Inr ((filter (\<lambda>s. case castObjectId s of
                                             Inl msg \<Rightarrow> False
                                           | Inr i \<Rightarrow> i \<in> user_id ` set users) userIds,
                               map (\<lambda>s. (s, case castObjectId s of
                                               Inl msg \<Rightarrow> msg
                                             | Inr i \<Rightarrow> ''User not found''))
                                 (filter (\<lambda>s. \<not> (case castObjectId s of
                                                    Inl msg \<Rightarrow> False
                                                  | Inr i \<Rightarrow> i \<in> user_id ` set users))
                                    userIds)),
                              fold (\<lambda>s us. case castObjectId s of
                                             Inl msg \<Rightarrow> us
                                           | Inr i \<Rightarrow>
                                               update_first (\<lambda>u. user_id u = i)
                                                 (\<lambda>u. u\<lparr>role := roleName\<rparr>) us)
                                userIds users)))
   \<and> (\<forall>success failed users'.
        bulkAssignRole castObjectId roles users userIds roleName assignedBy
          = Inr ((success, failed), users') \<longrightarrow>
        length success + length failed = length userIds
        \<and> map user_id users' = map user_id users
        \<and> (\<forall>s\<in>set userIds.
              (s \<in> set success \<longleftrightarrow> s \<notin> fst ` set failed)
            \<and> (s \<in> set success \<longleftrightarrow>
                 (\<exists>res. assignRoleToUser castObjectId roles users s roleName assignedBy
                          = Inr res))
            \<and> (assignRoleToUser castObjectId roles users s roleName assignedBy
                 = Inl UserNotFound \<longrightarrow> (s, ''User not found'') \<in> set failed)
            \<and> (\<forall>msg. assignRoleToUser castObjectId roles users s roleName assignedBy
                        = Inl (CastError msg) \<longrightarrow> (s, msg) \<in> set failed)))"
proof (intro conjI allI impI)
  show "bulkAssignRole castObjectId roles users userIds roleName assignedBy =
     (if \<forall>r\<in>set roles. \<not> (name r = name_setter roleName \<and> isActive r)
      then Inl RoleNotFoundOrInactive
      else case castObjectId assignedBy of
             Inl msg \<Rightarrow> Inl (CastError msg)
           | Inr a \<Rightarrow>
               (case find (\<lambda>u. user_id u = a) users of
                  None \<Rightarrow> Inl AssigningUserNotFound
                | Some assigner \<Rightarrow>
                    if \<not> canAssignRole (role assigner) roleName then Inl NoPermissionToAssign
                    else Inr ((filter (\<lambda>s. case castObjectId s of
                                             Inl msg \<Rightarrow> False
                                           | Inr i \<Rightarrow> i \<in> user_id ` set users) userIds,
                               map (\<lambda>s. (s, case castObjectId s of
                                               Inl msg \<Rightarrow> msg
                                             | Inr i \<Rightarrow> ''User not found''))
                                 (filter (\<lambda>s. \<not> (case castObjectId s of
                                                    Inl msg \<Rightarrow> False
                                                  | Inr i \<Rightarrow> i \<in> user_id ` set users))
                                    userIds)),
                              fold (\<lambda>s us. case castObjectId s of
                                             Inl msg \<Rightarrow> us
                                           | Inr i \<Rightarrow>
                                               update_first (\<lambda>u. user_id u = i)
                                                 (\<lambda>u. u\<lparr>role := roleName\<rparr>) us)
                                userIds users)))"
  proof (cases "Role_findOne_active roles roleName")
    case None
    then have "\<forall>r\<in>set roles. \<not> (name r = name_setter roleName \<and> isActive r)"
      by (simp add: Role_findOne_active_def find_None_iff_no_match)
    with None show ?thesis by (simp add: bulkAssignRole_def)
  next
    case (Some r)
    from find_Some_member[OF this[unfolded Role_findOne_active_def]]
    have "\<not> (\<forall>r\<in>set roles. \<not> (name r = name_setter roleName \<and> isActive r))"
      by blast
    with Some show ?thesis
      by (simp add: bulkAssignRole_def User_findById_def bulkAssign_loop_closed_form
          split: sum.split option.split)
  qed
next
  fix success failed users'
  assume res: "bulkAssignRole castObjectId roles users userIds roleName assignedBy
          = Inr ((success, failed), users')"
  let ?ok = "\<lambda>s. case castObjectId s of Inl msg \<Rightarrow> False | Inr i \<Rightarrow> i \<in> user_id ` set users"
  let ?why = "\<lambda>s. (s, case castObjectId s of Inl msg \<Rightarrow> msg | Inr i \<Rightarrow> ''User not found'')"
  from res obtain r a au where
    checks: "Role_findOne_active roles roleName = Some r" "castObjectId assignedBy = Inr a"
      "find (\<lambda>u. user_id u = a) users = Some au" "canAssignRole (role au) roleName"
    and loop: "bulkAssign_loop castObjectId roleName userIds users [] []
                 = ((success, failed), users')"
    by (auto simp: bulkAssignRole_def User_findById_def
        split: option.splits sum.splits if_splits)
  from loop have s: "success = filter ?ok userIds"
    and f: "failed = map ?why (filter (\<lambda>s. \<not> ?ok s) userIds)"
    and u: "users' = fold (\<lambda>s us. case castObjectId s of
                      Inl msg \<Rightarrow> us
                    | Inr i \<Rightarrow> update_first (\<lambda>u. user_id u = i) (\<lambda>u. u\<lparr>role := roleName\<rparr>) us)
                userIds users"
    by (simp_all add: bulkAssign_loop_closed_form)
  show "length success + length failed = length userIds"
    unfolding s f using sum_length_filter_compl[of ?ok userIds] by simp
  show "map user_id users' = map user_id users"
    unfolding u by (rule fold_assign_ids)
  have fst_failed: "fst ` set failed = {s \<in> set userIds. \<not> ?ok s}"
    unfolding f by (auto simp: image_iff)
  show "\<forall>s\<in>set userIds.
              (s \<in> set success \<longleftrightarrow> s \<notin> fst ` set failed)
            \<and> (s \<in> set success \<longleftrightarrow>
                 (\<exists>res. assignRoleToUser castObjectId roles users s roleName assignedBy
                          = Inr res))
            \<and> (assignRoleToUser castObjectId roles users s roleName assignedBy
                 = Inl UserNotFound \<longrightarrow> (s, ''User not found'') \<in> set failed)
            \<and> (\<forall>msg. assignRoleToUser castObjectId roles users s roleName assignedBy
                        = Inl (CastError msg) \<longrightarrow> (s, msg) \<in> set failed)"
  proof
    fix s
    assume mem: "s \<in> set userIds"
    note one = assignRoleToUser_after_checks[where castObjectId = castObjectId
        and assignedBy = assignedBy and s = s, OF checks]
    from mem have in_s: "s \<in> set success \<longleftrightarrow> ?ok s" unfolding s by simp
    from mem have in_f: "s \<in> fst ` set failed \<longleftrightarrow> \<not> ?ok s" unfolding fst_failed by simp
    from mem have why: "\<not> ?ok s \<Longrightarrow> ?why s \<in> set failed" unfolding f by simp
    show "(s \<in> set success \<longleftrightarrow> s \<notin> fst ` set failed)
            \<and> (s \<in> set success \<longleftrightarrow>
                 (\<exists>res. assignRoleToUser castObjectId roles users s roleName assignedBy
                          = Inr res))
            \<and> (assignRoleToUser castObjectId roles users s roleName assignedBy
                 = Inl UserNotFound \<longrightarrow> (s, ''User not found'') \<in> set failed)
            \<and> (\<forall>msg. assignRoleToUser castObjectId roles users s roleName assignedBy
                        = Inl (CastError msg) \<longrightarrow> (s, msg) \<in> set failed)"
    proof (cases "castObjectId s")
      case (Inl msg)
      with one in_s in_f why show ?thesis by auto
    next
      case (Inr i)
      with one in_s in_f why show ?thesis by (cases "i \<in> user_id ` set users") auto
    qed
  qed
qed

text \<open>
  A run of the theorem: an admin assigns student to two existing identities and to an id
  that names no one; and to a batch holding an id that is no ObjectId.
\<close>

theorem bulkAssignRole_collects_failures_witness:
  "bulkAssignRole cast24
     [\<lparr>role_id = ''64b7f0c2a1d3e4f5a6b7c8a3'', name = ''student'', displayName = ''Student'',
       description = None, permissions = [''view_hotels''],
       isSystem = True, isActive = True, createdBy = None, updatedBy = None\<rparr>]
     [\<lparr>user_id = ''64b7f0c2a1d3e4f5a6b7c8d1'', email = ''admin@example.com'',
       role = ''admin'', password = None\<rparr>,
      \<lparr>user_id = ''64b7f0c2a1d3e4f5a6b7c8d2'', email = ''u1@example.com'',
       role = ''teacher'', password = None\<rparr>,
      \<lparr>user_id = ''64b7f0c2a1d3e4f5a6b7c8d3'', email = ''u2@example.com'',
       role = ''teacher'', password = None\<rparr>]
     [''64b7f0c2a1d3e4f5a6b7c8d2'', ''64b7f0c2a1d3e4f5a6b7c8d9'', ''64b7f0c2a1d3e4f5a6b7c8d3'']
     ''student'' ''64b7f0c2a1d3e4f5a6b7c8d1''
     = Inr (([''64b7f0c2a1d3e4f5a6b7c8d2'', ''64b7f0c2a1d3e4f5a6b7c8d3''],
             [(''64b7f0c2a1d3e4f5a6b7c8d9'', ''User not found'')]),
            [\<lparr>user_id = ''64b7f0c2a1d3e4f5a6b7c8d1'', email = ''admin@example.com'',
              role = ''admin'', password = None\<rparr>,
             \<lparr>user_id = ''64b7f0c2a1d3e4f5a6b7c8d2'', email = ''u1@example.com'',
              role = ''student'', password = None\<rparr>,
             \<lparr>user_id = ''64b7f0c2a1d3e4f5a6b7c8d3'', email = ''u2@example.com'',
              role = ''student'', password = None\<rparr>])
   \<and> bulkAssignRole cast24
     [\<lparr>role_id = ''64b7f0c2a1d3e4f5a6b7c8a3'', name = ''student'', displayName = ''Student'',
       description = None, permissions = [''view_hotels''],
       isSystem = True, isActive = True, createdBy = None, updatedBy = None\<rparr>]
     [\<lparr>user_id = ''64b7f0c2a1d3e4f5a6b7c8d1'', email = ''admin@example.com'',
       role = ''admin'', password = None\<rparr>,
      \<lparr>user_id = ''64b7f0c2a1d3e4f5a6b7c8d2'', email = ''u1@example.com'',
       role = ''teacher'', password = None\<rparr>,
      \<lparr>user_id = ''64b7f0c2a1d3e4f5a6b7c8d3'', email = ''u2@example.com'',
       role = ''teacher'', password = None\<rparr>]
     [''nobody'', ''64b7f0c2a1d3e4f5a6b7c8d3'']
     ''student'' ''64b7f0c2a1d3e4f5a6b7c8d1''
     = Inr (([''64b7f0c2a1d3e4f5a6b7c8d3''],
             [(''nobody'', ''Cast to ObjectId failed for value '' @ quoted ''nobody''
                 @ '' (type string) at path '' @ quoted ''_id'' @ '' for model ''
                 @ quoted ''User'')]),
            [\<lparr>user_id = ''64b7f0c2a1d3e4f5a6b7c8d1'', email = ''admin@example.com'',
              role = ''admin'', password = None\<rparr>,
             \<lparr>user_id = ''64b7f0c2a1d3e4f5a6b7c8d2'', email = ''u1@example.com'',
              role = ''teacher'', password = None\<rparr>,
             \<lparr>user_id = ''64b7f0c2a1d3e4f5a6b7c8d3'', email = ''u2@example.com'',
              role = ''student'', password = None\<rparr>])"
proof -
  let ?r = "\<lparr>role_id = ''64b7f0c2a1d3e4f5a6b7c8a3'', name = ''student'',
       displayName = ''Student'',
       description = None, permissions = [''view_hotels''],
       isSystem = True, isActive = True, createdBy = None, updatedBy = None\<rparr>"
  let ?users = "[\<lparr>user_id = ''64b7f0c2a1d3e4f5a6b7c8d1'', email = ''admin@example.com'',
       role = ''admin'', password = None\<rparr>,
      \<lparr>user_id = ''64b7f0c2a1d3e4f5a6b7c8d2'', email = ''u1@example.com'',
       role = ''teacher'', password = None\<rparr>,
      \<lparr>user_id = ''64b7f0c2a1d3e4f5a6b7c8d3'', email = ''u2@example.com'',
       role = ''teacher'', password = None\<rparr>]"
  note casts = cast24_d1 cast24_d2 cast24_d3 cast24_d9 cast24_nobody
  from bulkAssignRole_collects_failures[of cast24 "[?r]" ?users
      "[''64b7f0c2a1d3e4f5a6b7c8d2'', ''64b7f0c2a1d3e4f5a6b7c8d9'', ''64b7f0c2a1d3e4f5a6b7c8d3'']"
      "''student''" "''64b7f0c2a1d3e4f5a6b7c8d1''", THEN conjunct1]
  have one: "bulkAssignRole cast24 [?r] ?users
      [''64b7f0c2a1d3e4f5a6b7c8d2'', ''64b7f0c2a1d3e4f5a6b7c8d9'', ''64b7f0c2a1d3e4f5a6b7c8d3'']
      ''student'' ''64b7f0c2a1d3e4f5a6b7c8d1''
     = Inr (([''64b7f0c2a1d3e4f5a6b7c8d2'', ''64b7f0c2a1d3e4f5a6b7c8d3''],
             [(''64b7f0c2a1d3e4f5a6b7c8d9'', ''User not found'')]),
            [\<lparr>user_id = ''64b7f0c2a1d3e4f5a6b7c8d1'', email = ''admin@example.com'',
              role = ''admin'', password = None\<rparr>,
             \<lparr>user_id = ''64b7f0c2a1d3e4f5a6b7c8d2'', email = ''u1@example.com'',
              role = ''student'', password = None\<rparr>,
             \<lparr>user_id = ''64b7f0c2a1d3e4f5a6b7c8d3'', email = ''u2@example.com'',
              role = ''student'', password = None\<rparr>])"
    by (simp add: casts name_setter_student canAssignRole_admin)
  from bulkAssignRole_collects_failures[of cast24 "[?r]" ?users
      "[''nobody'', ''64b7f0c2a1d3e4f5a6b7c8d3'']"
      "''student''" "''64b7f0c2a1d3e4f5a6b7c8d1''", THEN conjunct1]
  have two: "bulkAssignRole cast24 [?r] ?users [''nobody'', ''64b7f0c2a1d3e4f5a6b7c8d3'']
      ''student'' ''64b7f0c2a1d3e4f5a6b7c8d1''
     = Inr (([''64b7f0c2a1d3e4f5a6b7c8d3''],
             [(''nobody'', ''Cast to ObjectId failed for value '' @ quoted ''nobody''
                 @ '' (type string) at path '' @ quoted ''_id'' @ '' for model ''
                 @ quoted ''User'')]),
            [\<lparr>user_id = ''64b7f0c2a1d3e4f5a6b7c8d1'', email = ''admin@example.com'',
              role = ''admin'', password = None\<rparr>,
             \<lparr>user_id = ''64b7f0c2a1d3e4f5a6b7c8d2'', email = ''u1@example.com'',
              role = ''teacher'', password = None\<rparr>,
             \<lparr>user_id = ''64b7f0c2a1d3e4f5a6b7c8d3'', email = ''u2@example.com'',
              role = ''student'', password = None\<rparr>])"
    by (simp add: casts name_setter_student canAssignRole_admin)
  from one two show ?thesis by (rule conjI)
qed
section \<open>The permission gate\<close>

lemma all_settled_iff: "all_settled n settled \<longleftrightarrow> (\<forall>j<n. j \<in> set settled)"
  by (auto simp: all_settled_def list_all_iff)

lemma race_Results:
  "race results settled evs = Fulfilled (Results bs) \<Longrightarrow>
   bs = map returned results
   \<and> (\<forall>j<length results. j \<in> set settled \<or> Resolves j \<in> set evs)"
proof (induction results settled evs rule: race.induct)
  case (1 results settled)
  then show ?case by simp
next
  case (2 results settled i evs)
  then show ?case by (auto split: if_splits)
next
  case (3 results settled i evs)
  from "3.prems" have calm: "\<not> (i < length results \<and> i \<notin> set settled \<and> isl (results ! i))"
    by (auto split: if_splits)
  show ?case
  proof (cases "all_settled (length results) (i # settled)")
    case True
    with "3.prems" calm show ?thesis by (auto simp: all_settled_iff)
  next
    case False
    with "3.prems" calm have "race results (i # settled) evs = Fulfilled (Results bs)"
      by simp
    from "3.IH"[OF calm False this] show ?thesis by auto
  qed
qed

lemma race_all_complete:
  "\<forall>i<length results. Rejects i \<notin> set evs \<Longrightarrow>
   \<forall>j<length results. j \<in> set settled \<or> Resolves j \<in> set evs \<Longrightarrow>
   \<not> all_settled (length results) settled \<Longrightarrow>
   race results settled evs =
     (if \<exists>i<length results. i \<notin> set settled \<and> isl (results ! i) then Thrown
      else Fulfilled (Results (map returned results)))"
proof (induction results settled evs rule: race.induct)
  case (1 results settled)
  then show ?case by (simp add: all_settled_iff)
next
  case (2 results settled i evs)
  then show ?case by auto
next
  case (3 results settled i evs)
  show ?case
  proof (cases "i < length results \<and> i \<notin> set settled \<and> isl (results ! i)")
    case True
    then have "\<exists>i<length results. i \<notin> set settled \<and> isl (results ! i)" by blast
    with True show ?thesis by simp
  next
    case calm: False
    show ?thesis
    proof (cases "all_settled (length results) (i # settled)")
      case True
      with calm have "\<not> (\<exists>k<length results. k \<notin> set settled \<and> isl (results ! k))"
        by (auto simp: all_settled_iff)
      with calm True show ?thesis by simp
    next
      case False
      from "3.prems" have "\<forall>i<length results. Rejects i \<notin> set evs"
        "\<forall>j<length results. j \<in> set (i # settled) \<or> Resolves j \<in> set evs"
        by auto
      note IH = "3.IH"[OF calm False this False]
      have same: "(\<exists>k<length results. k \<notin> set (i # settled) \<and> isl (results ! k))
           \<longleftrightarrow> (\<exists>k<length results. k \<notin> set settled \<and> isl (results ! k))"
        (is "?l \<longleftrightarrow> ?r")
      proof
        assume ?l
        then show ?r by auto
      next
        assume ?r
        then obtain k where k: "k < length results" "k \<notin> set settled" "isl (results ! k)"
          by blast
        with calm have "k \<noteq> i" by blast
        with k show ?l by auto
      qed
      have "race results settled (Resolves i # evs) = race results (i # settled) evs"
        by (simp only: race.simps calm False if_False)
      also note IH
      finally show ?thesis unfolding same .
    qed
  qed
qed

lemma race_timeout:
  "\<forall>i<length results. Rejects i \<notin> set evs \<Longrightarrow>
   j < length results \<Longrightarrow> j \<notin> set settled \<Longrightarrow> Resolves j \<notin> set evs \<Longrightarrow>
   race results settled evs =
     (if \<exists>i<length results. i \<notin> set settled \<and> Resolves i \<in> set evs \<and> isl (results ! i)
      then Thrown else Fulfilled TimeoutFalse)"
proof (induction results settled evs rule: race.induct)
  case (1 results settled)
  then show ?case by simp
next
  case (2 results settled i evs)
  then show ?case by auto
next
  case (3 results settled i evs)
  from "3.prems" have ne: "i \<noteq> j" by auto
  with "3.prems" have open_j: "j \<notin> set (i # settled)" by simp
  with "3.prems"(2) have unsettled: "\<not> all_settled (length results) (i # settled)"
    by (auto simp: all_settled_iff)
  show ?case
  proof (cases "i < length results \<and> i \<notin> set settled \<and> isl (results ! i)")
    case True
    then have "\<exists>k<length results. k \<notin> set settled \<and> Resolves k \<in> set (Resolves i # evs)
        \<and> isl (results ! k)"
      by auto
    with True show ?thesis by simp
  next
    case calm: False
    from "3.prems" have "\<forall>i<length results. Rejects i \<notin> set evs" "Resolves j \<notin> set evs"
      by auto
    note IH = "3.IH"[OF calm unsettled this(1) "3.prems"(2) open_j this(2)]
    have same:
      "(\<exists>k<length results. k \<notin> set (i # settled) \<and> Resolves k \<in> set evs \<and> isl (results ! k))
         \<longleftrightarrow> (\<exists>k<length results. k \<notin> set settled \<and> Resolves k \<in> set (Resolves i # evs)
                \<and> isl (results ! k))"
      (is "?l \<longleftrightarrow> ?r")
    proof
      assume ?l
      then show ?r by auto
    next
      assume ?r
      then obtain k where k: "k < length results" "k \<notin> set settled"
        "Resolves k \<in> set (Resolves i # evs)" "isl (results ! k)"
        by blast
      with calm have "k \<noteq> i" by blast
      with k show ?l by auto
    qed
    have "race results settled (Resolves i # evs) = race results (i # settled) evs"
      by (simp only: race.simps calm unsettled if_False)
    also note IH
    finally show ?thesis unfolding same .
  qed
qed

lemma race_rejection:
  "Rejects i \<in> set evs \<Longrightarrow> i < length results \<Longrightarrow> i \<notin> set settled \<Longrightarrow>
   Resolves i \<notin> set evs \<Longrightarrow> race results settled evs = Thrown"
proof (induction results settled evs rule: race.induct)
  case (1 results settled)
  then show ?case by simp
next
  case (2 results settled k evs)
  then show ?case by auto
next
  case (3 results settled k evs)
  from "3.prems" have ne: "k \<noteq> i" by auto
  with "3.prems" have open_i: "i \<notin> set (k # settled)" by simp
  with "3.prems"(2) have "\<not> all_settled (length results) (k # settled)"
    by (auto simp: all_settled_iff)
  with "3.prems" open_i show ?case using "3.IH" by simp
qed

text \<open>
  What the awaited race yields, from the order of settlements alone. With no store
  failure among the events: when every call runs to its end before the timer, the
  exception if a call throws and the array of results otherwise; when some call does
  not, the exception if a call that ran to its end threw, and the timer's \<^verbatim>\<open>false\<close>
  otherwise. With a store failure under a call before the timer: the exception.
\<close>

lemma promise_race_completed:
  assumes "\<forall>i<length results. Rejects i \<notin> set evs"
    and "\<forall>j<length results. Resolves j \<in> set evs"
  shows "promise_race results evs =
           (if \<exists>i<length results. isl (results ! i) then Thrown
            else Fulfilled (Results (map returned results)))"
proof (cases "all_settled (length results) []")
  case True
  then show ?thesis by (simp add: promise_race_def all_settled_iff)
next
  case False
  with assms race_all_complete[of results evs "[]"] show ?thesis
    by (simp add: promise_race_def)
qed

lemma promise_race_timed_out:
  assumes "\<forall>i<length results. Rejects i \<notin> set evs"
    and "j < length results" "Resolves j \<notin> set evs"
  shows "promise_race results evs =
           (if \<exists>i<length results. Resolves i \<in> set evs \<and> isl (results ! i) then Thrown
            else Fulfilled TimeoutFalse)"
proof -
  from assms(2) have "\<not> all_settled (length results) []"
    by (auto simp: all_settled_iff)
  with race_timeout[OF assms(1,2) _ assms(3), of "[]"] show ?thesis
    by (simp add: promise_race_def)
qed

lemma promise_race_rejected:
  assumes "Rejects i \<in> set evs" "i < length results" "Resolves i \<notin> set evs"
  shows "promise_race results evs = Thrown"
proof -
  from assms(2) have "\<not> all_settled (length results) []"
    by (auto simp: all_settled_iff)
  with race_rejection[OF assms(1,2) _ assms(3), of "[]"] show ?thesis
    by (simp add: promise_race_def)
qed

lemma promise_race_Results:
  assumes "promise_race results evs = Fulfilled (Results bs)"
  shows "bs = map returned results \<and> (\<forall>j<length results. Resolves j \<in> set evs)"
proof (cases "all_settled (length results) []")
  case True
  with assms show ?thesis by (simp add: promise_race_def all_settled_iff)
next
  case False
  with assms have "race results [] evs = Fulfilled (Results bs)"
    by (simp add: promise_race_def)
  from race_Results[OF this] show ?thesis by simp
qed

lemma returned_iff: "returned r \<longleftrightarrow> r = Inr True"
  by (cases r) (simp_all add: returned_def)

lemma some_returned_true:
  "list_ex (\<lambda>b. b) (map returned (map f xs)) \<longleftrightarrow> (\<exists>x\<in>set xs. f x = Inr True)"
  by (simp add: list_ex_iff returned_iff)

lemma some_call_throws:
  "(\<exists>i<length (map f xs). isl (map f xs ! i)) \<longleftrightarrow> (\<exists>x\<in>set xs. \<exists>e. f x = Inl e)"
proof
  assume "\<exists>i<length (map f xs). isl (map f xs ! i)"
  then obtain i where "i < length xs" "isl (f (xs ! i))" by auto
  then have "xs ! i \<in> set xs" "\<exists>e. f (xs ! i) = Inl e" by (simp_all add: isl_def)
  then show "\<exists>x\<in>set xs. \<exists>e. f x = Inl e" by blast
next
  assume "\<exists>x\<in>set xs. \<exists>e. f x = Inl e"
  then obtain x e where "x \<in> set xs" "f x = Inl e" by blast
  then obtain i where "i < length xs" "f (xs ! i) = Inl e" by (auto simp: in_set_conv_nth)
  then have "i < length (map f xs)" "isl (map f xs ! i)" by simp_all
  then show "\<exists>i<length (map f xs). isl (map f xs ! i)" by blast
qed

text \<open>Whether \<open>hasPermission\<close> throws depends on the id alone, not on the permission.\<close>

lemma hasPermission_throws_alike:
  "hasPermission castObjectId roles users userId p = Inl e \<Longrightarrow>
   hasPermission castObjectId roles users userId q = Inl e"
  by (auto simp: hasPermission_def split: sum.splits option.splits)

text \<open>
  Claim C3, as the claim states it, fails for a list of two or more permissions: the gate
  decides on the array that \<^verbatim>\<open>Promise.all\<close> yields, so one evaluation that is true before
  the timeout does not open the gate while another evaluation of the list is still
  pending. Here a student is checked against \<^verbatim>\<open>view_hotels\<close> (true for a student) and
  \<^verbatim>\<open>manage_hotels\<close>; the first evaluation resolves and the second does not settle
  before the timer: the answer is 403. When the second evaluation throws instead, the
  answer is 500.
\<close>

theorem requirePermission_waits_for_all_checks:
  "hasPermission cast24 []
     [\<lparr>user_id = ''64b7f0c2a1d3e4f5a6b7c8d2'', email = ''u1@example.com'', role = ''student'',
       password = None\<rparr>]
     ''64b7f0c2a1d3e4f5a6b7c8d2'' ''view_hotels'' = Inr True
   \<and> requirePermission cast24 []
       [\<lparr>user_id = ''64b7f0c2a1d3e4f5a6b7c8d2'', email = ''u1@example.com'', role = ''student'',
         password = None\<rparr>]
       [''view_hotels'', ''manage_hotels'']
       (Some \<lparr>au_userId = ''64b7f0c2a1d3e4f5a6b7c8d2'', au_email = ''u1@example.com'',
              au_role = ''student''\<rparr>)
       [Resolves 0]
     = Respond 403 ''Insufficient permissions''
   \<and> requirePermission cast24 []
       [\<lparr>user_id = ''64b7f0c2a1d3e4f5a6b7c8d2'', email = ''u1@example.com'', role = ''student'',
         password = None\<rparr>]
       [''view_hotels'', ''manage_hotels'']
       (Some \<lparr>au_userId = ''64b7f0c2a1d3e4f5a6b7c8d2'', au_email = ''u1@example.com'',
              au_role = ''student''\<rparr>)
       [Resolves 0, Rejects 1]
     = Respond 500 ''Error checking permissions''"
proof -
  let ?users = "[\<lparr>user_id = ''64b7f0c2a1d3e4f5a6b7c8d2'', email = ''u1@example.com'',
       role = ''student'', password = None\<rparr>]"
  have yes: "hasPermission cast24 [] ?users ''64b7f0c2a1d3e4f5a6b7c8d2'' ''view_hotels''
      = Inr True"
    by (simp add: hasPermission_def User_findById_def cast24_d2 getRolePermissions_def
        Role_findOne_active_def ROLE_PERMISSIONS_def orEmpty_def role_names permission_names)
  have no: "hasPermission cast24 [] ?users ''64b7f0c2a1d3e4f5a6b7c8d2'' ''manage_hotels''
      = Inr False"
    by (simp add: hasPermission_def User_findById_def cast24_d2 getRolePermissions_def
        Role_findOne_active_def ROLE_PERMISSIONS_def orEmpty_def role_names permission_names)
  have r1: "promise_race [Inr b0, Inr b1] [Resolves 0] = Fulfilled TimeoutFalse" for b0 b1
    by (simp add: promise_race_def all_settled_def)
  have r2: "promise_race [Inr b0, Inr b1] [Resolves 0, Rejects (Suc 0)] = Thrown" for b0 b1
    by (simp add: promise_race_def all_settled_def)
  from yes no show ?thesis
    by (simp add: requirePermission_def r1 r2)
qed

text \<open>
  Claim C3, amended. For an authenticated request and any list of permissions:
  \<^item> when every evaluation of the list runs to its end before the timer, on a store that
    does not fail, the request is allowed if at least one permission of the list
    evaluates true via \<open>hasPermission\<close> (OR, not AND), and is answered 403 otherwise;
    except that it is answered 500 when an evaluation throws, which \<open>hasPermission\<close> does
    for an identity id that the store cannot read;
  \<^item> when the store does not fail and some evaluation has not run to its end when the
    timer fires, the request is answered 403, whatever the evaluations that did resolve
    said; except that it is answered 500 when one that ran to its end threw;
  \<^item> when the store fails under an evaluation before the timer, the request is answered
    500, not 403;
  \<^item> so, each promise settling once, the request is allowed if and only if every
    evaluation resolves before the timer and at least one of them is true.

  The gate takes the identity id from \<^verbatim>\<open>req.user\<close>, which the authentication gate fills
  with the id of a stored identity; for such an id no evaluation throws of itself.
\<close>

theorem requirePermission_decision:
  "((\<forall>i<length perms. Resolves i \<in> set evs \<and> Rejects i \<notin> set evs) \<longrightarrow>
       requirePermission castObjectId roles users perms (Some user) evs =
         (if \<exists>p\<in>set perms. \<exists>e.
               hasPermission castObjectId roles users (au_userId user) p = Inl e
          then Respond 500 ''Error checking permissions''
          else if \<exists>p\<in>set perms.
               hasPermission castObjectId roles users (au_userId user) p = Inr True
          then Next
          else Respond 403 ''Insufficient permissions''))
   \<and> ((\<forall>i<length perms. Rejects i \<notin> set evs) \<and> (\<exists>j<length perms. Resolves j \<notin> set evs) \<longrightarrow>
       requirePermission castObjectId roles users perms (Some user) evs =
         (if \<exists>i<length perms. Resolves i \<in> set evs \<and>
               (\<exists>e. hasPermission castObjectId roles users (au_userId user) (perms ! i) = Inl e)
          then Respond 500 ''Error checking permissions''
          else Respond 403 ''Insufficient permissions''))
   \<and> ((\<exists>i<length perms. Rejects i \<in> set evs \<and> Resolves i \<notin> set evs) \<longrightarrow>
       requirePermission castObjectId roles users perms (Some user) evs
         = Respond 500 ''Error checking permissions'')
   \<and> ((\<forall>i. \<not> (Resolves i \<in> set evs \<and> Rejects i \<in> set evs)) \<longrightarrow>
       (requirePermission castObjectId roles users perms (Some user) evs = Next \<longleftrightarrow>
          (\<forall>i<length perms. Resolves i \<in> set evs)
          \<and> (\<exists>p\<in>set perms.
                hasPermission castObjectId roles users (au_userId user) p = Inr True)))"
proof -
  let ?check = "\<lambda>permission.
      hasPermission castObjectId roles users (au_userId user) permission"
  let ?results = "map ?check perms"
  let ?throws = "\<exists>p\<in>set perms. \<exists>e. ?check p = Inl e"
  let ?any = "\<exists>p\<in>set perms. ?check p = Inr True"
  let ?gate = "requirePermission castObjectId roles users perms (Some user) evs"
  have completed: "?gate = (if ?throws then Respond 500 ''Error checking permissions''
                            else if ?any then Next
                            else Respond 403 ''Insufficient permissions'')"
    if "\<forall>i<length perms. Resolves i \<in> set evs \<and> Rejects i \<notin> set evs"
  proof -
    from that have "promise_race ?results evs =
        (if \<exists>i<length ?results. isl (?results ! i) then Thrown
         else Fulfilled (Results (map returned ?results)))"
      by (intro promise_race_completed) simp_all
    then have "promise_race ?results evs =
        (if ?throws then Thrown else Fulfilled (Results (map returned ?results)))"
      unfolding some_call_throws .
    then show ?thesis
      by (simp add: requirePermission_def some_returned_true del: map_map)
  qed
  have timed_out: "?gate =
        (if \<exists>i<length perms. Resolves i \<in> set evs \<and> (\<exists>e. ?check (perms ! i) = Inl e)
         then Respond 500 ''Error checking permissions''
         else Respond 403 ''Insufficient permissions'')"
    if "\<forall>i<length perms. Rejects i \<notin> set evs" "\<exists>j<length perms. Resolves j \<notin> set evs"
  proof -
    from that(2) obtain j where "j < length ?results" "Resolves j \<notin> set evs" by auto
    moreover from that(1) have "\<forall>i<length ?results. Rejects i \<notin> set evs" by simp
    ultimately have pr: "promise_race ?results evs =
        (if \<exists>i<length ?results. Resolves i \<in> set evs \<and> isl (?results ! i) then Thrown
         else Fulfilled TimeoutFalse)"
      by (rule promise_race_timed_out[rotated])
    have same: "(\<exists>i<length ?results. Resolves i \<in> set evs \<and> isl (?results ! i))
        \<longleftrightarrow> (\<exists>i<length perms. Resolves i \<in> set evs \<and> (\<exists>e. ?check (perms ! i) = Inl e))"
      by (auto simp: isl_def)
    show ?thesis
    proof (cases "\<exists>i<length perms. Resolves i \<in> set evs \<and> (\<exists>e. ?check (perms ! i) = Inl e)")
      case True
      with pr[unfolded same] have "promise_race ?results evs = Thrown" by (simp only: if_True)
      with True show ?thesis by (simp add: requirePermission_def)
    next
      case False
      with pr[unfolded same] have "promise_race ?results evs = Fulfilled TimeoutFalse"
        by (simp only: if_False)
      with False show ?thesis by (simp add: requirePermission_def)
    qed
  qed
  have threw: "?gate = Respond 500 ''Error checking permissions''"
    if "\<exists>i<length perms. Rejects i \<in> set evs \<and> Resolves i \<notin> set evs"
  proof -
    from that obtain i where "Rejects i \<in> set evs" "i < length ?results" "Resolves i \<notin> set evs"
      by auto
    then have "promise_race ?results evs = Thrown" by (rule promise_race_rejected)
    then show ?thesis by (simp add: requirePermission_def)
  qed
  have allowed_iff: "?gate = Next \<longleftrightarrow> (\<forall>i<length perms. Resolves i \<in> set evs) \<and> ?any"
    if once: "\<forall>i. \<not> (Resolves i \<in> set evs \<and> Rejects i \<in> set evs)"
  proof
    assume allowed: "?gate = Next"
    show "(\<forall>i<length perms. Resolves i \<in> set evs) \<and> ?any"
    proof (cases "promise_race ?results evs")
      case Thrown
      with allowed show ?thesis by (simp add: requirePermission_def)
    next
      case (Fulfilled v)
      show ?thesis
      proof (cases v)
        case TimeoutFalse
        with Fulfilled allowed show ?thesis by (simp add: requirePermission_def)
      next
        case (Results bs)
        with Fulfilled have "promise_race ?results evs = Fulfilled (Results bs)" by simp
        from promise_race_Results[OF this] have bs: "bs = map returned ?results"
          and all: "\<forall>i<length perms. Resolves i \<in> set evs" by simp_all
        from allowed Fulfilled Results have "list_ex (\<lambda>b. b) bs"
          by (simp add: requirePermission_def split: if_splits)
        then have ?any unfolding bs some_returned_true .
        with all show ?thesis by simp
      qed
    qed
  next
    assume a: "(\<forall>i<length perms. Resolves i \<in> set evs) \<and> ?any"
    with once have "\<forall>i<length perms. Resolves i \<in> set evs \<and> Rejects i \<notin> set evs" by blast
    note c = completed[OF this]
    from a obtain p where p: "?check p = Inr True" by blast
    have "\<not> ?throws"
    proof
      assume ?throws
      then obtain q e where "?check q = Inl e" by blast
      from hasPermission_throws_alike[OF this, of p] p show False by simp
    qed
    with c a show "?gate = Next" by simp
  qed
  from completed timed_out threw allowed_iff show ?thesis
    by (intro conjI impI) blast+
qed

text \<open>
  Runs of the theorem for a student checked against \<^verbatim>\<open>manage_hotels\<close> and
  \<^verbatim>\<open>view_hotels\<close>: both evaluations resolve; one is pending at the timer; the store
  fails under one. The last run is for an identity id that is no ObjectId.
\<close>

theorem requirePermission_decision_witness:
  "requirePermission cast24 []
      [\<lparr>user_id = ''64b7f0c2a1d3e4f5a6b7c8d2'', email = ''u1@example.com'', role = ''student'',
        password = None\<rparr>]
      [''manage_hotels'', ''view_hotels'']
      (Some \<lparr>au_userId = ''64b7f0c2a1d3e4f5a6b7c8d2'', au_email = ''u1@example.com'',
             au_role = ''student''\<rparr>)
      [Resolves 1, Resolves 0]
    = Next
   \<and> requirePermission cast24 []
      [\<lparr>user_id = ''64b7f0c2a1d3e4f5a6b7c8d2'', email = ''u1@example.com'', role = ''student'',
        password = None\<rparr>]
      [''manage_hotels'', ''view_hotels'']
      (Some \<lparr>au_userId = ''64b7f0c2a1d3e4f5a6b7c8d2'', au_email = ''u1@example.com'',
             au_role = ''student''\<rparr>)
      [Resolves 1]
    = Respond 403 ''Insufficient permissions''
   \<and> requirePermission cast24 []
      [\<lparr>user_id = ''64b7f0c2a1d3e4f5a6b7c8d2'', email = ''u1@example.com'', role = ''student'',
        password = None\<rparr>]
      [''manage_hotels'', ''view_hotels'']
      (Some \<lparr>au_userId = ''64b7f0c2a1d3e4f5a6b7c8d2'', au_email = ''u1@example.com'',
             au_role = ''student''\<rparr>)
      [Rejects 0, Resolves 1]
    = Respond 500 ''Error checking permissions''
   \<and> requirePermission cast24 []
      [\<lparr>user_id = ''64b7f0c2a1d3e4f5a6b7c8d2'', email = ''u1@example.com'', role = ''student'',
        password = None\<rparr>]
      [''manage_hotels'', ''view_hotels'']
      (Some \<lparr>au_userId = ''nobody'', au_email = ''u1@example.com'', au_role = ''student''\<rparr>)
      [Resolves 1, Resolves 0]
    = Respond 500 ''Error checking permissions''"
proof (intro conjI)
  let ?users = "[\<lparr>user_id = ''64b7f0c2a1d3e4f5a6b7c8d2'', email = ''u1@example.com'',
        role = ''student'', password = None\<rparr>]"
  let ?user = "\<lparr>au_userId = ''64b7f0c2a1d3e4f5a6b7c8d2'', au_email = ''u1@example.com'',
        au_role = ''student''\<rparr>"
  let ?stranger = "\<lparr>au_userId = ''nobody'', au_email = ''u1@example.com'',
        au_role = ''student''\<rparr>"
  let ?perms = "[''manage_hotels'', ''view_hotels'']"
  have yes: "hasPermission cast24 [] ?users ''64b7f0c2a1d3e4f5a6b7c8d2'' ''view_hotels''
      = Inr True"
    by (simp add: hasPermission_def User_findById_def cast24_d2 getRolePermissions_def
        Role_findOne_active_def ROLE_PERMISSIONS_def orEmpty_def role_names permission_names)
  have no: "hasPermission cast24 [] ?users ''64b7f0c2a1d3e4f5a6b7c8d2'' ''manage_hotels''
      = Inr False"
    by (simp add: hasPermission_def User_findById_def cast24_d2 getRolePermissions_def
        Role_findOne_active_def ROLE_PERMISSIONS_def orEmpty_def role_names permission_names)
  have calm: "\<not> (\<exists>p\<in>set ?perms. \<exists>e. hasPermission cast24 [] ?users (au_userId ?user) p = Inl e)"
    using yes no by simp
  have any: "\<exists>p\<in>set ?perms. hasPermission cast24 [] ?users (au_userId ?user) p = Inr True"
    using yes by simp
  have h1: "\<forall>i<length ?perms. Resolves i \<in> set [Resolves 1, Resolves 0]
      \<and> Rejects i \<notin> set [Resolves 1, Resolves 0]"
    by (auto simp: less_Suc_eq)
  from requirePermission_decision[of ?perms "[Resolves 1, Resolves 0]" cast24 "[]" ?users ?user,
      THEN conjunct1, THEN mp, OF h1] calm any
  show "requirePermission cast24 [] ?users ?perms (Some ?user) [Resolves 1, Resolves 0] = Next"
    by (simp only: if_True if_False)
  have h2: "(\<forall>i<length ?perms. Rejects i \<notin> set [Resolves 1])
      \<and> (\<exists>j<length ?perms. Resolves j \<notin> set [Resolves 1])"
    by (auto intro: exI[of _ 0])
  have calm2: "\<not> (\<exists>i<length ?perms. Resolves i \<in> set [Resolves 1] \<and>
      (\<exists>e. hasPermission cast24 [] ?users (au_userId ?user) (?perms ! i) = Inl e))"
    using yes by (auto simp: less_Suc_eq)
  from requirePermission_decision[of ?perms "[Resolves 1]" cast24 "[]" ?users ?user,
      THEN conjunct2, THEN conjunct1, THEN mp, OF h2] calm2
  show "requirePermission cast24 [] ?users ?perms (Some ?user) [Resolves 1]
      = Respond 403 ''Insufficient permissions''"
    by (simp only: if_False)
  have h3: "\<exists>i<length ?perms. Rejects i \<in> set [Rejects 0, Resolves 1]
      \<and> Resolves i \<notin> set [Rejects 0, Resolves 1]"
    by (auto intro: exI[of _ 0])
  from requirePermission_decision[of ?perms "[Rejects 0, Resolves 1]" cast24 "[]" ?users ?user,
      THEN conjunct2, THEN conjunct2, THEN conjunct1, THEN mp, OF h3]
  show "requirePermission cast24 [] ?users ?perms (Some ?user) [Rejects 0, Resolves 1]
      = Respond 500 ''Error checking permissions''" .
  have throws: "\<exists>p\<in>set ?perms. \<exists>e.
      hasPermission cast24 [] ?users (au_userId ?stranger) p = Inl e"
    by (auto simp: hasPermission_def User_findById_def cast24_nobody)
  from requirePermission_decision[of ?perms "[Resolves 1, Resolves 0]" cast24 "[]" ?users
      ?stranger, THEN conjunct1, THEN mp, OF h1] throws
  show "requirePermission cast24 [] ?users ?perms (Some ?stranger) [Resolves 1, Resolves 0]
      = Respond 500 ''Error checking permissions''"
    by (simp only: if_True)
qed


section \<open>The rate limiter\<close>

lemma rateLimitAuth_fresh:
  assumes "attempts (rate_key req) = None
     \<or> (\<exists>e. attempts (rate_key req) = Some e \<and> resetTime e < now)"
  shows "rateLimitAuth m W attempts req now
       = (Allowed, attempts(rate_key req \<mapsto> \<lparr>count = 1, resetTime = now + W\<rparr>))"
  using assms by (auto simp: rateLimitAuth_def Let_def)

lemma rateLimitAuth_in_window:
  assumes "attempts (rate_key req) = Some \<lparr>count = c, resetTime = R\<rparr>" and "now \<le> R"
  shows "rateLimitAuth m W attempts req now =
       (if m \<le> c then (TooManyRequests (remainingTime R now), attempts)
        else (Allowed, attempts(rate_key req \<mapsto> \<lparr>count = c + 1, resetTime = R\<rparr>)))"
  using assms by (simp add: rateLimitAuth_def Let_def)

lemma rateLimitAuth_other_key:
  assumes "rate_key req \<noteq> k" and "rateLimitAuth m W attempts req now = (res, attempts1)"
  shows "attempts1 k = attempts k"
  using assms
  by (auto simp: rateLimitAuth_def Let_def split: option.splits if_splits)

lemma cleanup_in_window:
  assumes "attempts k = Some \<lparr>count = c, resetTime = R\<rparr>" and "now \<le> R"
  shows "cleanup now attempts k = Some \<lparr>count = c, resetTime = R\<rparr>"
  using assms by (simp add: cleanup_def)

text \<open>
  While the window of key \<open>k\<close> is open (its entry has count \<open>c\<close> and reset time \<open>R\<close>, and
  neither a request of \<open>k\<close> nor a sweep comes later than \<open>R\<close>), the next \<open>m - c\<close> requests of
  \<open>k\<close> are allowed and all further ones are rejected with the hint computed from \<open>R\<close>;
  the entry keeps its reset time. Requests of other keys may come in between at any time.
\<close>

lemma limiter_run_in_window:
  assumes "attempts k = Some \<lparr>count = c, resetTime = R\<rparr>"
    and "\<forall>ev\<in>set evs. (case ev of Request req now \<Rightarrow> rate_key req = k \<longrightarrow> now \<le> R
                               | Sweep now \<Rightarrow> now \<le> R)"
    and "limiter_run m W attempts evs = (out, attempts')"
  shows "(\<forall>x\<in>set (take (m - c) (filter (\<lambda>x. fst x = k) out)). snd (snd x) = Allowed)
       \<and> (\<forall>x\<in>set (drop (m - c) (filter (\<lambda>x. fst x = k) out)).
             snd (snd x) = TooManyRequests (remainingTime R (fst (snd x))))
       \<and> (\<exists>c'. attempts' k = Some \<lparr>count = c', resetTime = R\<rparr>)"
  using assms
proof (induction evs arbitrary: attempts c out)
  case Nil
  then show ?case by simp
next
  case (Cons ev evs)
  from Cons.prems(2) have rest_ok:
    "\<forall>ev\<in>set evs. (case ev of Request req now \<Rightarrow> rate_key req = k \<longrightarrow> now \<le> R
                               | Sweep now \<Rightarrow> now \<le> R)"
    by simp
  show ?case
  proof (cases ev)
    case (Sweep now)
    with Cons.prems(2) have "now \<le> R" by simp
    from cleanup_in_window[where attempts = attempts and k = k, OF Cons.prems(1) this]
    have live: "cleanup now attempts k = Some \<lparr>count = c, resetTime = R\<rparr>" .
    from Cons.prems(3) Sweep have "limiter_run m W (cleanup now attempts) evs = (out, attempts')"
      by simp
    from Cons.IH[OF live rest_ok this] show ?thesis .
  next
    case (Request req now)
    obtain res attempts1 where step: "rateLimitAuth m W attempts req now = (res, attempts1)"
      by (cases "rateLimitAuth m W attempts req now")
    obtain out1 attempts2 where run1: "limiter_run m W attempts1 evs = (out1, attempts2)"
      by (cases "limiter_run m W attempts1 evs")
    from Cons.prems(3) Request step run1 have out: "out = (rate_key req, now, res) # out1"
      and fin: "attempts2 = attempts'"
      by simp_all
    show ?thesis
    proof (cases "rate_key req = k")
      case False
      from rateLimitAuth_other_key[where attempts = attempts, OF False step] Cons.prems(1)
      have live: "attempts1 k = Some \<lparr>count = c, resetTime = R\<rparr>" by simp
      from Cons.IH[OF live rest_ok run1[unfolded fin]] False out show ?thesis by simp
    next
      case True
      with Cons.prems(2) Request have inw: "now \<le> R" by simp
      from Cons.prems(1) True have entry: "attempts (rate_key req) = Some \<lparr>count = c, resetTime = R\<rparr>"
        by simp
      note decided = rateLimitAuth_in_window[where attempts = attempts and req = req
          and m = m and W = W, OF entry inw]
      show ?thesis
      proof (cases "m \<le> c")
        case full: True
        with decided step have res: "res = TooManyRequests (remainingTime R now)"
          and same: "attempts1 = attempts" by simp_all
        from full have zero: "m - c = 0" by simp
        from Cons.IH[OF Cons.prems(1) rest_ok run1[unfolded fin same]]
        show ?thesis unfolding out zero using True res by simp
      next
        case room: False
        with decided step have res: "res = Allowed"
          and att1: "attempts1 = attempts(rate_key req \<mapsto> \<lparr>count = c + 1, resetTime = R\<rparr>)"
          by simp_all
        from att1 True have live: "attempts1 k = Some \<lparr>count = c + 1, resetTime = R\<rparr>"
          by simp
        from room have suc: "m - c = Suc (m - (c + 1))" by simp
        from Cons.IH[OF live rest_ok run1[unfolded fin]]
        show ?thesis unfolding out suc using True res by simp
      qed
    qed
  qed
qed

lemma limiter_run_requests:
  "map (\<lambda>x. (fst x, fst (snd x))) (fst (limiter_run m W attempts evs))
     = concat (map (\<lambda>ev. case ev of Request req now \<Rightarrow> [(rate_key req, now)]
                                    | Sweep now \<Rightarrow> []) evs)"
proof (induction evs arbitrary: attempts)
  case Nil
  then show ?case by simp
next
  case (Cons ev evs)
  show ?case
  proof (cases ev)
    case (Sweep now)
    with Cons.IH[of "cleanup now attempts"] show ?thesis by simp
  next
    case (Request req now)
    obtain res attempts1 where step: "rateLimitAuth m W attempts req now = (res, attempts1)"
      by (cases "rateLimitAuth m W attempts req now")
    obtain out1 attempts2 where run1: "limiter_run m W attempts1 evs = (out1, attempts2)"
      by (cases "limiter_run m W attempts1 evs")
    from Cons.IH[of attempts1] run1 Request step show ?thesis by simp
  qed
qed

lemma filter_key_times:
  "map (fst \<circ> snd) (filter (\<lambda>x. fst x = k) out)
     = map snd (filter (\<lambda>p. fst p = k) (map (\<lambda>x. (fst x, fst (snd x))) out))"
  by (induction out) auto

lemma remainingTime_is_ceiling:
  "remainingTime R now = h \<longleftrightarrow> 60000 * (h - 1) < R - now \<and> R - now \<le> 60000 * h"
proof -
  have "(- (R - now)) div 60000 = - h
      \<longleftrightarrow> 60000 * (- h) \<le> - (R - now) \<and> - (R - now) < 60000 * (- h + 1)"
    by auto
  moreover have "remainingTime R now = h \<longleftrightarrow> (- (R - now)) div 60000 = - h"
    unfolding remainingTime_def by auto
  ultimately show ?thesis by auto
qed

lemma key_times_of_events:
  "map snd (filter (\<lambda>p. fst p = k)
       (concat (map (\<lambda>ev. case ev of Request req now \<Rightarrow> [(rate_key req, now)]
                                      | Sweep now \<Rightarrow> []) evs)))
     = concat (map (\<lambda>ev. case ev of
                            Request req now \<Rightarrow> if rate_key req = k then [now] else []
                          | Sweep now \<Rightarrow> []) evs)"
  by (induction evs) (auto split: limiter_event.splits)

lemma rate_key_spelled_out:
  "rate_key req =
     (case req_ip req of
        None \<Rightarrow> (case req_remoteAddress req of
                   None \<Rightarrow> ''unknown''
                 | Some b \<Rightarrow> if b = [] then ''unknown'' else b)
      | Some a \<Rightarrow> if a = []
                  then (case req_remoteAddress req of
                          None \<Rightarrow> ''unknown''
                        | Some b \<Rightarrow> if b = [] then ''unknown'' else b)
                  else a)
     @ '':''
     @ (case req_email req of
          None \<Rightarrow> ''unknown''
        | Some e \<Rightarrow> if e = [] then ''unknown'' else e)"
  by (simp add: rate_key_def request_ip_def js_or_def split: option.splits)

text \<open>
  Claim C9. The counter is kept per key, and the key of a request is its address, a
  colon and its submitted email, where the address is \<^verbatim>\<open>req.ip\<close>, else the remote address
  of the connection, else \<^verbatim>\<open>unknown\<close>, and a missing or empty email reads \<^verbatim>\<open>unknown\<close>.
  Take any run that starts with a request of a key that has no open window (no entry,
  or an entry whose window has elapsed), followed by any requests and sweeps such that
  no request of that key and no sweep comes after the end of the window which the first
  request opens; requests of other keys may come at any time. Every request of the key
  is answered, in order; the first \<open>maxAttempts\<close> of them are allowed and every later
  one is rejected with a hint \<open>h\<close>, the number of minutes from the request to the end of
  that window, rounded up: with the default limit \<open>default_maxAttempts\<close>, the 5th is
  allowed and the 6th is rejected. After the run, a request of the key that comes once
  the window has elapsed is allowed, and it resets the counter to 1 with a new window.
  The statement holds for every limit of at least 1 and every window length, the
  defaults (5 attempts, \<open>default_windowMs\<close> = 15 minutes) among them, with clock readings
  and window ends within the safe integers, where the arithmetic of the code is exact.
\<close>

theorem rateLimitAuth_window:
  assumes "1 \<le> maxAttempts"
    and "0 \<le> windowMs" and "0 \<le> t1" and "t1 + windowMs \<le> MAX_SAFE_INTEGER"
    and "attempts (rate_key req1) = None
         \<or> (\<exists>e. attempts (rate_key req1) = Some e \<and> resetTime e < t1)"
    and "\<forall>ev\<in>set rest.
           (case ev of
              Request req now \<Rightarrow>
                0 \<le> now \<and> now + windowMs \<le> MAX_SAFE_INTEGER
                \<and> (rate_key req = rate_key req1 \<longrightarrow> now \<le> t1 + windowMs)
            | Sweep now \<Rightarrow> now \<le> t1 + windowMs)"
    and "limiter_run maxAttempts windowMs attempts (Request req1 t1 # rest) = (out, attempts')"
    and "kres = filter (\<lambda>x. fst x = rate_key req1) out"
  shows "(\<forall>req. rate_key req =
            (case req_ip req of
               None \<Rightarrow> (case req_remoteAddress req of
                          None \<Rightarrow> ''unknown''
                        | Some b \<Rightarrow> if b = [] then ''unknown'' else b)
             | Some a \<Rightarrow> if a = []
                         then (case req_remoteAddress req of
                                 None \<Rightarrow> ''unknown''
                               | Some b \<Rightarrow> if b = [] then ''unknown'' else b)
                         else a)
            @ '':''
            @ (case req_email req of
                 None \<Rightarrow> ''unknown''
               | Some e \<Rightarrow> if e = [] then ''unknown'' else e))
       \<and> map (\<lambda>x. fst (snd x)) kres =
           t1 # concat (map (\<lambda>ev. case ev of
                                    Request req now \<Rightarrow>
                                      if rate_key req = rate_key req1 then [now] else []
                                  | Sweep now \<Rightarrow> []) rest)
       \<and> (\<forall>j<length kres.
            (j < maxAttempts \<longrightarrow> snd (snd (kres ! j)) = Allowed)
          \<and> (maxAttempts \<le> j \<longrightarrow>
               (\<exists>h. snd (snd (kres ! j)) = TooManyRequests h
                  \<and> 60000 * (h - 1) < t1 + windowMs - fst (snd (kres ! j))
                  \<and> t1 + windowMs - fst (snd (kres ! j)) \<le> 60000 * h)))
       \<and> (\<forall>req' t'. rate_key req' = rate_key req1 \<and> t1 + windowMs < t'
                     \<and> t' + windowMs \<le> MAX_SAFE_INTEGER \<longrightarrow>
            rateLimitAuth maxAttempts windowMs attempts' req' t'
              = (Allowed, attempts'(rate_key req1 \<mapsto> \<lparr>count = 1, resetTime = t' + windowMs\<rparr>)))"
proof -
  let ?k = "rate_key req1"
  let ?R = "t1 + windowMs"
  let ?att1 = "attempts(?k \<mapsto> \<lparr>count = 1, resetTime = ?R\<rparr>)"
  from rateLimitAuth_fresh[where attempts = attempts and req = req1
      and m = maxAttempts and W = windowMs, OF assms(5)]
  have first: "rateLimitAuth maxAttempts windowMs attempts req1 t1 = (Allowed, ?att1)" .
  obtain out1 attempts2 where run1: "limiter_run maxAttempts windowMs ?att1 rest = (out1, attempts2)"
    by (cases "limiter_run maxAttempts windowMs ?att1 rest")
  from assms(7) first run1 have out: "out = (?k, t1, Allowed) # out1"
    and fin: "attempts2 = attempts'"
    by simp_all
  have live: "?att1 ?k = Some \<lparr>count = 1, resetTime = ?R\<rparr>" by simp
  let ?kres1 = "filter (\<lambda>x. fst x = ?k) out1"
  have in_window: "\<forall>ev\<in>set rest.
           (case ev of
              Request req now \<Rightarrow> rate_key req = ?k \<longrightarrow> now \<le> ?R
            | Sweep now \<Rightarrow> now \<le> ?R)"
  proof
    fix ev
    assume "ev \<in> set rest"
    with assms(6) show "case ev of
              Request req now \<Rightarrow> rate_key req = ?k \<longrightarrow> now \<le> ?R
            | Sweep now \<Rightarrow> now \<le> ?R"
      by (cases ev) auto
  qed
  from limiter_run_in_window[where attempts = ?att1 and k = ?k, OF live in_window
      run1[unfolded fin]]
  have early: "\<forall>x\<in>set (take (maxAttempts - 1) ?kres1). snd (snd x) = Allowed"
    and late: "\<forall>x\<in>set (drop (maxAttempts - 1) ?kres1).
             snd (snd x) = TooManyRequests (remainingTime ?R (fst (snd x)))"
    and entry: "\<exists>c'. attempts' ?k = Some \<lparr>count = c', resetTime = ?R\<rparr>"
    by simp_all
  from assms(8) out have kres: "kres = (?k, t1, Allowed) # ?kres1" by simp
  have times: "map (\<lambda>x. fst (snd x)) kres =
           t1 # concat (map (\<lambda>ev. case ev of
                                    Request req now \<Rightarrow> if rate_key req = ?k then [now] else []
                                  | Sweep now \<Rightarrow> []) rest)"
  proof -
    from limiter_run_requests[of maxAttempts windowMs ?att1 rest] run1
    have "map (\<lambda>x. (fst x, fst (snd x))) out1
        = concat (map (\<lambda>ev. case ev of Request req now \<Rightarrow> [(rate_key req, now)]
                                      | Sweep now \<Rightarrow> []) rest)"
      by simp
    with filter_key_times[of ?k out1] have "map (fst \<circ> snd) ?kres1
        = concat (map (\<lambda>ev. case ev of
                               Request req now \<Rightarrow> if rate_key req = ?k then [now] else []
                             | Sweep now \<Rightarrow> []) rest)"
      by (simp only: key_times_of_events)
    then show ?thesis unfolding kres by (simp add: comp_def)
  qed
  have per_request: "(j < maxAttempts \<longrightarrow> snd (snd (kres ! j)) = Allowed)
          \<and> (maxAttempts \<le> j \<longrightarrow>
               (\<exists>h. snd (snd (kres ! j)) = TooManyRequests h
                  \<and> 60000 * (h - 1) < ?R - fst (snd (kres ! j))
                  \<and> ?R - fst (snd (kres ! j)) \<le> 60000 * h))"
    if j: "j < length kres" for j
  proof (cases j)
    case 0
    with assms(1) kres show ?thesis by simp
  next
    case (Suc i)
    with j kres have i: "i < length ?kres1" by simp
    from Suc kres have nth: "kres ! j = ?kres1 ! i" by simp
    show ?thesis
    proof (intro conjI impI)
      assume "j < maxAttempts"
      with Suc have "i < maxAttempts - 1" by simp
      with i have "?kres1 ! i \<in> set (take (maxAttempts - 1) ?kres1)"
        by (metis in_set_conv_nth length_take min_less_iff_conj nth_take)
      with early nth show "snd (snd (kres ! j)) = Allowed" by simp
    next
      assume "maxAttempts \<le> j"
      with Suc have le: "maxAttempts - 1 \<le> i" by simp
      with i have "?kres1 ! i = drop (maxAttempts - 1) ?kres1 ! (i - (maxAttempts - 1))"
        by simp
      moreover from i le have "i - (maxAttempts - 1) < length (drop (maxAttempts - 1) ?kres1)"
        by simp
      ultimately have "?kres1 ! i \<in> set (drop (maxAttempts - 1) ?kres1)"
        by (metis nth_mem)
      with late nth
      have res: "snd (snd (kres ! j))
          = TooManyRequests (remainingTime ?R (fst (snd (kres ! j))))"
        by simp
      from remainingTime_is_ceiling[of ?R "fst (snd (kres ! j))"
          "remainingTime ?R (fst (snd (kres ! j)))"]
      have "60000 * (remainingTime ?R (fst (snd (kres ! j))) - 1) < ?R - fst (snd (kres ! j))
          \<and> ?R - fst (snd (kres ! j)) \<le> 60000 * remainingTime ?R (fst (snd (kres ! j)))"
        by simp
      with res show "\<exists>h. snd (snd (kres ! j)) = TooManyRequests h
                  \<and> 60000 * (h - 1) < ?R - fst (snd (kres ! j))
                  \<and> ?R - fst (snd (kres ! j)) \<le> 60000 * h"
        by blast
    qed
  qed
  have after: "rateLimitAuth maxAttempts windowMs attempts' req' t'
              = (Allowed, attempts'(?k \<mapsto> \<lparr>count = 1, resetTime = t' + windowMs\<rparr>))"
    if "rate_key req' = ?k" "?R < t'" for req' t'
  proof -
    from entry that obtain c' where "attempts' (rate_key req') = Some \<lparr>count = c', resetTime = ?R\<rparr>"
      by auto
    with that(2) have "attempts' (rate_key req') = None
         \<or> (\<exists>e. attempts' (rate_key req') = Some e \<and> resetTime e < t')"
      by simp
    from rateLimitAuth_fresh[where attempts = attempts' and req = req'
        and m = maxAttempts and W = windowMs, OF this] that(1)
    show ?thesis by simp
  qed
  have pin: "\<forall>req. rate_key req =
            (case req_ip req of
               None \<Rightarrow> (case req_remoteAddress req of
                          None \<Rightarrow> ''unknown''
                        | Some b \<Rightarrow> if b = [] then ''unknown'' else b)
             | Some a \<Rightarrow> if a = []
                         then (case req_remoteAddress req of
                                 None \<Rightarrow> ''unknown''
                               | Some b \<Rightarrow> if b = [] then ''unknown'' else b)
                         else a)
            @ '':''
            @ (case req_email req of
                 None \<Rightarrow> ''unknown''
               | Some e \<Rightarrow> if e = [] then ''unknown'' else e)"
    by (intro allI) (rule rate_key_spelled_out)
  have answers: "\<forall>j<length kres.
            (j < maxAttempts \<longrightarrow> snd (snd (kres ! j)) = Allowed)
          \<and> (maxAttempts \<le> j \<longrightarrow>
               (\<exists>h. snd (snd (kres ! j)) = TooManyRequests h
                  \<and> 60000 * (h - 1) < t1 + windowMs - fst (snd (kres ! j))
                  \<and> t1 + windowMs - fst (snd (kres ! j)) \<le> 60000 * h))"
    using per_request by (intro allI impI)
  have later: "\<forall>req' t'. rate_key req' = rate_key req1 \<and> t1 + windowMs < t'
                     \<and> t' + windowMs \<le> MAX_SAFE_INTEGER \<longrightarrow>
            rateLimitAuth maxAttempts windowMs attempts' req' t'
              = (Allowed, attempts'(rate_key req1 \<mapsto> \<lparr>count = 1, resetTime = t' + windowMs\<rparr>))"
  proof (intro allI impI)
    fix req' t'
    assume "rate_key req' = rate_key req1 \<and> t1 + windowMs < t'
                     \<and> t' + windowMs \<le> MAX_SAFE_INTEGER"
    then have "rate_key req' = rate_key req1" "t1 + windowMs < t'" by simp_all
    then show "rateLimitAuth maxAttempts windowMs attempts' req' t'
              = (Allowed, attempts'(rate_key req1 \<mapsto> \<lparr>count = 1, resetTime = t' + windowMs\<rparr>))"
      by (rule after)
  qed
  show ?thesis by (rule conjI[OF pin conjI[OF times conjI[OF answers later]]])
qed

text \<open>
  A run of the theorem with the defaults: six requests of the address \<^verbatim>\<open>1\<close> with the
  email \<^verbatim>\<open>a\<close>, a request of another address and a sweep in between. The 5th is allowed,
  the 6th is rejected with the hint 10 (570000 ms to the end of the window), and a
  request after the window is allowed.
\<close>

theorem rateLimitAuth_window_witness:
  "rate_key \<lparr>req_ip = Some ''1'', req_remoteAddress = None, req_email = Some ''a''\<rparr> = ''1:a''
   \<and> rate_key \<lparr>req_ip = None, req_remoteAddress = Some ''2'', req_email = None\<rparr>
       = ''2:unknown''
   \<and> map (\<lambda>x. fst (snd x)) (filter (\<lambda>x. fst x = ''1:a'')
       (fst (limiter_run default_maxAttempts default_windowMs Map.empty
          [Request \<lparr>req_ip = Some ''1'', req_remoteAddress = None, req_email = Some ''a''\<rparr> 0,
           Request \<lparr>req_ip = Some ''1'', req_remoteAddress = None, req_email = Some ''a''\<rparr> 1000,
           Request \<lparr>req_ip = None, req_remoteAddress = Some ''2'', req_email = None\<rparr> 1500,
           Request \<lparr>req_ip = Some ''1'', req_remoteAddress = None, req_email = Some ''a''\<rparr> 2000,
           Sweep 300000,
           Request \<lparr>req_ip = Some ''1'', req_remoteAddress = None, req_email = Some ''a''\<rparr> 310000,
           Request \<lparr>req_ip = Some ''1'', req_remoteAddress = None, req_email = Some ''a''\<rparr> 320000,
           Request \<lparr>req_ip = Some ''1'', req_remoteAddress = None, req_email = Some ''a''\<rparr> 330000])))
       = [0, 1000, 2000, 310000, 320000, 330000]
   \<and> snd (snd (filter (\<lambda>x. fst x = ''1:a'')
       (fst (limiter_run default_maxAttempts default_windowMs Map.empty
          [Request \<lparr>req_ip = Some ''1'', req_remoteAddress = None, req_email = Some ''a''\<rparr> 0,
           Request \<lparr>req_ip = Some ''1'', req_remoteAddress = None, req_email = Some ''a''\<rparr> 1000,
           Request \<lparr>req_ip = None, req_remoteAddress = Some ''2'', req_email = None\<rparr> 1500,
           Request \<lparr>req_ip = Some ''1'', req_remoteAddress = None, req_email = Some ''a''\<rparr> 2000,
           Sweep 300000,
           Request \<lparr>req_ip = Some ''1'', req_remoteAddress = None, req_email = Some ''a''\<rparr> 310000,
           Request \<lparr>req_ip = Some ''1'', req_remoteAddress = None, req_email = Some ''a''\<rparr> 320000,
           Request \<lparr>req_ip = Some ''1'', req_remoteAddress = None, req_email = Some ''a''\<rparr> 330000])) ! 4)) = Allowed
   \<and> snd (snd (filter (\<lambda>x. fst x = ''1:a'')
       (fst (limiter_run default_maxAttempts default_windowMs Map.empty
          [Request \<lparr>req_ip = Some ''1'', req_remoteAddress = None, req_email = Some ''a''\<rparr> 0,
           Request \<lparr>req_ip = Some ''1'', req_remoteAddress = None, req_email = Some ''a''\<rparr> 1000,
           Request \<lparr>req_ip = None, req_remoteAddress = Some ''2'', req_email = None\<rparr> 1500,
           Request \<lparr>req_ip = Some ''1'', req_remoteAddress = None, req_email = Some ''a''\<rparr> 2000,
           Sweep 300000,
           Request \<lparr>req_ip = Some ''1'', req_remoteAddress = None, req_email = Some ''a''\<rparr> 310000,
           Request \<lparr>req_ip = Some ''1'', req_remoteAddress = None, req_email = Some ''a''\<rparr> 320000,
           Request \<lparr>req_ip = Some ''1'', req_remoteAddress = None, req_email = Some ''a''\<rparr> 330000])) ! 5))
       = TooManyRequests 10
   \<and> fst (rateLimitAuth default_maxAttempts default_windowMs
       (snd (limiter_run default_maxAttempts default_windowMs Map.empty
          [Request \<lparr>req_ip = Some ''1'', req_remoteAddress = None, req_email = Some ''a''\<rparr> 0,
           Request \<lparr>req_ip = Some ''1'', req_remoteAddress = None, req_email = Some ''a''\<rparr> 1000,
           Request \<lparr>req_ip = None, req_remoteAddress = Some ''2'', req_email = None\<rparr> 1500,
           Request \<lparr>req_ip = Some ''1'', req_remoteAddress = None, req_email = Some ''a''\<rparr> 2000,
           Sweep 300000,
           Request \<lparr>req_ip = Some ''1'', req_remoteAddress = None, req_email = Some ''a''\<rparr> 310000,
           Request \<lparr>req_ip = Some ''1'', req_remoteAddress = None, req_email = Some ''a''\<rparr> 320000,
           Request \<lparr>req_ip = Some ''1'', req_remoteAddress = None, req_email = Some ''a''\<rparr> 330000]))
       \<lparr>req_ip = Some ''1'', req_remoteAddress = None, req_email = Some ''a''\<rparr> 900001) = Allowed"
proof -
  let ?a = "\<lparr>req_ip = Some ''1'', req_remoteAddress = None, req_email = Some ''a''\<rparr>"
  let ?b = "\<lparr>req_ip = None, req_remoteAddress = Some ''2'', req_email = None\<rparr>"
  let ?rest = "[Request ?a 1000, Request ?b 1500, Request ?a 2000, Sweep 300000,
           Request ?a 310000, Request ?a 320000, Request ?a 330000]"
  obtain out attempts' where
    run: "limiter_run default_maxAttempts default_windowMs Map.empty (Request ?a 0 # ?rest) = (out, attempts')"
    by (cases "limiter_run default_maxAttempts default_windowMs Map.empty (Request ?a 0 # ?rest)")
  have ka0: "rate_key ?a = ''1:a''" and kb0: "rate_key ?b = ''2:unknown''"
    by (simp_all add: rate_key_def request_ip_def js_or_def)
  have h1: "1 \<le> default_maxAttempts" by (simp add: default_maxAttempts_def)
  have h2: "0 \<le> default_windowMs" by (simp add: default_windowMs_def)
  have h3: "(0::int) \<le> 0" by simp
  have h4: "0 + default_windowMs \<le> MAX_SAFE_INTEGER"
    by (simp add: default_windowMs_def MAX_SAFE_INTEGER_def)
  have h5: "Map.empty (rate_key ?a) = None
         \<or> (\<exists>e. Map.empty (rate_key ?a) = Some e \<and> resetTime e < 0)"
    by simp
  have h6: "\<forall>ev\<in>set ?rest.
           (case ev of
              Request req now \<Rightarrow>
                0 \<le> now \<and> now + default_windowMs \<le> MAX_SAFE_INTEGER
                \<and> (rate_key req = rate_key ?a \<longrightarrow> now \<le> 0 + default_windowMs)
            | Sweep now \<Rightarrow> now \<le> 0 + default_windowMs)"
    by (simp add: ka0 kb0 default_windowMs_def MAX_SAFE_INTEGER_def)
  let ?kres = "filter (\<lambda>x. fst x = rate_key ?a) out"
  note T = rateLimitAuth_window[where maxAttempts = default_maxAttempts
      and windowMs = default_windowMs
      and attempts = Map.empty and ?req1.0 = ?a and ?t1.0 = 0 and rest = ?rest,
      OF h1 h2 h3 h4 h5 h6 run refl]
  note pin = T[THEN conjunct1]
  from pin[THEN spec, of ?a] have ka: "rate_key ?a = ''1:a''" by simp
  from pin[THEN spec, of ?b] have kb: "rate_key ?b = ''2:unknown''" by simp
  from T[THEN conjunct2, THEN conjunct1]
  have ktimes: "map (\<lambda>x. fst (snd x)) ?kres = [0, 1000, 2000, 310000, 320000, 330000]"
    by (simp add: ka kb)
  from arg_cong[OF ktimes, of length] have len: "length ?kres = 6" by simp
  from arg_cong[OF ktimes, of "\<lambda>l. l ! 5"] len have t5: "fst (snd (?kres ! 5)) = 330000"
    by simp
  note answers = T[THEN conjunct2, THEN conjunct2, THEN conjunct1]
  from answers[THEN spec, of 4] len
  have one: "snd (snd (?kres ! 4)) = Allowed" by (simp add: default_maxAttempts_def)
  from answers[THEN spec, of 5] len obtain h where
    h: "snd (snd (?kres ! 5)) = TooManyRequests h"
      "60000 * (h - 1) < 0 + default_windowMs - fst (snd (?kres ! 5))"
      "0 + default_windowMs - fst (snd (?kres ! 5)) \<le> 60000 * h"
    by (auto simp: default_maxAttempts_def)
  from h(2,3) have lo: "60000 * (h - 1) < 570000" and hi: "570000 \<le> 60000 * h"
    unfolding t5 by (simp_all add: default_windowMs_def)
  have "h \<le> 10"
  proof (rule ccontr)
    assume "\<not> h \<le> 10"
    then have "11 \<le> h" by simp
    then have "60000 * 11 \<le> 60000 * h" by (simp only: mult_le_cancel_left_pos)
    with lo show False by simp
  qed
  moreover have "10 \<le> h"
  proof (rule ccontr)
    assume "\<not> 10 \<le> h"
    then have "h \<le> 9" by simp
    then have "60000 * h \<le> 60000 * 9" by simp
    with hi show False by simp
  qed
  ultimately have "h = 10" by simp
  with h(1) have two: "snd (snd (?kres ! 5)) = TooManyRequests 10" by simp
  have "rate_key ?a = rate_key ?a \<and> 0 + default_windowMs < 900001
      \<and> 900001 + default_windowMs \<le> MAX_SAFE_INTEGER"
    by (simp add: default_windowMs_def MAX_SAFE_INTEGER_def)
  from T[THEN conjunct2, THEN conjunct2, THEN conjunct2, THEN spec, THEN spec, THEN mp,
      OF this]
  have three: "fst (rateLimitAuth default_maxAttempts default_windowMs attempts' ?a 900001) = Allowed"
    by simp
  show ?thesis unfolding run fst_conv snd_conv
    using ka kb ktimes[unfolded ka] one[unfolded ka] two[unfolded ka] three by (intro conjI)
qed

text \<open>
  The second body, in \<^verbatim>\<open>middlewares/authMiddleware.ts\<close>, the one the routes of
  \<^verbatim>\<open>routes/api/authRoutes.ts\<close> import. It keeps the same window and the same limit, but one
  counter per address: the submitted email plays no part, and the rejection carries a
  fixed message and no hint.
\<close>

lemma rateLimitAuth_byAddress_ignores_email:
  "rateLimitAuth_byAddress m W attempts (req\<lparr>req_email := e\<rparr>) now
     = rateLimitAuth_byAddress m W attempts req now"
  by (simp add: rateLimitAuth_byAddress_def request_ip_def)

lemma rateLimitAuth_byAddress_fresh:
  assumes "attempts (request_ip req) = None
     \<or> (\<exists>e. attempts (request_ip req) = Some e \<and> resetTime e < now)"
  shows "rateLimitAuth_byAddress m W attempts req now
       = (Next, attempts(request_ip req \<mapsto> \<lparr>count = 1, resetTime = now + W\<rparr>))"
  using assms by (auto simp: rateLimitAuth_byAddress_def Let_def)

lemma rateLimitAuth_byAddress_in_window:
  assumes "attempts (request_ip req) = Some \<lparr>count = c, resetTime = R\<rparr>" and "now \<le> R"
  shows "rateLimitAuth_byAddress m W attempts req now =
       (if m \<le> c
        then (Respond 429 ''Too many authentication attempts. Please try again later.'',
              attempts)
        else (Next, attempts(request_ip req \<mapsto> \<lparr>count = c + 1, resetTime = R\<rparr>)))"
  using assms by (simp add: rateLimitAuth_byAddress_def Let_def)

lemma rateLimitAuth_byAddress_other_address:
  assumes "request_ip req \<noteq> k"
    and "rateLimitAuth_byAddress m W attempts req now = (res, attempts1)"
  shows "attempts1 k = attempts k"
  using assms
  by (auto simp: rateLimitAuth_byAddress_def Let_def split: option.splits if_splits)

lemma limiter_run_byAddress_in_window:
  assumes "attempts k = Some \<lparr>count = c, resetTime = R\<rparr>"
    and "\<forall>(req, now)\<in>set evs. request_ip req = k \<longrightarrow> now \<le> R"
    and "limiter_run_byAddress m W attempts evs = (out, attempts')"
  shows "(\<forall>x\<in>set (take (m - c) (filter (\<lambda>x. fst x = k) out)). snd (snd x) = Next)
       \<and> (\<forall>x\<in>set (drop (m - c) (filter (\<lambda>x. fst x = k) out)).
             snd (snd x)
               = Respond 429 ''Too many authentication attempts. Please try again later.'')
       \<and> (\<exists>c'. attempts' k = Some \<lparr>count = c', resetTime = R\<rparr>)"
  using assms
proof (induction evs arbitrary: attempts c out)
  case Nil
  then show ?case by simp
next
  case (Cons ev evs)
  obtain req now where ev: "ev = (req, now)" by (cases ev)
  from Cons.prems(2) have rest_ok: "\<forall>(req, now)\<in>set evs. request_ip req = k \<longrightarrow> now \<le> R"
    by simp
  obtain res attempts1 where
    step: "rateLimitAuth_byAddress m W attempts req now = (res, attempts1)"
    by (cases "rateLimitAuth_byAddress m W attempts req now")
  obtain out1 attempts2 where
    run1: "limiter_run_byAddress m W attempts1 evs = (out1, attempts2)"
    by (cases "limiter_run_byAddress m W attempts1 evs")
  from Cons.prems(3) ev step run1 have out: "out = (request_ip req, now, res) # out1"
    and fin: "attempts2 = attempts'"
    by simp_all
  show ?case
  proof (cases "request_ip req = k")
    case False
    from rateLimitAuth_byAddress_other_address[where attempts = attempts, OF False step]
      Cons.prems(1)
    have live: "attempts1 k = Some \<lparr>count = c, resetTime = R\<rparr>" by simp
    from Cons.IH[OF live rest_ok run1[unfolded fin]] False out show ?thesis by simp
  next
    case True
    with Cons.prems(2) ev have inw: "now \<le> R" by simp
    from Cons.prems(1) True
    have entry: "attempts (request_ip req) = Some \<lparr>count = c, resetTime = R\<rparr>"
      by simp
    note decided = rateLimitAuth_byAddress_in_window[where attempts = attempts and req = req
        and m = m and W = W, OF entry inw]
    show ?thesis
    proof (cases "m \<le> c")
      case full: True
      with decided step
      have res: "res = Respond 429 ''Too many authentication attempts. Please try again later.''"
        and same: "attempts1 = attempts" by simp_all
      from full have zero: "m - c = 0" by simp
      from Cons.IH[OF Cons.prems(1) rest_ok run1[unfolded fin same]]
      show ?thesis unfolding out zero using True res by simp
    next
      case room: False
      with decided step have res: "res = Next"
        and att1: "attempts1 = attempts(request_ip req \<mapsto> \<lparr>count = c + 1, resetTime = R\<rparr>)"
        by simp_all
      from att1 True have live: "attempts1 k = Some \<lparr>count = c + 1, resetTime = R\<rparr>"
        by simp
      from room have suc: "m - c = Suc (m - (c + 1))" by simp
      from Cons.IH[OF live rest_ok run1[unfolded fin]]
      show ?thesis unfolding out suc using True res by simp
    qed
  qed
qed

text \<open>
  The window of the second body: among the requests of one address, whatever their
  emails, the first \<open>maxAttempts\<close> within the window are allowed and the later ones are
  answered 429; after the window the next request of the address is allowed.
\<close>

lemma rateLimitAuth_byAddress_window:
  assumes "1 \<le> maxAttempts"
    and "attempts (request_ip req1) = None
         \<or> (\<exists>e. attempts (request_ip req1) = Some e \<and> resetTime e < t1)"
    and "\<forall>(req, now)\<in>set rest. request_ip req = request_ip req1 \<longrightarrow> now \<le> t1 + windowMs"
    and "limiter_run_byAddress maxAttempts windowMs attempts ((req1, t1) # rest)
           = (out, attempts')"
    and "kres = filter (\<lambda>x. fst x = request_ip req1) out"
  shows "(\<forall>j<length kres.
            (j < maxAttempts \<longrightarrow> snd (snd (kres ! j)) = Next)
          \<and> (maxAttempts \<le> j \<longrightarrow>
               snd (snd (kres ! j))
                 = Respond 429 ''Too many authentication attempts. Please try again later.''))
       \<and> (\<forall>req' t'. request_ip req' = request_ip req1 \<and> t1 + windowMs < t' \<longrightarrow>
            rateLimitAuth_byAddress maxAttempts windowMs attempts' req' t'
              = (Next, attempts'(request_ip req1
                   \<mapsto> \<lparr>count = 1, resetTime = t' + windowMs\<rparr>)))"
proof -
  let ?k = "request_ip req1"
  let ?R = "t1 + windowMs"
  let ?att1 = "attempts(?k \<mapsto> \<lparr>count = 1, resetTime = ?R\<rparr>)"
  let ?no = "Respond 429 ''Too many authentication attempts. Please try again later.''"
  from rateLimitAuth_byAddress_fresh[where attempts = attempts and req = req1
      and m = maxAttempts and W = windowMs, OF assms(2)]
  have first: "rateLimitAuth_byAddress maxAttempts windowMs attempts req1 t1 = (Next, ?att1)" .
  obtain out1 attempts2 where
    run1: "limiter_run_byAddress maxAttempts windowMs ?att1 rest = (out1, attempts2)"
    by (cases "limiter_run_byAddress maxAttempts windowMs ?att1 rest")
  from assms(4) first run1 have out: "out = (?k, t1, Next) # out1"
    and fin: "attempts2 = attempts'"
    by simp_all
  have live: "?att1 ?k = Some \<lparr>count = 1, resetTime = ?R\<rparr>" by simp
  let ?kres1 = "filter (\<lambda>x. fst x = ?k) out1"
  from limiter_run_byAddress_in_window[where attempts = ?att1 and k = ?k, OF live assms(3)
      run1[unfolded fin]]
  have early: "\<forall>x\<in>set (take (maxAttempts - 1) ?kres1). snd (snd x) = Next"
    and late: "\<forall>x\<in>set (drop (maxAttempts - 1) ?kres1). snd (snd x) = ?no"
    and entry: "\<exists>c'. attempts' ?k = Some \<lparr>count = c', resetTime = ?R\<rparr>"
    by simp_all
  from assms(5) out have kres: "kres = (?k, t1, Next) # ?kres1" by simp
  have per_request: "(j < maxAttempts \<longrightarrow> snd (snd (kres ! j)) = Next)
          \<and> (maxAttempts \<le> j \<longrightarrow> snd (snd (kres ! j)) = ?no)"
    if j: "j < length kres" for j
  proof (cases j)
    case 0
    with assms(1) kres show ?thesis by simp
  next
    case (Suc i)
    with j kres have i: "i < length ?kres1" by simp
    from Suc kres have nth: "kres ! j = ?kres1 ! i" by simp
    show ?thesis
    proof (intro conjI impI)
      assume "j < maxAttempts"
      with Suc have "i < maxAttempts - 1" by simp
      with i have "?kres1 ! i \<in> set (take (maxAttempts - 1) ?kres1)"
        by (metis in_set_conv_nth length_take min_less_iff_conj nth_take)
      with early nth show "snd (snd (kres ! j)) = Next" by simp
    next
      assume "maxAttempts \<le> j"
      with Suc have le: "maxAttempts - 1 \<le> i" by simp
      with i have "?kres1 ! i = drop (maxAttempts - 1) ?kres1 ! (i - (maxAttempts - 1))"
        by simp
      moreover from i le have "i - (maxAttempts - 1) < length (drop (maxAttempts - 1) ?kres1)"
        by simp
      ultimately have "?kres1 ! i \<in> set (drop (maxAttempts - 1) ?kres1)"
        by (metis nth_mem)
      with late nth show "snd (snd (kres ! j)) = ?no" by simp
    qed
  qed
  have after: "rateLimitAuth_byAddress maxAttempts windowMs attempts' req' t'
              = (Next, attempts'(?k \<mapsto> \<lparr>count = 1, resetTime = t' + windowMs\<rparr>))"
    if "request_ip req' = ?k" "?R < t'" for req' t'
  proof -
    from entry that obtain c' where
      "attempts' (request_ip req') = Some \<lparr>count = c', resetTime = ?R\<rparr>"
      by auto
    with that(2) have "attempts' (request_ip req') = None
         \<or> (\<exists>e. attempts' (request_ip req') = Some e \<and> resetTime e < t')"
      by simp
    from rateLimitAuth_byAddress_fresh[where attempts = attempts' and req = req'
        and m = maxAttempts and W = windowMs, OF this] that(1)
    show ?thesis by simp
  qed
  from per_request after show ?thesis by blast
qed
section \<open>What an update can change\<close>

lemma apply_update_frame:
  "role_id (apply_update d u r) = role_id r"
  "name (apply_update d u r) = name r"
  "isSystem (apply_update d u r) = isSystem r"
  "createdBy (apply_update d u r) = createdBy r"
  by (simp_all add: apply_update_def)

lemma updateRole_written:
  assumes "updateRole roles roleId updateData updater = Inr (r, roles')"
  shows "roles' = update_first (\<lambda>r. role_id r = roleId) (apply_update updateData updater) roles"
  using assms
  by (auto simp: updateRole_def Role_findByIdAndUpdate_def Let_def
      split: option.splits if_splits)

lemma updateRole_frame:
  assumes "updateRole roles roleId updateData updater = Inr (r, roles')"
  shows "map role_id roles' = map role_id roles \<and> map name roles' = map name roles
       \<and> map isSystem roles' = map isSystem roles \<and> map createdBy roles' = map createdBy roles"
  unfolding updateRole_written[OF assms]
  by (simp add: update_first_keeps_key apply_update_frame)

lemma field_unknown_key_anywhere:
  "k \<noteq> k' \<Longrightarrow> field (xs @ (k', v) # ys) k = field (xs @ ys) k"
  by (simp add: field_def map_add_def map_of_append split: option.splits)

text \<open>
  A write that keeps what a predicate holds of keeps a record that satisfies the
  predicate in the collection.
\<close>

lemma update_first_keeps_some:
  assumes "\<forall>x. Q x \<longrightarrow> Q (f x)" and "\<exists>x\<in>set xs. Q x"
  shows "\<exists>x\<in>set (update_first P f xs). Q x"
  using assms(2)
proof (induction xs)
  case Nil
  then show ?case by simp
next
  case (Cons a xs)
  then show ?case using assms(1) by auto
qed

lemma updateRole_keeps_resolving:
  assumes u: "updateRole roles roleId updateData updater = Inr (r, roles')"
    and keep: "up_isActive updateData \<noteq> Some False"
    and res: "Role_findOne_active roles n \<noteq> None"
  shows "Role_findOne_active roles' n \<noteq> None"
proof -
  let ?Q = "\<lambda>q. name q = name_setter n \<and> isActive q"
  from keep have "\<forall>q. ?Q q \<longrightarrow> ?Q (apply_update updateData updater q)"
    by (cases "up_isActive updateData") (auto simp: apply_update_def)
  moreover from res have "\<exists>q\<in>set roles. ?Q q"
    by (simp add: Role_findOne_active_def find_None_iff_no_match)
  ultimately have "\<exists>q\<in>set roles'. ?Q q"
    unfolding updateRole_written[OF u] by (rule update_first_keeps_some)
  then show ?thesis
    by (simp add: Role_findOne_active_def find_None_iff_no_match)
qed

lemma parsed_isActive:
  assumes "updateRoleSchema_parse (JObj kvs) = Some d" and "up_isActive d = Some b"
  shows "field kvs ''isActive'' = Some (JBool b)"
  using assms
  by (auto simp: updateRoleSchema_parse_def zod_optional_def zod_boolean_def
      split: option.splits json.splits)

text \<open>
  Claim C10, as the claim states it, fails in its last part. \<^verbatim>\<open>isActive\<close> is one of
  the four fields the schema admits, and a role name resolves through the active record
  of that name only. Here an admin sends the body \<^verbatim>\<open>{"isActive": false}\<close> for the custom
  role \<open>moderator\<close>, which an identity holds: the schema admits the body, the service
  and the controller (given the route parameter \<^verbatim>\<open>roleId\<close> that it reads) perform the
  update, the name of the record is unchanged, and the role name of that identity, which
  resolved to the record before the call, resolves to no record after it; the identity
  loses a permission it had.
\<close>

theorem updateRole_can_dangle_by_deactivation:
  "updateRoleSchema_parse (JObj [(''isActive'', JBool False)])
    = Some \<lparr>up_displayName = None, up_description = None, up_permissions = None,
             up_isActive = Some False\<rparr>
   \<and> updateRole
      [\<lparr>role_id = ''64b7f0c2a1d3e4f5a6b7c8e1'', name = ''moderator'',
        displayName = ''Moderator'', description = None, permissions = [''view_hotels''],
        isSystem = False, isActive = True, createdBy = Some ''64b7f0c2a1d3e4f5a6b7c8d1'',
        updatedBy = None\<rparr>]
      ''64b7f0c2a1d3e4f5a6b7c8e1''
      \<lparr>up_displayName = None, up_description = None, up_permissions = None,
       up_isActive = Some False\<rparr>
      ''64b7f0c2a1d3e4f5a6b7c8d1''
    = Inr (Some
         \<lparr>role_id = ''64b7f0c2a1d3e4f5a6b7c8e1'', name = ''moderator'',
          displayName = ''Moderator'', description = None, permissions = [''view_hotels''],
          isSystem = False, isActive = False, createdBy = Some ''64b7f0c2a1d3e4f5a6b7c8d1'',
          updatedBy = Some ''64b7f0c2a1d3e4f5a6b7c8d1''\<rparr>,
       [\<lparr>role_id = ''64b7f0c2a1d3e4f5a6b7c8e1'', name = ''moderator'',
         displayName = ''Moderator'', description = None, permissions = [''view_hotels''],
         isSystem = False, isActive = False, createdBy = Some ''64b7f0c2a1d3e4f5a6b7c8d1'',
         updatedBy = Some ''64b7f0c2a1d3e4f5a6b7c8d1''\<rparr>])
   \<and> RoleController_updateRole
      [\<lparr>role_id = ''64b7f0c2a1d3e4f5a6b7c8e1'', name = ''moderator'',
        displayName = ''Moderator'', description = None, permissions = [''view_hotels''],
        isSystem = False, isActive = True, createdBy = Some ''64b7f0c2a1d3e4f5a6b7c8d1'',
        updatedBy = None\<rparr>]
      [(''roleId'', ''64b7f0c2a1d3e4f5a6b7c8e1'')]
      (JObj [(''isActive'', JBool False)])
      (Some \<lparr>au_userId = ''64b7f0c2a1d3e4f5a6b7c8d1'', au_email = ''admin@example.com'',
             au_role = ''admin''\<rparr>)
    = (Updated (Some
         \<lparr>role_id = ''64b7f0c2a1d3e4f5a6b7c8e1'', name = ''moderator'',
          displayName = ''Moderator'', description = None, permissions = [''view_hotels''],
          isSystem = False, isActive = False, createdBy = Some ''64b7f0c2a1d3e4f5a6b7c8d1'',
          updatedBy = Some ''64b7f0c2a1d3e4f5a6b7c8d1''\<rparr>),
       [\<lparr>role_id = ''64b7f0c2a1d3e4f5a6b7c8e1'', name = ''moderator'',
         displayName = ''Moderator'', description = None, permissions = [''view_hotels''],
         isSystem = False, isActive = False, createdBy = Some ''64b7f0c2a1d3e4f5a6b7c8d1'',
         updatedBy = Some ''64b7f0c2a1d3e4f5a6b7c8d1''\<rparr>])
   \<and> Role_findOne_active
        [\<lparr>role_id = ''64b7f0c2a1d3e4f5a6b7c8e1'', name = ''moderator'',
          displayName = ''Moderator'', description = None, permissions = [''view_hotels''],
          isSystem = False, isActive = True, createdBy = Some ''64b7f0c2a1d3e4f5a6b7c8d1'',
          updatedBy = None\<rparr>]
        ''moderator''
      = Some \<lparr>role_id = ''64b7f0c2a1d3e4f5a6b7c8e1'', name = ''moderator'',
          displayName = ''Moderator'', description = None, permissions = [''view_hotels''],
          isSystem = False, isActive = True, createdBy = Some ''64b7f0c2a1d3e4f5a6b7c8d1'',
          updatedBy = None\<rparr>
   \<and> Role_findOne_active
        [\<lparr>role_id = ''64b7f0c2a1d3e4f5a6b7c8e1'', name = ''moderator'',
          displayName = ''Moderator'', description = None, permissions = [''view_hotels''],
          isSystem = False, isActive = False, createdBy = Some ''64b7f0c2a1d3e4f5a6b7c8d1'',
          updatedBy = Some ''64b7f0c2a1d3e4f5a6b7c8d1''\<rparr>]
        ''moderator''
      = None
   \<and> hasPermission cast24
        [\<lparr>role_id = ''64b7f0c2a1d3e4f5a6b7c8e1'', name = ''moderator'',
          displayName = ''Moderator'', description = None, permissions = [''view_hotels''],
          isSystem = False, isActive = True, createdBy = Some ''64b7f0c2a1d3e4f5a6b7c8d1'',
          updatedBy = None\<rparr>]
        [\<lparr>user_id = ''64b7f0c2a1d3e4f5a6b7c8d2'', email = ''u1@example.com'',
          role = ''moderator'', password = None\<rparr>]
        ''64b7f0c2a1d3e4f5a6b7c8d2'' ''view_hotels''
      = Inr True
   \<and> hasPermission cast24
        [\<lparr>role_id = ''64b7f0c2a1d3e4f5a6b7c8e1'', name = ''moderator'',
          displayName = ''Moderator'', description = None, permissions = [''view_hotels''],
          isSystem = False, isActive = False, createdBy = Some ''64b7f0c2a1d3e4f5a6b7c8d1'',
          updatedBy = Some ''64b7f0c2a1d3e4f5a6b7c8d1''\<rparr>]
        [\<lparr>user_id = ''64b7f0c2a1d3e4f5a6b7c8d2'', email = ''u1@example.com'',
          role = ''moderator'', password = None\<rparr>]
        ''64b7f0c2a1d3e4f5a6b7c8d2'' ''view_hotels''
      = Inr False"
proof (intro conjI)
  let ?m = "\<lparr>role_id = ''64b7f0c2a1d3e4f5a6b7c8e1'', name = ''moderator'',
        displayName = ''Moderator'', description = None, permissions = [''view_hotels''],
        isSystem = False, isActive = True, createdBy = Some ''64b7f0c2a1d3e4f5a6b7c8d1'',
        updatedBy = None\<rparr>"
  let ?m' = "\<lparr>role_id = ''64b7f0c2a1d3e4f5a6b7c8e1'', name = ''moderator'',
        displayName = ''Moderator'', description = None, permissions = [''view_hotels''],
        isSystem = False, isActive = False, createdBy = Some ''64b7f0c2a1d3e4f5a6b7c8d1'',
        updatedBy = Some ''64b7f0c2a1d3e4f5a6b7c8d1''\<rparr>"
  let ?users = "[\<lparr>user_id = ''64b7f0c2a1d3e4f5a6b7c8d2'', email = ''u1@example.com'',
          role = ''moderator'', password = None\<rparr>]"
  let ?params = "[(''roleId'', ''64b7f0c2a1d3e4f5a6b7c8e1'')]"
  let ?user = "\<lparr>au_userId = ''64b7f0c2a1d3e4f5a6b7c8d1'', au_email = ''admin@example.com'',
             au_role = ''admin''\<rparr>"
  have rid: "roleIdSchema_parse ?params = Some ''64b7f0c2a1d3e4f5a6b7c8e1''"
    by (simp add: roleIdSchema_parse_def field_def)
  have parsed: "updateRoleSchema_parse (JObj [(''isActive'', JBool False)])
      = Some \<lparr>up_displayName = None, up_description = None,
               up_permissions = None, up_isActive = Some False\<rparr>"
    by (simp add: updateRoleSchema_parse_def field_def zod_optional_def zod_boolean_def)
  show "updateRoleSchema_parse (JObj [(''isActive'', JBool False)])
      = Some \<lparr>up_displayName = None, up_description = None, up_permissions = None,
               up_isActive = Some False\<rparr>"
    by (rule parsed)
  show "updateRole [?m] ''64b7f0c2a1d3e4f5a6b7c8e1''
      \<lparr>up_displayName = None, up_description = None, up_permissions = None,
       up_isActive = Some False\<rparr> ''64b7f0c2a1d3e4f5a6b7c8d1''
      = Inr (Some ?m', [?m'])"
    by (simp add: updateRole_def Role_findById_def Role_findByIdAndUpdate_def
        apply_update_def)
  show "RoleController_updateRole [?m] ?params (JObj [(''isActive'', JBool False)]) (Some ?user)
      = (Updated (Some ?m'), [?m'])"
    by (simp add: RoleController_updateRole_def rid parsed updateRole_def Role_findById_def
        Role_findByIdAndUpdate_def apply_update_def)
  show "Role_findOne_active [?m] ''moderator'' = Some ?m"
    by (simp add: Role_findOne_active_def name_setter_moderator)
  show "Role_findOne_active [?m'] ''moderator'' = None"
    by (simp add: Role_findOne_active_def name_setter_moderator)
  show "hasPermission cast24 [?m] ?users ''64b7f0c2a1d3e4f5a6b7c8d2'' ''view_hotels'' = Inr True"
    by (simp add: hasPermission_def User_findById_def cast24_d2 getRolePermissions_def
        Role_findOne_active_def name_setter_moderator)
  show "hasPermission cast24 [?m'] ?users ''64b7f0c2a1d3e4f5a6b7c8d2'' ''view_hotels''
      = Inr False"
    by (simp add: hasPermission_def User_findById_def cast24_d2 getRolePermissions_def
        Role_findOne_active_def name_setter_moderator role_names)
qed

text \<open>
  Claim C10, amended to what an update cannot do. Whatever the route parameters, the
  body and the caller of the update endpoint are, the controller leaves the id, the
  name, the \<open>isSystem\<close> flag and the \<open>createdBy\<close> reference of every role record as they
  were: a role is never renamed, and the names borne by the records are the same after
  the call as before it. The validated input has the four fields \<open>displayName\<close>,
  \<open>description\<close>, \<open>permissions\<close> and \<open>isActive\<close> only (it is a value of
  \<open>UpdateRoleInput\<close>), and a key of the body other than these four has no effect on it:
  the schema strips it. The same frame holds for any call of \<open>updateRole\<close> with a value of
  that type. An update whose body does not set \<^verbatim>\<open>isActive\<close> to \<^verbatim>\<open>false\<close> keeps every role
  name resolving that resolved before the call; for an update that does, nothing of
  the kind holds.
\<close>

theorem updateRole_cannot_rename:
  "(\<forall>outcome roles'.
       RoleController_updateRole roles params body req_user = (outcome, roles') \<longrightarrow>
         map role_id roles' = map role_id roles
       \<and> map name roles' = map name roles
       \<and> map isSystem roles' = map isSystem roles
       \<and> map createdBy roles' = map createdBy roles
       \<and> (\<forall>n. (\<exists>r\<in>set roles'. name r = n) \<longleftrightarrow> (\<exists>r\<in>set roles. name r = n))
       \<and> ((\<forall>kvs. body = JObj kvs \<longrightarrow> field kvs ''isActive'' \<noteq> Some (JBool False)) \<longrightarrow>
            (\<forall>n. Role_findOne_active roles n \<noteq> None
                   \<longrightarrow> Role_findOne_active roles' n \<noteq> None)))
   \<and> (\<forall>k v before after.
         k \<notin> {''displayName'', ''description'', ''permissions'', ''isActive''} \<longrightarrow>
         updateRoleSchema_parse (JObj (before @ (k, v) # after))
           = updateRoleSchema_parse (JObj (before @ after)))
   \<and> (\<forall>updateData updater r roles'.
         updateRole roles roleId updateData updater = Inr (r, roles') \<longrightarrow>
           map role_id roles' = map role_id roles
         \<and> map name roles' = map name roles
         \<and> map isSystem roles' = map isSystem roles
         \<and> map createdBy roles' = map createdBy roles
         \<and> (up_isActive updateData \<noteq> Some False \<longrightarrow>
              (\<forall>n. Role_findOne_active roles n \<noteq> None
                     \<longrightarrow> Role_findOne_active roles' n \<noteq> None)))"
proof (intro conjI allI impI)
  fix updateData updater r roles'
  assume u: "updateRole roles roleId updateData updater = Inr (r, roles')"
  from updateRole_frame[OF u]
  show "map role_id roles' = map role_id roles" "map name roles' = map name roles"
    "map isSystem roles' = map isSystem roles" "map createdBy roles' = map createdBy roles"
    by simp_all
  fix n
  assume "up_isActive updateData \<noteq> Some False" "Role_findOne_active roles n \<noteq> None"
  with u show "Role_findOne_active roles' n \<noteq> None"
    by (rule updateRole_keeps_resolving)
next
  fix k :: string and v :: json and before after :: "(string \<times> json) list"
  assume "k \<notin> {''displayName'', ''description'', ''permissions'', ''isActive''}"
  then have fs: "field (before @ (k, v) # after) ''displayName'' = field (before @ after) ''displayName''"
    "field (before @ (k, v) # after) ''description'' = field (before @ after) ''description''"
    "field (before @ (k, v) # after) ''permissions'' = field (before @ after) ''permissions''"
    "field (before @ (k, v) # after) ''isActive'' = field (before @ after) ''isActive''"
    by (auto intro!: field_unknown_key_anywhere)
  show "updateRoleSchema_parse (JObj (before @ (k, v) # after))
           = updateRoleSchema_parse (JObj (before @ after))"
    unfolding updateRoleSchema_parse_def json.case fs ..
next
  fix outcome roles'
  assume c: "RoleController_updateRole roles params body req_user = (outcome, roles')"
  have written: "roles' = roles
      \<or> (\<exists>roleId' validatedData updater r.
            updateRoleSchema_parse body = Some validatedData
            \<and> updateRole roles roleId' validatedData updater = Inr (r, roles'))"
    using c
    by (auto simp: RoleController_updateRole_def
        split: option.splits if_splits sum.splits prod.splits)
  have frame: "map role_id roles' = map role_id roles \<and> map name roles' = map name roles
       \<and> map isSystem roles' = map isSystem roles \<and> map createdBy roles' = map createdBy roles"
  proof (cases "roles' = roles")
    case True
    then show ?thesis by simp
  next
    case False
    with written obtain roleId' validatedData updater r where
      "updateRole roles roleId' validatedData updater = Inr (r, roles')"
      by blast
    from updateRole_frame[OF this] show ?thesis .
  qed
  then show "map role_id roles' = map role_id roles" "map name roles' = map name roles"
    "map isSystem roles' = map isSystem roles" "map createdBy roles' = map createdBy roles"
    by simp_all
  {
    fix n
    from frame have "set (map name roles') = set (map name roles)" by simp
    then show "(\<exists>r\<in>set roles'. name r = n) \<longleftrightarrow> (\<exists>r\<in>set roles. name r = n)"
      unfolding set_map by (metis (no_types, lifting) image_iff)
  }
  {
    fix n
    assume keep: "\<forall>kvs. body = JObj kvs \<longrightarrow> field kvs ''isActive'' \<noteq> Some (JBool False)"
      and res: "Role_findOne_active roles n \<noteq> None"
    show "Role_findOne_active roles' n \<noteq> None"
    proof (cases "roles' = roles")
      case True
      with res show ?thesis by simp
    next
      case False
      with written obtain roleId' validatedData updater r where
        p: "updateRoleSchema_parse body = Some validatedData"
        and u: "updateRole roles roleId' validatedData updater = Inr (r, roles')"
        by blast
      from p obtain kvs where body: "body = JObj kvs"
        by (cases body) (simp_all add: updateRoleSchema_parse_def)
      have "up_isActive validatedData \<noteq> Some False"
      proof
        assume "up_isActive validatedData = Some False"
        from parsed_isActive[OF p[unfolded body] this] keep body show False by simp
      qed
      from updateRole_keeps_resolving[OF u this res] show ?thesis .
    qed
  }
qed

text \<open>
  A run of the theorem: a body that tries to rename the role \<open>moderator\<close> and to flag it
  as a system role, next to a new display name. The two keys are stripped, the display
  name is stored trimmed, and the name \<open>moderator\<close> still resolves.
\<close>

theorem updateRole_cannot_rename_witness:
  "snd (RoleController_updateRole
      [\<lparr>role_id = ''64b7f0c2a1d3e4f5a6b7c8e1'', name = ''moderator'',
        displayName = ''Moderator'', description = None, permissions = [''view_hotels''],
        isSystem = False, isActive = True, createdBy = Some ''64b7f0c2a1d3e4f5a6b7c8d1'',
        updatedBy = None\<rparr>]
      [(''roleId'', ''64b7f0c2a1d3e4f5a6b7c8e1'')]
      (JObj [(''name'', JStr ''admin''), (''isSystem'', JBool True),
             (''displayName'', JStr '' Mod '')])
      (Some \<lparr>au_userId = ''64b7f0c2a1d3e4f5a6b7c8d3'', au_email = ''a2@example.com'',
             au_role = ''admin''\<rparr>))
     = [\<lparr>role_id = ''64b7f0c2a1d3e4f5a6b7c8e1'', name = ''moderator'',
         displayName = ''Mod'', description = None, permissions = [''view_hotels''],
         isSystem = False, isActive = True, createdBy = Some ''64b7f0c2a1d3e4f5a6b7c8d1'',
         updatedBy = Some ''64b7f0c2a1d3e4f5a6b7c8d3''\<rparr>]
   \<and> map name (snd (RoleController_updateRole
      [\<lparr>role_id = ''64b7f0c2a1d3e4f5a6b7c8e1'', name = ''moderator'',
        displayName = ''Moderator'', description = None, permissions = [''view_hotels''],
        isSystem = False, isActive = True, createdBy = Some ''64b7f0c2a1d3e4f5a6b7c8d1'',
        updatedBy = None\<rparr>]
      [(''roleId'', ''64b7f0c2a1d3e4f5a6b7c8e1'')]
      (JObj [(''name'', JStr ''admin''), (''isSystem'', JBool True),
             (''displayName'', JStr '' Mod '')])
      (Some \<lparr>au_userId = ''64b7f0c2a1d3e4f5a6b7c8d3'', au_email = ''a2@example.com'',
             au_role = ''admin''\<rparr>)))
     = [''moderator'']
   \<and> map isSystem (snd (RoleController_updateRole
      [\<lparr>role_id = ''64b7f0c2a1d3e4f5a6b7c8e1'', name = ''moderator'',
        displayName = ''Moderator'', description = None, permissions = [''view_hotels''],
        isSystem = False, isActive = True, createdBy = Some ''64b7f0c2a1d3e4f5a6b7c8d1'',
        updatedBy = None\<rparr>]
      [(''roleId'', ''64b7f0c2a1d3e4f5a6b7c8e1'')]
      (JObj [(''name'', JStr ''admin''), (''isSystem'', JBool True),
             (''displayName'', JStr '' Mod '')])
      (Some \<lparr>au_userId = ''64b7f0c2a1d3e4f5a6b7c8d3'', au_email = ''a2@example.com'',
             au_role = ''admin''\<rparr>)))
     = [False]
   \<and> Role_findOne_active (snd (RoleController_updateRole
      [\<lparr>role_id = ''64b7f0c2a1d3e4f5a6b7c8e1'', name = ''moderator'',
        displayName = ''Moderator'', description = None, permissions = [''view_hotels''],
        isSystem = False, isActive = True, createdBy = Some ''64b7f0c2a1d3e4f5a6b7c8d1'',
        updatedBy = None\<rparr>]
      [(''roleId'', ''64b7f0c2a1d3e4f5a6b7c8e1'')]
      (JObj [(''name'', JStr ''admin''), (''isSystem'', JBool True),
             (''displayName'', JStr '' Mod '')])
      (Some \<lparr>au_userId = ''64b7f0c2a1d3e4f5a6b7c8d3'', au_email = ''a2@example.com'',
             au_role = ''admin''\<rparr>))) ''moderator'' \<noteq> None
   \<and> updateRoleSchema_parse (JObj [(''name'', JStr ''admin''), (''displayName'', JStr ''Mod'')])
     = updateRoleSchema_parse (JObj [(''displayName'', JStr ''Mod'')])"
proof -
  let ?m = "\<lparr>role_id = ''64b7f0c2a1d3e4f5a6b7c8e1'', name = ''moderator'',
        displayName = ''Moderator'', description = None, permissions = [''view_hotels''],
        isSystem = False, isActive = True, createdBy = Some ''64b7f0c2a1d3e4f5a6b7c8d1'',
        updatedBy = None\<rparr>"
  let ?params = "[(''roleId'', ''64b7f0c2a1d3e4f5a6b7c8e1'')]"
  let ?kvs = "[(''name'', JStr ''admin''), (''isSystem'', JBool True),
             (''displayName'', JStr '' Mod '')]"
  let ?user = "\<lparr>au_userId = ''64b7f0c2a1d3e4f5a6b7c8d3'', au_email = ''a2@example.com'',
             au_role = ''admin''\<rparr>"
  obtain outcome roles' where
    call: "RoleController_updateRole [?m] ?params (JObj ?kvs) (Some ?user) = (outcome, roles')"
    by (cases "RoleController_updateRole [?m] ?params (JObj ?kvs) (Some ?user)")
  note T = updateRole_cannot_rename[of "[?m]" ?params "JObj ?kvs" "Some ?user"]
  note C = T[THEN conjunct1, THEN spec, THEN spec, THEN mp, OF call]
  from C have "map name roles' = map name [?m]" "map isSystem roles' = map isSystem [?m]"
    by simp_all
  then have one: "map name roles' = [''moderator'']" and two: "map isSystem roles' = [False]"
    by simp_all
  have keep: "\<forall>kvs. JObj ?kvs = JObj kvs \<longrightarrow> field kvs ''isActive'' \<noteq> Some (JBool False)"
    by (simp add: field_def)
  have before: "Role_findOne_active [?m] ''moderator'' \<noteq> None"
    by (simp add: Role_findOne_active_def name_setter_moderator)
  from C have "(\<forall>kvs. JObj ?kvs = JObj kvs \<longrightarrow> field kvs ''isActive'' \<noteq> Some (JBool False)) \<longrightarrow>
            (\<forall>n. Role_findOne_active [?m] n \<noteq> None
                   \<longrightarrow> Role_findOne_active roles' n \<noteq> None)"
    by (elim conjE)
  from this[THEN mp, OF keep, THEN spec, THEN mp, OF before]
  have resolves: "Role_findOne_active roles' ''moderator'' \<noteq> None" .
  have rid: "roleIdSchema_parse ?params = Some ''64b7f0c2a1d3e4f5a6b7c8e1''"
    by (simp add: roleIdSchema_parse_def field_def)
  have parsed: "updateRoleSchema_parse (JObj ?kvs)
      = Some \<lparr>up_displayName = Some '' Mod '', up_description = None,
               up_permissions = None, up_isActive = None\<rparr>"
    by (simp add: updateRoleSchema_parse_def field_def zod_optional_def zod_string_def)
  have trimmed: "trim '' Mod '' = ''Mod''" by code_simp
  have "snd (RoleController_updateRole [?m] ?params (JObj ?kvs) (Some ?user))
      = [?m\<lparr>displayName := ''Mod'', updatedBy := Some ''64b7f0c2a1d3e4f5a6b7c8d3''\<rparr>]"
    by (simp add: RoleController_updateRole_def rid parsed updateRole_def Role_findById_def
        Role_findByIdAndUpdate_def apply_update_def trimmed)
  with call have three: "roles' = [\<lparr>role_id = ''64b7f0c2a1d3e4f5a6b7c8e1'', name = ''moderator'',
         displayName = ''Mod'', description = None, permissions = [''view_hotels''],
         isSystem = False, isActive = True, createdBy = Some ''64b7f0c2a1d3e4f5a6b7c8d1'',
         updatedBy = Some ''64b7f0c2a1d3e4f5a6b7c8d3''\<rparr>]"
    by simp
  have unknown: "''name'' \<notin> {''displayName'', ''description'', ''permissions'', ''isActive''}"
    by simp
  from T[THEN conjunct2, THEN conjunct1, rule_format, where k = "''name''"
      and v = "JStr ''admin''" and before = "[]" and after = "[(''displayName'', JStr ''Mod'')]",
      OF unknown]
  have four: "updateRoleSchema_parse (JObj [(''name'', JStr ''admin''), (''displayName'', JStr ''Mod'')])
     = updateRoleSchema_parse (JObj [(''displayName'', JStr ''Mod'')])"
    by simp
  show ?thesis unfolding call snd_conv using three one two resolves four by (intro conjI)
qed

end
